(* ===== verification/Prelude.thy ===== *)
theory Prelude
  imports Main "HOL-Library.Word" "HOL-Library.Sublist"
begin

text \<open>
  Shared material of the development.

  \<^item> The machine types of the Rust sources: unsigned integers are words of their width, hashes and
    addresses are words of 256 and 160 bits, byte strings are lists of octets.
  \<^item> The pieces of the Rust standard library the sources use: \<^verbatim>\<open>saturating_sub\<close>, \<^verbatim>\<open>str::split\<close>,
    \<^verbatim>\<open>str::parse::<usize>\<close>, the printing of numbers, JSON values as data.
  \<^item> Reachability of a step relation, with one locale that turns preservation by every step into
    an invariant of every reachable state; the state machines of the development interpret it.
  \<^item> The named collections \<open>payload_simps\<close> (field access of payload envelopes), \<open>client_simps\<close>
    (the Engine API clients) and \<open>server_simps\<close> (the request handlers) that the component proofs
    rewrite with.
\<close>

section \<open>Machine types\<close>

type_synonym u64 = "64 word"
type_synonym i64 = "64 word"
type_synonym u256 = "256 word"
type_synonym b256 = "256 word"
type_synonym bloom = "2048 word"
type_synonym address = "160 word"
type_synonym bytes = "8 word list"
type_synonym payload_id = "64 word"

named_theorems payload_simps \<open>field access of execution payload envelopes\<close>
named_theorems client_simps \<open>definitions of the Engine API clients\<close>
named_theorems server_simps \<open>definitions of the request handlers\<close>

text \<open>A JSON value (\<^verbatim>\<open>serde_json::Value\<close>): numbers keep their decimal text.\<close>

datatype json =
    JNull
  | JBool bool
  | JNumber string
  | JString string
  | JArray "json list"
  | JObject "(string \<times> json) list"

definition saturating_sub :: "'w::len word \<Rightarrow> 'w word \<Rightarrow> 'w word" where
  "saturating_sub a b = (if a < b then 0 else a - b)"

section \<open>Strings\<close>

text \<open>\<^verbatim>\<open>str::split\<close> by one character: there is always a last piece, possibly empty.\<close>

fun split_on :: "char \<Rightarrow> string \<Rightarrow> string list" where
  "split_on c [] = [[]]"
| "split_on c (x # xs) =
     (if x = c then [] # split_on c xs
      else (case split_on c xs of
              [] \<Rightarrow> [[x]]
            | p # ps \<Rightarrow> (x # p) # ps))"

fun join_with :: "char \<Rightarrow> string list \<Rightarrow> string" where
  "join_with c [] = []"
| "join_with c [p] = p"
| "join_with c (p # q # ps) = p @ c # join_with c (q # ps)"

definition digit_value :: "char \<Rightarrow> nat option" where
  "digit_value ch = (let n = of_char ch :: nat in
     if 48 \<le> n \<and> n \<le> 57 then Some (n - 48) else None)"

fun parse_digits :: "nat \<Rightarrow> string \<Rightarrow> nat option" where
  "parse_digits acc [] = Some acc"
| "parse_digits acc (x # xs) =
     (case digit_value x of
        None \<Rightarrow> None
      | Some d \<Rightarrow> (let acc' = 10 * acc + d in if acc' < 2 ^ 64 then parse_digits acc' xs else None))"

text \<open>
  \<^verbatim>\<open>str::parse::<usize>\<close> on a 64-bit target: an optional plus sign, then at least one decimal
  digit, and an error (\<open>None\<close>) on any other character or on overflow.
\<close>

definition parse_usize :: "string \<Rightarrow> nat option" where
  "parse_usize str = (case str of
      [] \<Rightarrow> None
    | x # xs \<Rightarrow> if x = CHR ''+'' then (if xs = [] then None else parse_digits 0 xs)
               else parse_digits 0 (x # xs))"

text \<open>The \<^verbatim>\<open>Display\<close> and \<^verbatim>\<open>LowerHex\<close> implementations of unsigned integers.\<close>

definition digit_char :: "nat \<Rightarrow> char" where
  "digit_char n = (if n < 10 then char_of (48 + n) else char_of (87 + n))"

fun show_base :: "nat \<Rightarrow> nat \<Rightarrow> string" where
  "show_base b n =
     (if b \<le> 1 \<or> n < b then [digit_char n] else show_base b (n div b) @ [digit_char (n mod b)])"

declare show_base.simps [simp del]

section \<open>Reachable states\<close>

inductive reach :: "('s \<Rightarrow> bool) \<Rightarrow> ('s \<Rightarrow> 's \<Rightarrow> bool) \<Rightarrow> 's \<Rightarrow> bool" for init step where
  reach_init: "init s \<Longrightarrow> reach init step s"
| reach_step: "reach init step s \<Longrightarrow> step s t \<Longrightarrow> reach init step t"

locale invariant_system =
  fixes init :: "'s \<Rightarrow> bool"
    and step :: "'s \<Rightarrow> 's \<Rightarrow> bool"
    and inv :: "'s \<Rightarrow> bool"
  assumes init_inv: "init s \<Longrightarrow> inv s"
    and step_inv: "step s t \<Longrightarrow> inv s \<Longrightarrow> inv t"
begin

lemma reach_inv: "reach init step s \<Longrightarrow> inv s"
  by (induction rule: reach.induct) (auto intro: init_inv step_inv)

end

section \<open>Library lemmas\<close>

lemma saturating_sub_le: "saturating_sub a b \<le> a"
  by (auto simp: saturating_sub_def word_sub_le)

lemma unat_saturating_sub: "unat (saturating_sub a b) = unat a - unat b"
  by (auto simp: saturating_sub_def unat_sub word_less_nat_alt word_le_nat_alt not_less)

lemma split_on_nonempty [simp]: "split_on c xs \<noteq> []"
  by (induction xs) (auto split: list.splits)

lemma join_split [simp]: "join_with c (split_on c xs) = xs"
proof (induction xs)
  case (Cons x xs)
  then show ?case
    by (cases "split_on c xs"; cases "tl (split_on c xs)") auto
qed simp

lemma split_on_no_sep: "c \<notin> set p \<Longrightarrow> split_on c p = [p]"
  by (induction p) auto

lemma split_on_append_sep: "c \<notin> set p \<Longrightarrow> split_on c (p @ c # xs) = p # split_on c xs"
  by (induction p) auto

lemma split_on_append: "split_on c (xs @ c # ys) = split_on c xs @ split_on c ys"
proof (induction xs)
  case (Cons x xs)
  then show ?case by (cases "split_on c xs") auto
qed simp

lemma split_join:
  "ps \<noteq> [] \<Longrightarrow> (\<And>p. p \<in> set ps \<Longrightarrow> c \<notin> set p) \<Longrightarrow> split_on c (join_with c ps) = ps"
  by (induction c ps rule: join_with.induct) (auto simp: split_on_no_sep split_on_append_sep)

lemma length_split_on_pos: "0 < length (split_on c xs)"
  by (cases "split_on c xs") auto

lemma split_on_pieces: "p \<in> set (split_on c xs) \<Longrightarrow> c \<notin> set p"
proof (induction xs arbitrary: p)
  case (Cons x xs)
  then show ?case
    by (cases "split_on c xs") (auto split: if_splits)
qed simp

lemma split_on_subset: "p \<in> set (split_on c xs) \<Longrightarrow> set p \<subseteq> set xs"
proof (induction xs arbitrary: p)
  case (Cons x xs)
  obtain a list where "split_on c xs = a # list" by (cases "split_on c xs") auto
  with Cons.IH [of a] Cons.IH [of p] Cons.prems show ?case by (auto split: if_splits)
qed simp

lemma parse_digits_bound: "acc < 2 ^ 64 \<Longrightarrow> parse_digits acc xs = Some n \<Longrightarrow> n < 2 ^ 64"
  by (induction acc xs rule: parse_digits.induct)
    (auto simp: Let_def split: option.splits if_splits)

lemma parse_usize_bound: "parse_usize xs = Some n \<Longrightarrow> n < 2 ^ 64"
  using parse_digits_bound [of 0]
  by (auto simp: parse_usize_def simp del: parse_digits.simps split: list.splits if_splits)

lemma fold_pair_append:
  "fold (\<lambda>d (ts, ws). (ts @ f d, ws @ g d)) ds (ts0, ws0) =
     (ts0 @ concat (map f ds), ws0 @ concat (map g ds))"
  by (induction ds arbitrary: ts0 ws0) auto

lemma funpow_fixpoint: "f x = x \<Longrightarrow> (f ^^ n) x = x"
  by (induction n) auto

lemma map_le_upd_None: "m(k := None) \<subseteq>\<^sub>m m"
  by (auto simp: map_le_def)

lemma map_le_SomeD: "m' \<subseteq>\<^sub>m m \<Longrightarrow> m' k = Some v \<Longrightarrow> m k = Some v"
  by (auto simp: map_le_def dom_def)

section \<open>Decimal numbers\<close>

lemma digit_value_digit_char: "n < 10 \<Longrightarrow> digit_value (digit_char n) = Some n"
  by (simp add: digit_value_def digit_char_def Let_def)

lemma parse_digits_append:
  "parse_digits acc (xs @ ys) = Option.bind (parse_digits acc xs) (\<lambda>a. parse_digits a ys)"
  by (induction acc xs rule: parse_digits.induct) (auto simp: Let_def split: option.splits)

lemma parse_digits_show: "n < 2 ^ 64 \<Longrightarrow> parse_digits 0 (show_base 10 n) = Some n"
proof (induction n rule: less_induct)
  case (less n)
  show ?case
  proof (cases "n < 10")
    case True
    with less.prems show ?thesis by (subst show_base.simps) (simp add: digit_value_digit_char)
  next
    case False
    then have "parse_digits 0 (show_base 10 (n div 10)) = Some (n div 10)"
      using less.prems by (intro less.IH) auto
    moreover have "digit_value (digit_char (n mod 10)) = Some (n mod 10)"
      by (simp add: digit_value_digit_char)
    moreover have "10 * (n div 10) + n mod 10 < 2 ^ 64" using less.prems by simp
    ultimately show ?thesis
      using False by (subst show_base.simps) (simp add: parse_digits_append Let_def)
  qed
qed

lemma show_base_nonempty [simp]: "show_base b n \<noteq> []"
  by (subst show_base.simps) simp

lemma hd_show_base: "1 < b \<Longrightarrow> \<exists>d < b. hd (show_base b n) = digit_char d"
proof (induction b n rule: show_base.induct)
  case (1 b n)
  then show ?case by (subst show_base.simps) auto
qed

end
