(* ===== verification/Payload.thy ===== *)
theory Payload
  imports Prelude
begin

text \<open>
  The payload types of \<^verbatim>\<open>crates/rollup-boost-types\<close>: execution payloads and their envelopes
  (\<^verbatim>\<open>payload.rs\<close>), the flashblock wire format (\<^verbatim>\<open>flashblocks.rs\<close>) and the
  \<^verbatim>\<open>PayloadTraceContext\<close> that remembers which payload ids the builder is working on.

  Field names carry a short prefix because Isabelle record fields are global: \<open>p_\<close> for
  \<^verbatim>\<open>ExecutionPayloadV1\<close>, \<open>v2_\<close>, \<open>v3_\<close>, \<open>v4_\<close> for the payload versions that wrap it, \<open>e3_\<close> and
  \<open>e4_\<close> for the envelopes, \<open>base_\<close>, \<open>diff_\<close>, \<open>fb_\<close> for the flashblock structs.

  The two \<^verbatim>\<open>moka\<close> caches are maps. The cache may drop entries when it is full; which ones is the
  crate's policy, so it is the parameter \<open>cache_policy\<close> of \<^verbatim>\<open>store\<close>, and \<open>only_evicts\<close> is the
  documented part of its behaviour the code relies on: it never invents or changes an entry.
\<close>

section \<open>Execution payloads\<close>

record withdrawal =
  wd_index :: u64
  wd_validator_index :: u64
  wd_address :: address
  wd_amount :: u64

record execution_payload_v1 =
  p_parent_hash :: b256
  p_fee_recipient :: address
  p_state_root :: b256
  p_receipts_root :: b256
  p_logs_bloom :: bloom
  p_prev_randao :: b256
  p_block_number :: u64
  p_gas_limit :: u64
  p_gas_used :: u64
  p_timestamp :: u64
  p_extra_data :: bytes
  p_base_fee_per_gas :: u256
  p_block_hash :: b256
  p_transactions :: "bytes list"

record execution_payload_v2 =
  v2_payload_inner :: execution_payload_v1
  v2_withdrawals :: "withdrawal list"

record execution_payload_v3 =
  v3_payload_inner :: execution_payload_v2
  v3_blob_gas_used :: u64
  v3_excess_blob_gas :: u64

record op_execution_payload_v4 =
  v4_payload_inner :: execution_payload_v3
  v4_withdrawals_root :: b256

record blobs_bundle_v1 =
  bb_commitments :: "bytes list"
  bb_proofs :: "bytes list"
  bb_blobs :: "bytes list"

definition blobs_bundle_default :: blobs_bundle_v1 where
  "blobs_bundle_default = \<lparr>bb_commitments = [], bb_proofs = [], bb_blobs = []\<rparr>"

record op_execution_payload_envelope_v3 =
  e3_execution_payload :: execution_payload_v3
  e3_block_value :: u256
  e3_blobs_bundle :: blobs_bundle_v1
  e3_should_override_builder :: bool
  e3_parent_beacon_block_root :: b256

record op_execution_payload_envelope_v4 =
  e4_execution_payload :: op_execution_payload_v4
  e4_block_value :: u256
  e4_blobs_bundle :: blobs_bundle_v1
  e4_should_override_builder :: bool
  e4_parent_beacon_block_root :: b256
  e4_execution_requests :: "bytes list"

datatype payload_version = PV3 | PV4

datatype op_execution_payload_envelope =
    EnvV3 op_execution_payload_envelope_v3
  | EnvV4 op_execution_payload_envelope_v4

fun envelope_version :: "op_execution_payload_envelope \<Rightarrow> payload_version" where
  "envelope_version (EnvV3 _) = PV3"
| "envelope_version (EnvV4 _) = PV4"

fun gas_used :: "op_execution_payload_envelope \<Rightarrow> u64" where
  "gas_used (EnvV3 e) = p_gas_used (v2_payload_inner (v3_payload_inner (e3_execution_payload e)))"
| "gas_used (EnvV4 e) =
     p_gas_used (v2_payload_inner (v3_payload_inner (v4_payload_inner (e4_execution_payload e))))"

fun tx_count :: "op_execution_payload_envelope \<Rightarrow> nat" where
  "tx_count (EnvV3 e) =
     length (p_transactions (v2_payload_inner (v3_payload_inner (e3_execution_payload e))))"
| "tx_count (EnvV4 e) =
     length (p_transactions (v2_payload_inner (v3_payload_inner
       (v4_payload_inner (e4_execution_payload e)))))"

fun transactions :: "op_execution_payload_envelope \<Rightarrow> bytes list" where
  "transactions (EnvV3 e) =
     p_transactions (v2_payload_inner (v3_payload_inner (e3_execution_payload e)))"
| "transactions (EnvV4 e) =
     p_transactions (v2_payload_inner (v3_payload_inner
       (v4_payload_inner (e4_execution_payload e))))"

record payload_attributes =
  pa_timestamp :: u64
  pa_prev_randao :: b256
  pa_suggested_fee_recipient :: address
  pa_withdrawals :: "withdrawal list option"
  pa_parent_beacon_block_root :: "b256 option"

fun envelope_payload_attributes :: "op_execution_payload_envelope \<Rightarrow> payload_attributes" where
  "envelope_payload_attributes (EnvV3 e) =
     (let v2 = v3_payload_inner (e3_execution_payload e); v1 = v2_payload_inner v2 in
      \<lparr>pa_timestamp = p_timestamp v1,
       pa_prev_randao = p_prev_randao v1,
       pa_suggested_fee_recipient = p_fee_recipient v1,
       pa_withdrawals = Some (v2_withdrawals v2),
       pa_parent_beacon_block_root = Some (e3_parent_beacon_block_root e)\<rparr>)"
| "envelope_payload_attributes (EnvV4 e) =
     (let v2 = v3_payload_inner (v4_payload_inner (e4_execution_payload e));
          v1 = v2_payload_inner v2 in
      \<lparr>pa_timestamp = p_timestamp v1,
       pa_prev_randao = p_prev_randao v1,
       pa_suggested_fee_recipient = p_fee_recipient v1,
       pa_withdrawals = Some (v2_withdrawals v2),
       pa_parent_beacon_block_root = Some (e4_parent_beacon_block_root e)\<rparr>)"

text \<open>
  \<^verbatim>\<open>ExecutionPayload\<close> is a sum over the payload versions; both conversions of this crate produce
  its V3 variant, so the target type here is the V3 record.
\<close>

fun execution_payload_from_envelope :: "op_execution_payload_envelope \<Rightarrow> execution_payload_v3" where
  "execution_payload_from_envelope (EnvV3 e) = e3_execution_payload e"
| "execution_payload_from_envelope (EnvV4 e) = v4_payload_inner (e4_execution_payload e)"

record new_payload_v3 =
  np3_payload :: execution_payload_v3
  np3_versioned_hashes :: "b256 list"
  np3_parent_beacon_block_root :: b256

record new_payload_v4 =
  np4_payload :: op_execution_payload_v4
  np4_versioned_hashes :: "b256 list"
  np4_parent_beacon_block_root :: b256
  np4_execution_requests :: "bytes list"

datatype new_payload = NPV3 new_payload_v3 | NPV4 new_payload_v4

fun new_payload_version :: "new_payload \<Rightarrow> payload_version" where
  "new_payload_version (NPV3 _) = PV3"
| "new_payload_version (NPV4 _) = PV4"

fun new_payload_from_envelope :: "op_execution_payload_envelope \<Rightarrow> new_payload" where
  "new_payload_from_envelope (EnvV3 e) =
     NPV3 \<lparr>np3_payload = e3_execution_payload e,
           np3_versioned_hashes = [],
           np3_parent_beacon_block_root = e3_parent_beacon_block_root e\<rparr>"
| "new_payload_from_envelope (EnvV4 e) =
     NPV4 \<lparr>np4_payload = e4_execution_payload e,
           np4_versioned_hashes = [],
           np4_parent_beacon_block_root = e4_parent_beacon_block_root e,
           np4_execution_requests = e4_execution_requests e\<rparr>"

fun execution_payload_from_new_payload :: "new_payload \<Rightarrow> execution_payload_v3" where
  "execution_payload_from_new_payload (NPV3 n) = np3_payload n"
| "execution_payload_from_new_payload (NPV4 n) = v4_payload_inner (np4_payload n)"

definition ep_block_hash :: "execution_payload_v3 \<Rightarrow> b256" where
  "ep_block_hash p = p_block_hash (v2_payload_inner (v3_payload_inner p))"

definition ep_parent_hash :: "execution_payload_v3 \<Rightarrow> b256" where
  "ep_parent_hash p = p_parent_hash (v2_payload_inner (v3_payload_inner p))"

fun payload_version_as_str :: "payload_version \<Rightarrow> string" where
  "payload_version_as_str PV3 = ''v3''"
| "payload_version_as_str PV4 = ''v4''"

datatype payload_source = L2 | Builder

fun payload_source_to_string :: "payload_source \<Rightarrow> string" where
  "payload_source_to_string L2 = ''l2''"
| "payload_source_to_string Builder = ''builder''"

fun is_builder :: "payload_source \<Rightarrow> bool" where
  "is_builder Builder = True"
| "is_builder L2 = False"

fun is_l2 :: "payload_source \<Rightarrow> bool" where
  "is_l2 L2 = True"
| "is_l2 Builder = False"

section \<open>The flashblock wire format\<close>

record execution_payload_flashblock_delta_v1 =
  diff_state_root :: b256
  diff_receipts_root :: b256
  diff_logs_bloom :: bloom
  diff_gas_used :: u64
  diff_block_hash :: b256
  diff_transactions :: "bytes list"
  diff_withdrawals :: "withdrawal list"
  diff_withdrawals_root :: b256
  diff_blob_gas_used :: "u64 option"

record execution_payload_base_v1 =
  base_parent_beacon_block_root :: b256
  base_parent_hash :: b256
  base_fee_recipient :: address
  base_prev_randao :: b256
  base_block_number :: u64
  base_gas_limit :: u64
  base_timestamp :: u64
  base_extra_data :: bytes
  base_base_fee_per_gas :: u256

record flashblocks_payload_v1 =
  fb_payload_id :: payload_id
  fb_index :: u64
  fb_base :: "execution_payload_base_v1 option"
  fb_diff :: execution_payload_flashblock_delta_v1
  fb_metadata :: json

section \<open>The payload trace context\<close>

type_synonym trace_id = u64

record payload_trace =
  builder_has_payload :: bool
  pt_trace_id :: "trace_id option"

record payload_trace_context =
  block_hash_to_payload_ids :: "b256 \<rightharpoonup> payload_id list"
  ctx_payload_id :: "payload_id \<rightharpoonup> payload_trace"

text \<open>The eviction policy of the two caches: what a cache holds after an insertion.\<close>

record cache_policy =
  evict_hashes :: "(b256 \<rightharpoonup> payload_id list) \<Rightarrow> (b256 \<rightharpoonup> payload_id list)"
  evict_ids :: "(payload_id \<rightharpoonup> payload_trace) \<Rightarrow> (payload_id \<rightharpoonup> payload_trace)"

definition only_evicts :: "cache_policy \<Rightarrow> bool" where
  "only_evicts ev \<longleftrightarrow>
     (\<forall>m. evict_hashes ev m \<subseteq>\<^sub>m m) \<and> (\<forall>m. evict_ids ev m \<subseteq>\<^sub>m m)"

definition keep_all :: cache_policy where
  "keep_all = \<lparr>evict_hashes = (\<lambda>m. m), evict_ids = (\<lambda>m. m)\<rparr>"

definition payload_trace_context_new :: payload_trace_context where
  "payload_trace_context_new =
     \<lparr>block_hash_to_payload_ids = Map.empty, ctx_payload_id = Map.empty\<rparr>"

definition store ::
  "cache_policy \<Rightarrow> payload_id \<Rightarrow> b256 \<Rightarrow> bool \<Rightarrow> trace_id option
     \<Rightarrow> payload_trace_context \<Rightarrow> payload_trace_context" where
  "store ev pid parent has tid ctx =
     (let ids = evict_ids ev ((ctx_payload_id ctx)
                  (pid \<mapsto> \<lparr>builder_has_payload = has, pt_trace_id = tid\<rparr>));
          hashes = block_hash_to_payload_ids ctx;
          payloads = (case hashes parent of Some e \<Rightarrow> e @ [pid] | None \<Rightarrow> [pid])
      in \<lparr>block_hash_to_payload_ids = evict_hashes ev (hashes(parent \<mapsto> payloads)),
          ctx_payload_id = ids\<rparr>)"

definition ctx_trace_id :: "payload_trace_context \<Rightarrow> payload_id \<Rightarrow> trace_id option" where
  "ctx_trace_id ctx pid = Option.bind (ctx_payload_id ctx pid) pt_trace_id"

definition trace_ids_from_parent_hash ::
  "payload_trace_context \<Rightarrow> b256 \<Rightarrow> trace_id list option" where
  "trace_ids_from_parent_hash ctx h =
     (case block_hash_to_payload_ids ctx h of
        Some pids \<Rightarrow> Some (List.map_filter (ctx_trace_id ctx) pids)
      | None \<Rightarrow> None)"

definition has_builder_payload :: "payload_trace_context \<Rightarrow> payload_id \<Rightarrow> bool" where
  "has_builder_payload ctx pid =
     (case ctx_payload_id ctx pid of Some x \<Rightarrow> builder_has_payload x | None \<Rightarrow> False)"

definition remove_by_parent_hash ::
  "b256 \<Rightarrow> payload_trace_context \<Rightarrow> payload_trace_context" where
  "remove_by_parent_hash h ctx =
     (case block_hash_to_payload_ids ctx h of
        None \<Rightarrow> ctx
      | Some pids \<Rightarrow>
          \<lparr>block_hash_to_payload_ids = (block_hash_to_payload_ids ctx)(h := None),
           ctx_payload_id = fold (\<lambda>pid m. m(pid := None)) pids (ctx_payload_id ctx)\<rparr>)"


section \<open>Envelopes and conversions\<close>

lemma new_payload_from_envelope_version [payload_simps]:
  "new_payload_version (new_payload_from_envelope e) = envelope_version e"
  by (cases e) auto

lemma new_payload_from_envelope_payload [payload_simps]:
  "execution_payload_from_new_payload (new_payload_from_envelope e) =
     execution_payload_from_envelope e"
  by (cases e) auto

lemma tx_count_transactions [payload_simps]: "tx_count e = length (transactions e)"
  by (cases e) auto

lemma transactions_from_envelope [payload_simps]:
  "p_transactions (v2_payload_inner (v3_payload_inner (execution_payload_from_envelope e))) =
     transactions e"
  by (cases e) auto

lemma envelope_version_PV3: "envelope_version e = PV3 \<longleftrightarrow> (\<exists>v. e = EnvV3 v)"
  by (cases e) auto

lemma envelope_version_PV4: "envelope_version e = PV4 \<longleftrightarrow> (\<exists>v. e = EnvV4 v)"
  by (cases e) auto

lemma inj_payload_version_as_str: "inj payload_version_as_str"
  by (rule injI) (auto elim: payload_version_as_str.elims)

lemma inj_payload_source_to_string: "inj payload_source_to_string"
  by (rule injI) (auto elim: payload_source_to_string.elims)

section \<open>Laws of the trace context\<close>

lemma keep_all_only_evicts [simp]: "only_evicts keep_all"
  by (simp add: only_evicts_def keep_all_def)

lemma keep_all_sel [simp]: "evict_hashes keep_all m = m" "evict_ids keep_all n = n"
  by (simp_all add: keep_all_def)

lemma evict_ids_SomeD: "only_evicts ev \<Longrightarrow> evict_ids ev m k = Some v \<Longrightarrow> m k = Some v"
  by (auto simp: only_evicts_def intro: map_le_SomeD)

lemma evict_hashes_SomeD: "only_evicts ev \<Longrightarrow> evict_hashes ev m k = Some v \<Longrightarrow> m k = Some v"
  by (auto simp: only_evicts_def intro: map_le_SomeD)

lemma has_builder_payload_new [simp]: "\<not> has_builder_payload payload_trace_context_new pid"
  by (simp add: has_builder_payload_def payload_trace_context_new_def)

lemma has_builder_payload_storeD:
  assumes "only_evicts ev" and "has_builder_payload (store ev pid h b t ctx) q"
  shows "if q = pid then b else has_builder_payload ctx q"
proof -
  let ?m = "(ctx_payload_id ctx)(pid \<mapsto> \<lparr>builder_has_payload = b, pt_trace_id = t\<rparr>)"
  from assms(2) obtain x where x: "evict_ids ev ?m q = Some x" "builder_has_payload x"
    by (auto simp: has_builder_payload_def store_def Let_def split: option.splits)
  with assms(1) have "?m q = Some x" by (blast dest: evict_ids_SomeD)
  with x(2) show ?thesis by (auto simp: has_builder_payload_def split: if_splits)
qed

lemma has_builder_payload_store_keep [simp]:
  "has_builder_payload (store keep_all pid h b t ctx) q =
     (if q = pid then b else has_builder_payload ctx q)"
  by (auto simp: has_builder_payload_def store_def Let_def)

lemma fold_remove_keys:
  "fold (\<lambda>pid m. m(pid := None)) pids m q = (if q \<in> set pids then None else m q)"
  by (induction pids arbitrary: m) auto

lemma has_builder_payload_remove:
  "has_builder_payload (remove_by_parent_hash h ctx) q \<longleftrightarrow>
     has_builder_payload ctx q \<and>
     (case block_hash_to_payload_ids ctx h of Some pids \<Rightarrow> q \<notin> set pids | None \<Rightarrow> True)"
  by (auto simp: has_builder_payload_def remove_by_parent_hash_def fold_remove_keys
      split: option.splits)

lemma has_builder_payload_removeD:
  "has_builder_payload (remove_by_parent_hash h ctx) q \<Longrightarrow> has_builder_payload ctx q"
  by (simp add: has_builder_payload_remove)

text \<open>
  With a policy that keeps everything, each traced id is listed under a parent hash, so the
  removal that follows a new payload on that parent reaches it.
\<close>

definition ids_listed :: "payload_trace_context \<Rightarrow> bool" where
  "ids_listed ctx \<longleftrightarrow>
     (\<forall>pid \<in> dom (ctx_payload_id ctx). \<exists>h pids.
        block_hash_to_payload_ids ctx h = Some pids \<and> pid \<in> set pids)"

lemma ids_listed_new: "ids_listed payload_trace_context_new"
  by (simp add: ids_listed_def payload_trace_context_new_def)

lemma ids_listedI:
  assumes "\<And>pid t. ctx_payload_id ctx pid = Some t \<Longrightarrow>
    \<exists>h pids. block_hash_to_payload_ids ctx h = Some pids \<and> pid \<in> set pids"
  shows "ids_listed ctx"
  using assms by (auto simp: ids_listed_def)

lemma ids_listed_store:
  assumes "ids_listed ctx"
  shows "ids_listed (store keep_all pid h b t ctx)"
proof (rule ids_listedI)
  fix q x assume "ctx_payload_id (store keep_all pid h b t ctx) q = Some x"
  then consider "q = pid" | y where "q \<noteq> pid" "ctx_payload_id ctx q = Some y"
    by (auto simp: store_def Let_def split: if_splits)
  then show "\<exists>h' pids. block_hash_to_payload_ids (store keep_all pid h b t ctx) h' = Some pids
                \<and> q \<in> set pids"
  proof cases
    case 1
    then show ?thesis
      by (intro exI [of _ h]) (auto simp: store_def Let_def split: option.splits)
  next
    case 2
    with assms obtain h' pids where
      "block_hash_to_payload_ids ctx h' = Some pids" "q \<in> set pids"
      by (auto simp: ids_listed_def dom_def)
    then show ?thesis
      by (intro exI [of _ h']) (auto simp: store_def Let_def)
  qed
qed

lemma ids_listed_remove:
  assumes "ids_listed ctx"
  shows "ids_listed (remove_by_parent_hash h ctx)"
proof (cases "block_hash_to_payload_ids ctx h")
  case None
  with assms show ?thesis by (simp add: remove_by_parent_hash_def)
next
  case (Some pids)
  show ?thesis
  proof (rule ids_listedI)
    fix q x assume "ctx_payload_id (remove_by_parent_hash h ctx) q = Some x"
    with Some have q: "q \<notin> set pids" "q \<in> dom (ctx_payload_id ctx)"
      by (auto simp: remove_by_parent_hash_def fold_remove_keys split: if_splits)
    with assms obtain h' qids where
      "block_hash_to_payload_ids ctx h' = Some qids" "q \<in> set qids"
      unfolding ids_listed_def by blast
    with Some q show "\<exists>h' pids. block_hash_to_payload_ids (remove_by_parent_hash h ctx) h' =
        Some pids \<and> q \<in> set pids"
      by (intro exI [of _ h']) (auto simp: remove_by_parent_hash_def)
  qed
qed

end
