(* ===== verification/Engine_Client.thy ===== *)
theory Engine_Client
  imports Payload
begin

text \<open>
  The Engine API client side: the trait \<^verbatim>\<open>EngineApiExt\<close> (\<^verbatim>\<open>engine_api.rs\<close>) and its first
  implementation \<^verbatim>\<open>RpcClient\<close> (\<^verbatim>\<open>client/rpc.rs\<close>).

  A trait object is a record of operations, \<open>'b engine_api\<close>, over the state \<open>'b\<close> of whatever stands
  behind it (connection, remote node, and for flashblocks the local block under construction). The
  operations take that state and return it updated together with their result, so a theorem that
  quantifies over all \<open>'b engine_api\<close> and all states covers every sequence of answers a node can give.

  What the sources take from other crates is a parameter: the JSON-RPC transport
  (\<^verbatim>\<open>jsonrpsee\<close>) is \<open>'w transport\<close>; \<^verbatim>\<open>PayloadStatusEnum::is_invalid\<close> and \<^verbatim>\<open>to_string\<close> of
  \<^verbatim>\<open>alloy\<close> and \<^verbatim>\<open>payload_id_optimism\<close> of \<^verbatim>\<open>reth\<close> are the fields of \<open>engine_lib\<close>.

  The locale \<open>engine_api_ext\<close> states what every implementation of the trait promises its callers;
  \<open>rpc\<close> interprets it on \<^verbatim>\<open>RpcClient\<close> here, \<open>fbs\<close> on \<^verbatim>\<open>FlashblocksService\<close> in its theory.
\<close>

section \<open>Wire data\<close>

record error_object =
  eo_code :: int
  eo_message :: string
  eo_data :: "string option"

text \<open>
  The client error of \<^verbatim>\<open>jsonrpsee\<close>: an error object returned by the server, or any other failure,
  of which the sources only use the displayed text.
\<close>

datatype jsonrpsee_error = JsCall error_object | JsOther string

record forkchoice_state =
  fcs_head_block_hash :: b256
  fcs_safe_block_hash :: b256
  fcs_finalized_block_hash :: b256

record op_payload_attributes =
  opa_payload_attributes :: payload_attributes
  opa_transactions :: "bytes list option"
  opa_no_tx_pool :: "bool option"
  opa_gas_limit :: "u64 option"
  opa_eip_1559_params :: "64 word option"
  opa_min_base_fee :: "u64 option"

datatype payload_status_enum = Valid | Invalid string | Syncing | Accepted

record payload_status =
  ps_status :: payload_status_enum
  ps_latest_valid_hash :: "b256 option"

record forkchoice_updated =
  fu_payload_status :: payload_status
  fu_payload_id :: "payload_id option"

datatype block_number_or_tag = Latest | Finalized | Safe | Earliest | Pending | Number u64

record block =
  blk_hash :: b256
  blk_number :: u64
  blk_timestamp :: u64

record engine_lib =
  lib_is_invalid :: "payload_status_enum \<Rightarrow> bool"
  lib_status_to_string :: "payload_status_enum \<Rightarrow> string"
  lib_payload_id_optimism :: "b256 \<Rightarrow> op_payload_attributes \<Rightarrow> nat \<Rightarrow> payload_id"

section \<open>Errors\<close>

definition INTERNAL_ERROR :: int where
  "INTERNAL_ERROR = 13"

datatype rpc_client_error =
    Jsonrpsee jsonrpsee_error
  | InvalidPayload string
  | Io string
  | Jwt string

type_synonym 'a client_result = "rpc_client_error + 'a"

fun jsonrpsee_code :: "jsonrpsee_error \<Rightarrow> int" where
  "jsonrpsee_code (JsCall call) = eo_code call"
| "jsonrpsee_code (JsOther _) = INTERNAL_ERROR"

fun client_error_code :: "rpc_client_error \<Rightarrow> int" where
  "client_error_code (Jsonrpsee e) = jsonrpsee_code e"
| "client_error_code _ = INTERNAL_ERROR"

fun result_code :: "('e \<Rightarrow> int) \<Rightarrow> 'e + 'a \<Rightarrow> int" where
  "result_code code (Inr _) = 0"
| "result_code code (Inl e) = code e"

definition internal_error_object :: "string \<Rightarrow> error_object" where
  "internal_error_object msg = \<lparr>eo_code = INTERNAL_ERROR, eo_message = msg, eo_data = None\<rparr>"

fun error_object_from :: "rpc_client_error \<Rightarrow> error_object" where
  "error_object_from (Jsonrpsee (JsCall eo)) = eo"
| "error_object_from (Jsonrpsee (JsOther msg)) = internal_error_object msg"
| "error_object_from (InvalidPayload status) = internal_error_object (''Invalid payload: '' @ status)"
| "error_object_from (Io msg) = internal_error_object msg"
| "error_object_from (Jwt msg) = internal_error_object msg"

section \<open>The trait\<close>

record 'b engine_api =
  ea_fork_choice_updated_v3 ::
    "forkchoice_state \<Rightarrow> op_payload_attributes option \<Rightarrow> 'b \<Rightarrow> forkchoice_updated client_result \<times> 'b"
  ea_new_payload :: "new_payload \<Rightarrow> 'b \<Rightarrow> payload_status client_result \<times> 'b"
  ea_get_payload ::
    "payload_id \<Rightarrow> payload_version \<Rightarrow> 'b \<Rightarrow> op_execution_payload_envelope client_result \<times> 'b"
  ea_get_block_by_number :: "block_number_or_tag \<Rightarrow> bool \<Rightarrow> 'b \<Rightarrow> block client_result \<times> 'b"

section \<open>RpcClient\<close>

record 'w transport =
  tr_fork_choice_updated_v3 ::
    "forkchoice_state \<Rightarrow> op_payload_attributes option \<Rightarrow> 'w
       \<Rightarrow> (jsonrpsee_error + forkchoice_updated) \<times> 'w"
  tr_get_payload_v3 ::
    "payload_id \<Rightarrow> 'w \<Rightarrow> (jsonrpsee_error + op_execution_payload_envelope_v3) \<times> 'w"
  tr_new_payload_v3 ::
    "execution_payload_v3 \<Rightarrow> b256 list \<Rightarrow> b256 \<Rightarrow> 'w \<Rightarrow> (jsonrpsee_error + payload_status) \<times> 'w"
  tr_get_payload_v4 ::
    "payload_id \<Rightarrow> 'w \<Rightarrow> (jsonrpsee_error + op_execution_payload_envelope_v4) \<times> 'w"
  tr_new_payload_v4 ::
    "op_execution_payload_v4 \<Rightarrow> b256 list \<Rightarrow> b256 \<Rightarrow> bytes list \<Rightarrow> 'w
       \<Rightarrow> (jsonrpsee_error + payload_status) \<times> 'w"
  tr_get_block_by_number ::
    "block_number_or_tag \<Rightarrow> bool \<Rightarrow> 'w \<Rightarrow> (jsonrpsee_error + block) \<times> 'w"

text \<open>The \<^verbatim>\<open>?\<close> operator on a transport answer: the error is wrapped by \<^verbatim>\<open>From\<close>.\<close>

definition wrap_jsonrpsee :: "(jsonrpsee_error + 'a) \<times> 'w \<Rightarrow> 'a client_result \<times> 'w" where
  "wrap_jsonrpsee r = (case r of
      (Inl e, w) \<Rightarrow> (Inl (Jsonrpsee e), w)
    | (Inr a, w) \<Rightarrow> (Inr a, w))"

definition rpc_fork_choice_updated_v3 ::
  "engine_lib \<Rightarrow> 'w transport \<Rightarrow> forkchoice_state \<Rightarrow> op_payload_attributes option \<Rightarrow> 'w
     \<Rightarrow> forkchoice_updated client_result \<times> 'w" where
  "rpc_fork_choice_updated_v3 lib tr fcs attrs w =
     (case wrap_jsonrpsee (tr_fork_choice_updated_v3 tr fcs attrs w) of
        (Inl e, w') \<Rightarrow> (Inl e, w')
      | (Inr res, w') \<Rightarrow>
          (let status = ps_status (fu_payload_status res) in
           if lib_is_invalid lib status
           then (Inl (InvalidPayload (lib_status_to_string lib status)), w')
           else (Inr res, w')))"

definition rpc_get_payload_v3 ::
  "'w transport \<Rightarrow> payload_id \<Rightarrow> 'w \<Rightarrow> op_execution_payload_envelope_v3 client_result \<times> 'w" where
  "rpc_get_payload_v3 tr pid w = wrap_jsonrpsee (tr_get_payload_v3 tr pid w)"

definition check_status ::
  "engine_lib \<Rightarrow> payload_status client_result \<times> 'w \<Rightarrow> payload_status client_result \<times> 'w" where
  "check_status lib r = (case r of
      (Inl e, w) \<Rightarrow> (Inl e, w)
    | (Inr res, w) \<Rightarrow>
        if lib_is_invalid lib (ps_status res)
        then (Inl (InvalidPayload (lib_status_to_string lib (ps_status res))), w)
        else (Inr res, w))"

definition rpc_new_payload_v3 ::
  "engine_lib \<Rightarrow> 'w transport \<Rightarrow> execution_payload_v3 \<Rightarrow> b256 list \<Rightarrow> b256 \<Rightarrow> 'w
     \<Rightarrow> payload_status client_result \<times> 'w" where
  "rpc_new_payload_v3 lib tr payload versioned_hashes parent_beacon_block_root w =
     check_status lib
       (wrap_jsonrpsee (tr_new_payload_v3 tr payload versioned_hashes parent_beacon_block_root w))"

definition rpc_get_payload_v4 ::
  "'w transport \<Rightarrow> payload_id \<Rightarrow> 'w \<Rightarrow> op_execution_payload_envelope_v4 client_result \<times> 'w" where
  "rpc_get_payload_v4 tr pid w = wrap_jsonrpsee (tr_get_payload_v4 tr pid w)"

fun rpc_get_payload ::
  "'w transport \<Rightarrow> payload_id \<Rightarrow> payload_version \<Rightarrow> 'w
     \<Rightarrow> op_execution_payload_envelope client_result \<times> 'w" where
  "rpc_get_payload tr pid PV3 w =
     (case rpc_get_payload_v3 tr pid w of
        (Inl e, w') \<Rightarrow> (Inl e, w')
      | (Inr v3, w') \<Rightarrow> (Inr (EnvV3 v3), w'))"
| "rpc_get_payload tr pid PV4 w =
     (case rpc_get_payload_v4 tr pid w of
        (Inl e, w') \<Rightarrow> (Inl e, w')
      | (Inr v4, w') \<Rightarrow> (Inr (EnvV4 v4), w'))"

definition rpc_new_payload_v4 ::
  "engine_lib \<Rightarrow> 'w transport \<Rightarrow> op_execution_payload_v4 \<Rightarrow> b256 list \<Rightarrow> b256 \<Rightarrow> bytes list \<Rightarrow> 'w
     \<Rightarrow> payload_status client_result \<times> 'w" where
  "rpc_new_payload_v4 lib tr payload versioned_hashes parent_beacon_block_root execution_requests w =
     check_status lib
       (wrap_jsonrpsee (tr_new_payload_v4 tr payload versioned_hashes parent_beacon_block_root
          execution_requests w))"

fun rpc_new_payload ::
  "engine_lib \<Rightarrow> 'w transport \<Rightarrow> new_payload \<Rightarrow> 'w \<Rightarrow> payload_status client_result \<times> 'w" where
  "rpc_new_payload lib tr (NPV3 n) w =
     rpc_new_payload_v3 lib tr (np3_payload n) (np3_versioned_hashes n)
       (np3_parent_beacon_block_root n) w"
| "rpc_new_payload lib tr (NPV4 n) w =
     rpc_new_payload_v4 lib tr (np4_payload n) (np4_versioned_hashes n)
       (np4_parent_beacon_block_root n) (np4_execution_requests n) w"

definition rpc_get_block_by_number ::
  "'w transport \<Rightarrow> block_number_or_tag \<Rightarrow> bool \<Rightarrow> 'w \<Rightarrow> block client_result \<times> 'w" where
  "rpc_get_block_by_number tr number full w =
     wrap_jsonrpsee (tr_get_block_by_number tr number full w)"

definition rpc_client_api :: "engine_lib \<Rightarrow> 'w transport \<Rightarrow> 'w engine_api" where
  "rpc_client_api lib tr =
     \<lparr>ea_fork_choice_updated_v3 = rpc_fork_choice_updated_v3 lib tr,
      ea_new_payload = rpc_new_payload lib tr,
      ea_get_payload = rpc_get_payload tr,
      ea_get_block_by_number = rpc_get_block_by_number tr\<rparr>"

section \<open>Client arguments\<close>

record client_args =
  ca_url :: string
  ca_jwt_token :: "string option"
  ca_jwt_path :: "string option"
  ca_timeout :: u64

datatype client_args_error = MissingJwtSecret | JwtFileError string

definition get_auth_jwt ::
  "(string \<Rightarrow> string + string) \<Rightarrow> client_args \<Rightarrow> client_args_error + string" where
  "get_auth_jwt from_file args =
     (case ca_jwt_token args of
        Some secret \<Rightarrow> Inr secret
      | None \<Rightarrow>
          (case ca_jwt_path args of
             Some path \<Rightarrow> (case from_file path of
                 Inl e \<Rightarrow> Inl (JwtFileError e)
               | Inr secret \<Rightarrow> Inr secret)
           | None \<Rightarrow> Inl MissingJwtSecret))"

section \<open>What an implementation of the trait promises\<close>

locale engine_api_ext =
  fixes lib :: engine_lib
    and api :: "'b engine_api"
  assumes get_payload_version:
      "ea_get_payload api pid v b = (Inr e, b') \<Longrightarrow> envelope_version e = v"
    and new_payload_not_invalid:
      "ea_new_payload api np b = (Inr st, b') \<Longrightarrow> \<not> lib_is_invalid lib (ps_status st)"
    and fork_choice_not_invalid:
      "ea_fork_choice_updated_v3 api fcs attrs b = (Inr r, b') \<Longrightarrow>
         \<not> lib_is_invalid lib (ps_status (fu_payload_status r))"

lemmas rpc_client_defs [client_simps] =
  rpc_fork_choice_updated_v3_def rpc_get_payload_v3_def rpc_get_payload_v4_def
  rpc_new_payload_v3_def rpc_new_payload_v4_def rpc_get_block_by_number_def
  rpc_client_api_def wrap_jsonrpsee_def check_status_def

lemma error_object_code: "eo_code (error_object_from e) = client_error_code e"
  by (cases e rule: error_object_from.cases) (simp_all add: internal_error_object_def)

lemma check_status_Inr:
  "check_status lib r = (Inr st, w) \<longleftrightarrow> r = (Inr st, w) \<and> \<not> lib_is_invalid lib (ps_status st)"
  by (auto simp: check_status_def split: prod.splits sum.splits)

lemma rpc_get_payload_version:
  "rpc_get_payload tr pid v w = (Inr e, w') \<Longrightarrow> envelope_version e = v"
  by (cases v) (auto split: prod.splits sum.splits)

lemma rpc_new_payload_not_invalid:
  "rpc_new_payload lib tr np w = (Inr st, w') \<Longrightarrow> \<not> lib_is_invalid lib (ps_status st)"
  by (cases np) (auto simp: rpc_new_payload_v3_def rpc_new_payload_v4_def check_status_Inr)

lemma rpc_fork_choice_not_invalid:
  "rpc_fork_choice_updated_v3 lib tr fcs attrs w = (Inr r, w') \<Longrightarrow>
     \<not> lib_is_invalid lib (ps_status (fu_payload_status r))"
  by (auto simp: rpc_fork_choice_updated_v3_def Let_def split: prod.splits sum.splits if_splits)

interpretation rpc: engine_api_ext lib "rpc_client_api lib tr" for lib tr
  by unfold_locales
    (auto simp: rpc_client_api_def
      dest: rpc_get_payload_version rpc_new_payload_not_invalid rpc_fork_choice_not_invalid)

end
