(* ===== verification/Samples.thy ===== *)
theory Samples
  imports Engine_Client
begin

text \<open>
  Concrete inputs for the witnesses of the development: payloads, flashblocks, forkchoice states, a
  library record with the documented reading of the payload status, and a transport whose state is
  \<open>unit\<close> and whose answers are given. Nothing here models code.
\<close>

definition sample_v1 :: "u64 \<Rightarrow> b256 \<Rightarrow> bytes list \<Rightarrow> execution_payload_v1" where
  "sample_v1 gas hash txs =
     \<lparr>p_parent_hash = 7, p_fee_recipient = 0, p_state_root = 0, p_receipts_root = 0,
      p_logs_bloom = 0, p_prev_randao = 0, p_block_number = 1, p_gas_limit = 1000,
      p_gas_used = gas, p_timestamp = 10, p_extra_data = [], p_base_fee_per_gas = 1,
      p_block_hash = hash, p_transactions = txs\<rparr>"

definition sample_v3 :: "u64 \<Rightarrow> b256 \<Rightarrow> bytes list \<Rightarrow> execution_payload_v3" where
  "sample_v3 gas hash txs =
     \<lparr>v3_payload_inner = \<lparr>v2_payload_inner = sample_v1 gas hash txs, v2_withdrawals = []\<rparr>,
      v3_blob_gas_used = 0, v3_excess_blob_gas = 0\<rparr>"

definition sample_env_v3 :: "u64 \<Rightarrow> b256 \<Rightarrow> bytes list \<Rightarrow> op_execution_payload_envelope_v3" where
  "sample_env_v3 gas hash txs =
     \<lparr>e3_execution_payload = sample_v3 gas hash txs, e3_block_value = 0,
      e3_blobs_bundle = blobs_bundle_default, e3_should_override_builder = False,
      e3_parent_beacon_block_root = 0\<rparr>"

definition sample_env :: "u64 \<Rightarrow> b256 \<Rightarrow> bytes list \<Rightarrow> op_execution_payload_envelope" where
  "sample_env gas hash txs = EnvV3 (sample_env_v3 gas hash txs)"

definition sample_env_v4 :: "u64 \<Rightarrow> b256 \<Rightarrow> bytes list \<Rightarrow> op_execution_payload_envelope_v4" where
  "sample_env_v4 gas hash txs =
     \<lparr>e4_execution_payload =
        \<lparr>v4_payload_inner = sample_v3 gas hash txs, v4_withdrawals_root = 0\<rparr>,
      e4_block_value = 0, e4_blobs_bundle = blobs_bundle_default,
      e4_should_override_builder = False, e4_parent_beacon_block_root = 0,
      e4_execution_requests = []\<rparr>"

definition sample_base :: execution_payload_base_v1 where
  "sample_base =
     \<lparr>base_parent_beacon_block_root = 0, base_parent_hash = 7, base_fee_recipient = 0,
      base_prev_randao = 0, base_block_number = 1, base_gas_limit = 1000, base_timestamp = 10,
      base_extra_data = [], base_base_fee_per_gas = 1\<rparr>"

definition sample_diff :: "bytes list \<Rightarrow> execution_payload_flashblock_delta_v1" where
  "sample_diff txs =
     \<lparr>diff_state_root = 0, diff_receipts_root = 0, diff_logs_bloom = 0, diff_gas_used = 21000,
      diff_block_hash = 9, diff_transactions = txs, diff_withdrawals = [],
      diff_withdrawals_root = 0, diff_blob_gas_used = None\<rparr>"

definition sample_fb ::
  "payload_id \<Rightarrow> u64 \<Rightarrow> execution_payload_base_v1 option \<Rightarrow> bytes list \<Rightarrow> flashblocks_payload_v1" where
  "sample_fb pid i base txs =
     \<lparr>fb_payload_id = pid, fb_index = i, fb_base = base, fb_diff = sample_diff txs,
      fb_metadata = JNull\<rparr>"

definition sample_fcs :: forkchoice_state where
  "sample_fcs = \<lparr>fcs_head_block_hash = 7, fcs_safe_block_hash = 6, fcs_finalized_block_hash = 5\<rparr>"

definition sample_attrs :: "bool option \<Rightarrow> op_payload_attributes" where
  "sample_attrs no_tx_pool =
     \<lparr>opa_payload_attributes =
        \<lparr>pa_timestamp = 10, pa_prev_randao = 0, pa_suggested_fee_recipient = 0,
         pa_withdrawals = None, pa_parent_beacon_block_root = None\<rparr>,
      opa_transactions = None, opa_no_tx_pool = no_tx_pool, opa_gas_limit = None,
      opa_eip_1559_params = None, opa_min_base_fee = None\<rparr>"

definition sample_status :: "payload_status_enum \<Rightarrow> payload_status" where
  "sample_status st = \<lparr>ps_status = st, ps_latest_valid_hash = None\<rparr>"

definition sample_fcu :: "payload_id option \<Rightarrow> forkchoice_updated" where
  "sample_fcu pid = \<lparr>fu_payload_status = sample_status Valid, fu_payload_id = pid\<rparr>"

definition sample_lib :: engine_lib where
  "sample_lib =
     \<lparr>lib_is_invalid = (\<lambda>st. case st of Invalid _ \<Rightarrow> True | _ \<Rightarrow> False),
      lib_status_to_string = (\<lambda>st. case st of
          Valid \<Rightarrow> ''VALID'' | Invalid e \<Rightarrow> ''INVALID: '' @ e
        | Syncing \<Rightarrow> ''SYNCING'' | Accepted \<Rightarrow> ''ACCEPTED''),
      lib_payload_id_optimism = (\<lambda>_ _ _. 42)\<rparr>"

definition sample_transport ::
  "jsonrpsee_error + forkchoice_updated \<Rightarrow> jsonrpsee_error + op_execution_payload_envelope_v3
     \<Rightarrow> jsonrpsee_error + payload_status \<Rightarrow> jsonrpsee_error + block \<Rightarrow> unit transport" where
  "sample_transport fcu payload status blk =
     \<lparr>tr_fork_choice_updated_v3 = (\<lambda>_ _ w. (fcu, w)),
      tr_get_payload_v3 = (\<lambda>_ w. (payload, w)),
      tr_new_payload_v3 = (\<lambda>_ _ _ w. (status, w)),
      tr_get_payload_v4 = (\<lambda>_ w. (Inl (JsOther ''unsupported''), w)),
      tr_new_payload_v4 = (\<lambda>_ _ _ _ w. (status, w)),
      tr_get_block_by_number = (\<lambda>_ _ w. (blk, w))\<rparr>"

text \<open>A client of unit state with given answers.\<close>

definition sample_api ::
  "forkchoice_updated client_result \<Rightarrow> payload_status client_result
     \<Rightarrow> op_execution_payload_envelope client_result \<Rightarrow> unit engine_api" where
  "sample_api fcu status payload =
     \<lparr>ea_fork_choice_updated_v3 = (\<lambda>_ _ w. (fcu, w)),
      ea_new_payload = (\<lambda>_ w. (status, w)),
      ea_get_payload = (\<lambda>_ _ w. (payload, w)),
      ea_get_block_by_number = (\<lambda>_ _ w. (Inl (Io ''no block''), w))\<rparr>"

lemmas sample_defs =
  sample_v1_def sample_v3_def sample_env_v3_def sample_env_def sample_env_v4_def
  sample_base_def sample_diff_def sample_fb_def sample_fcs_def sample_attrs_def
  sample_status_def sample_fcu_def sample_lib_def sample_transport_def sample_api_def

end
