(* ===== verification/Selection.thy ===== *)
theory Selection
  imports Samples
begin

text \<open>
  \<^verbatim>\<open>BlockSelectionPolicy\<close> (\<^verbatim>\<open>selection.rs\<close>). The policy compares gas amounts in \<^verbatim>\<open>f64\<close>: both
  amounts are converted from \<^verbatim>\<open>u64\<close> and the L2 amount is multiplied by the literal \<^verbatim>\<open>0.1\<close>. The
  arithmetic is modelled exactly, as IEEE-754 binary64 does it: a nonnegative finite value is a
  natural number in some power-of-two unit, and each operation rounds its exact result to 53
  significant bits, ties to even. The literal \<^verbatim>\<open>0.1\<close> is the binary64 number
  \<open>3602879701896397 / 2 ^ 55\<close>; the values that occur lie far inside the normal range, so neither
  overflow nor subnormal numbers arise.

  The theorem of this theory says that for all gas amounts below \<open>2 ^ 53\<close> this floating-point test
  decides exactly the intended comparison, ten times the builder's gas against the L2 gas.
\<close>

section \<open>Binary64 arithmetic on nonnegative values\<close>

fun bit_length :: "nat \<Rightarrow> nat" where
  "bit_length n = (if n = 0 then 0 else Suc (bit_length (n div 2)))"

declare bit_length.simps [simp del]

definition round53 :: "nat \<Rightarrow> nat" where
  "round53 n =
     (if n < 2 ^ 53 then n
      else let e = bit_length n - 53;
               q = n div 2 ^ e;
               r = n mod 2 ^ e;
               half = 2 ^ (e - 1)
           in (if half < r \<or> (r = half \<and> odd q) then q + 1 else q) * 2 ^ e)"

definition f64_from_u64 :: "u64 \<Rightarrow> nat" where
  "f64_from_u64 g = round53 (unat g)"

text \<open>The significand of the literal \<^verbatim>\<open>0.1\<close>, in units of \<open>2 ^ -55\<close>.\<close>

definition f64_tenth :: nat where
  "f64_tenth = 3602879701896397"

text \<open>\<^verbatim>\<open>builder_gas < l2_gas * 0.1\<close>, with both sides in units of \<open>2 ^ -55\<close>.\<close>

definition below_tenth :: "u64 \<Rightarrow> u64 \<Rightarrow> bool" where
  "below_tenth builder_gas l2_gas \<longleftrightarrow>
     f64_from_u64 builder_gas * 2 ^ 55 < round53 (f64_from_u64 l2_gas * f64_tenth)"

section \<open>The policy\<close>

datatype block_selection_policy = GasUsed

fun select_block ::
  "block_selection_policy \<Rightarrow> op_execution_payload_envelope \<Rightarrow> op_execution_payload_envelope
     \<Rightarrow> op_execution_payload_envelope \<times> payload_source" where
  "select_block GasUsed builder_payload l2_payload =
     (if below_tenth (gas_used builder_payload) (gas_used l2_payload)
      then (l2_payload, L2)
      else (builder_payload, Builder))"

section \<open>Rounding\<close>

lemma bit_length_eq:
  "2 ^ k \<le> n \<Longrightarrow> n < 2 ^ Suc k \<Longrightarrow> bit_length n = Suc k"
proof (induction k arbitrary: n)
  case 0
  then have "n = 1" by simp
  then show ?case by (simp add: bit_length.simps)
next
  case (Suc k)
  then have "2 ^ k \<le> n div 2" "n div 2 < 2 ^ Suc k" by auto
  then have "bit_length (n div 2) = Suc k" by (rule Suc.IH)
  with Suc.prems show ?case by (auto simp: bit_length.simps [of n])
qed

lemma ex_power_bracket: "0 < (n::nat) \<Longrightarrow> \<exists>k. 2 ^ k \<le> n \<and> n < 2 ^ Suc k"
proof (induction n rule: less_induct)
  case (less n)
  show ?case
  proof (cases "n = 1")
    case True
    then show ?thesis by (intro exI [of _ 0]) simp
  next
    case False
    with less have "n div 2 < n" "0 < n div 2" by auto
    then obtain k where "2 ^ k \<le> n div 2" "n div 2 < 2 ^ Suc k" using less.IH by blast
    then show ?thesis by (intro exI [of _ "Suc k"]) auto
  qed
qed

text \<open>A value that needs rounding lies in a binade above \<open>2 ^ 53\<close>.\<close>

lemma round53_binade:
  assumes "2 ^ 53 \<le> (n::nat)"
  obtains e where "0 < e" "2 ^ (52 + e) \<le> n" "n < 2 ^ (53 + e)"
proof -
  from assms have "0 < n" by (auto intro: gr0I)
  then obtain k where k: "2 ^ k \<le> n" "n < 2 ^ Suc k" using ex_power_bracket by blast
  with assms have "(2::nat) ^ 53 < 2 ^ Suc k" by linarith
  then have "53 < Suc k" by (rule power_less_imp_less_exp [rotated]) simp
  with k show thesis by (intro that [of "k - 52"]) auto
qed

lemma round53_eq:
  assumes "2 ^ (52 + e) \<le> n" "n < 2 ^ (53 + e)" "0 < e"
  shows "round53 n =
    (if 2 ^ (e - 1) < n mod 2 ^ e \<or> (n mod 2 ^ e = 2 ^ (e - 1) \<and> odd (n div 2 ^ e))
     then n div 2 ^ e + 1 else n div 2 ^ e) * 2 ^ e"
proof -
  from assms have bl: "bit_length n = 53 + e"
    using bit_length_eq [of "52 + e" n] by simp
  from assms(3) have "(2::nat) ^ 53 \<le> 2 ^ (52 + e)" by (intro power_increasing) auto
  with assms(1) have "\<not> n < 2 ^ 53" by linarith
  with bl show ?thesis by (simp add: round53_def Let_def)
qed

lemma round_to_nearest_lower:
  assumes "n \<le> (q + 1) * u" "n = q * u + r"
  shows "n \<le> (if h < r \<or> (r = h \<and> odd q) then q + 1 else q) * u + (h::nat)"
proof (cases "h < r \<or> (r = h \<and> odd q)")
  case True
  with assms(1) show ?thesis by simp
next
  case False
  then have "r \<le> h" by auto
  with assms(2) False show ?thesis by simp
qed

lemma round53_lower:
  assumes "n < 2 ^ (53 + e)" "0 < e"
  shows "n \<le> round53 n + 2 ^ (e - 1)"
proof (cases "n < 2 ^ 53")
  case True
  then show ?thesis by (simp add: round53_def)
next
  case False
  then obtain d where d: "0 < d" "2 ^ (52 + d) \<le> n" "n < 2 ^ (53 + d)"
    using round53_binade [of n] by auto
  have "(2::nat) ^ (52 + d) < 2 ^ (53 + e)" using d(2) assms(1) by linarith
  then have "52 + d < 53 + e" by (rule power_less_imp_less_exp [rotated]) simp
  then have half: "(2::nat) ^ (d - 1) \<le> 2 ^ (e - 1)" by (intro power_increasing) auto
  have split: "n = n div 2 ^ d * 2 ^ d + n mod 2 ^ d" by (simp only: div_mult_mod_eq)
  have "n mod 2 ^ d < 2 ^ d" by simp
  then have "n \<le> (n div 2 ^ d + 1) * 2 ^ d" using split by (simp only: add_mult_distrib)
  then have "n \<le> round53 n + 2 ^ (d - 1)"
    by (subst round53_eq [OF d(2,3,1)]) (rule round_to_nearest_lower [OF _ split])
  with half show ?thesis by linarith
qed

text \<open>Rounding never passes a representable value from below.\<close>

lemma round53_upper:
  assumes "n \<le> m * 2 ^ j" "m < 2 ^ 53"
  shows "round53 n \<le> m * 2 ^ j"
proof (cases "n < 2 ^ 53")
  case True
  with assms show ?thesis by (simp add: round53_def)
next
  case False
  then obtain e where e: "0 < e" "2 ^ (52 + e) \<le> n" "n < 2 ^ (53 + e)"
    using round53_binade [of n] by auto
  have split: "n = n div 2 ^ e * 2 ^ e + n mod 2 ^ e" by (simp only: div_mult_mod_eq)
  show ?thesis
  proof (cases "n mod 2 ^ e = 0")
    case True
    with split e(1) have "round53 n = n" by (subst round53_eq [OF e(2,3,1)]) auto
    with assms(1) show ?thesis by simp
  next
    case nz: False
    have "m * 2 ^ j < 2 ^ 53 * 2 ^ j" using assms(2) by simp
    then have "m * 2 ^ j < 2 ^ (53 + j)" by (simp only: power_add)
    then have "(2::nat) ^ (52 + e) < 2 ^ (53 + j)"
      using e(2) assms(1) by linarith
    then have "52 + e < 53 + j" by (rule power_less_imp_less_exp [rotated]) simp
    then have "(2::nat) ^ e dvd 2 ^ j" by (intro le_imp_power_dvd) simp
    then obtain k where k: "m * 2 ^ j = k * 2 ^ e" by (metis dvd_def mult.assoc mult.commute)
    have "n div 2 ^ e * 2 ^ e < k * 2 ^ e" using nz split assms(1) k by linarith
    then have "n div 2 ^ e < k" by (simp only: mult_less_cancel2)
    then have "(if c then n div 2 ^ e + 1 else n div 2 ^ e) * 2 ^ e \<le> k * 2 ^ e" for c
      by (intro mult_le_mono1) simp
    then show ?thesis using k by (subst round53_eq [OF e(2,3,1)]) simp
  qed
qed

text \<open>Less than half a unit in the last place above a representable value rounds back to it.\<close>

lemma round53_down:
  assumes c: "2 ^ k \<le> c" "c < 2 ^ Suc k" "k \<le> 50" and r: "r < 2 ^ (k + 2)"
  shows "round53 (c * 2 ^ 55 + r) = c * 2 ^ 55"
proof -
  let ?n = "c * 2 ^ 55 + r"
  have lo: "2 ^ (52 + (k + 3)) \<le> ?n" using c(1) by (simp add: power_add)
  have "c + 1 \<le> 2 ^ Suc k" using c(2) by simp
  then have "(c + 1) * 2 ^ 55 \<le> 2 ^ Suc k * 2 ^ 55" by (rule mult_le_mono1)
  moreover have "(2::nat) ^ (k + 2) \<le> 2 ^ 55" using c(3) by (intro power_increasing) auto
  ultimately have hi: "?n < 2 ^ (53 + (k + 3))" using r by (simp add: power_add algebra_simps)
  have "(55::nat) = (k + 3) + (52 - k)" using c(3) by simp
  then have "(2::nat) ^ 55 = 2 ^ (k + 3) * 2 ^ (52 - k)" by (metis power_add)
  then have dvd: "?n = c * 2 ^ (52 - k) * 2 ^ (k + 3) + r"
    by (simp only: mult.assoc mult.commute [of "2 ^ (52 - k)"])
  have "r < 2 ^ (k + 3)" using r by (simp add: power_add)
  then have "?n div 2 ^ (k + 3) = c * 2 ^ (52 - k)" "?n mod 2 ^ (k + 3) = r"
    unfolding dvd by simp_all
  with r show ?thesis using dvd by (subst round53_eq [OF lo hi]) simp_all
qed


section \<open>The floating-point test decides the ten-percent rule\<close>

lemma f64_tenth_times_ten: "10 * f64_tenth = 2 ^ 55 + 2"
  by (simp add: f64_tenth_def)

lemma below_tenth_if:
  assumes "10 * b < l" "l < 2 ^ 53"
  shows "b * 2 ^ 55 < round53 (l * f64_tenth)"
proof -
  have "(10 * b + 1) * f64_tenth \<le> l * f64_tenth" using assms(1) by (intro mult_le_mono1) simp
  then have low: "b * 2 ^ 55 + 2 * b + f64_tenth \<le> l * f64_tenth"
    using f64_tenth_times_ten by (simp add: algebra_simps f64_tenth_def)
  have "l * f64_tenth < 2 ^ 53 * 2 ^ 52"
    using assms(2) by (intro mult_strict_mono) (simp_all add: f64_tenth_def)
  then have "l * f64_tenth < 2 ^ (53 + 52)" by simp
  then have "l * f64_tenth \<le> round53 (l * f64_tenth) + 2 ^ 51"
    using round53_lower [of "l * f64_tenth" 52] by simp
  with low show ?thesis by (simp add: f64_tenth_def)
qed

lemma round53_tenth_le:
  assumes "l \<le> 10 * c" "c < 2 ^ 51"
  shows "round53 (l * f64_tenth) \<le> c * 2 ^ 55"
proof (cases "l * f64_tenth \<le> c * 2 ^ 55")
  case True
  then show ?thesis using assms(2) by (intro round53_upper) auto
next
  case False
  then obtain r where r: "l * f64_tenth = c * 2 ^ 55 + r"
    by (metis le_add_diff_inverse linorder_le_cases)
  have "l * f64_tenth \<le> (10 * c) * f64_tenth" using assms(1) by (rule mult_le_mono1)
  also have "\<dots> = c * (2 ^ 55 + 2)" by (simp add: f64_tenth_def)
  finally have "r \<le> 2 * c" unfolding r by simp
  have "0 < c" using False assms(1) by (cases c) auto
  then obtain k where k: "2 ^ k \<le> c" "c < 2 ^ Suc k" using ex_power_bracket by blast
  have "(2::nat) ^ k < 2 ^ 51" using k(1) assms(2) by linarith
  then have "k < 51" by (rule power_less_imp_less_exp [rotated]) simp
  moreover have "r < 2 ^ (k + 2)" using \<open>r \<le> 2 * c\<close> k(2) by (simp add: power_add)
  ultimately have "round53 (c * 2 ^ 55 + r) = c * 2 ^ 55" using k by (intro round53_down) auto
  with r show ?thesis by simp
qed

lemma below_tenth_only_if:
  assumes "l \<le> 10 * b" "l < 2 ^ 53"
  shows "round53 (l * f64_tenth) \<le> b * 2 ^ 55"
proof -
  let ?c = "(l + 9) div 10"
  have "l \<le> 10 * ?c" "?c \<le> b" "?c < 2 ^ 51" using assms by auto
  then have "round53 (l * f64_tenth) \<le> ?c * 2 ^ 55" by (intro round53_tenth_le) auto
  also have "\<dots> \<le> b * 2 ^ 55" using \<open>?c \<le> b\<close> by (rule mult_le_mono1)
  finally show ?thesis .
qed

lemma below_tenth_exact:
  assumes "unat b < 2 ^ 53" "unat l < 2 ^ 53"
  shows "below_tenth b l \<longleftrightarrow> 10 * unat b < unat l"
proof -
  have "f64_from_u64 b = unat b" "f64_from_u64 l = unat l"
    using assms by (simp_all add: f64_from_u64_def round53_def)
  then show ?thesis
    using below_tenth_if [of "unat b" "unat l"] below_tenth_only_if [of "unat l" "unat b"] assms
    by (auto simp: below_tenth_def not_less simp flip: not_le)
qed

text \<open>
  C21: the gas policy is exact. For gas amounts below \<open>2 ^ 53\<close>, far above any block's, the floating
  point comparison of the policy selects the L2 block exactly when ten times the builder's gas is
  less than the L2 gas, in integers, and the builder's block otherwise.
\<close>

theorem select_block_ten_percent:
  assumes "unat (gas_used builder_payload) < 2 ^ 53" and "unat (gas_used l2_payload) < 2 ^ 53"
  shows "select_block GasUsed builder_payload l2_payload =
    (if 10 * unat (gas_used builder_payload) < unat (gas_used l2_payload) then (l2_payload, L2)
     else (builder_payload, Builder))"
  using below_tenth_exact [OF assms] by simp

theorem select_block_ten_percent_witness:
  "select_block GasUsed (sample_env 99 1 []) (sample_env 1000 2 []) = (sample_env 1000 2 [], L2) \<and>
   select_block GasUsed (sample_env 100 1 []) (sample_env 1000 2 []) = (sample_env 100 1 [], Builder)"
proof -
  have g: "unat (gas_used (sample_env 99 1 [])) = 99" "unat (gas_used (sample_env 100 1 [])) = 100"
    "unat (gas_used (sample_env 1000 2 [])) = 1000"
    by (simp_all add: sample_defs)
  show ?thesis
    using select_block_ten_percent [of "sample_env 99 1 []" "sample_env 1000 2 []"]
      select_block_ten_percent [of "sample_env 100 1 []" "sample_env 1000 2 []"]
    unfolding g by simp
qed

end
