(* ===== verification/Health.thy ===== *)
theory Health
  imports Engine_Client Samples
begin

text \<open>
  Health and execution mode: the health probe (\<^verbatim>\<open>probe.rs\<close>), the execution mode and its debug API
  (\<^verbatim>\<open>debug_api.rs\<close>), and the health check loop with its monotonic clock (\<^verbatim>\<open>health.rs\<close>).

  \<^verbatim>\<open>Mutex<Health>\<close> and \<^verbatim>\<open>Mutex<ExecutionMode>\<close> are plain state: each lock is held for one read or
  write. One iteration of the endless health loop is \<open>health_check_iteration\<close>; within it the execution mode is
  read once. Instants are nanoseconds of the monotonic clock; \<^verbatim>\<open>tick\<close> reads that clock twice.
\<close>

section \<open>The health probe\<close>

datatype health = Healthy | PartialContent | ServiceUnavailable

record http_response =
  resp_status :: nat
  resp_body :: string

definition ok_response :: http_response where
  "ok_response = \<lparr>resp_status = 200, resp_body = ''OK''\<rparr>"

definition partial_content_response :: http_response where
  "partial_content_response = \<lparr>resp_status = 206, resp_body = ''Partial Content''\<rparr>"

definition service_unavailable_response :: http_response where
  "service_unavailable_response = \<lparr>resp_status = 503, resp_body = ''Service Unavailable''\<rparr>"

fun response_from_health :: "health \<Rightarrow> http_response" where
  "response_from_health Healthy = ok_response"
| "response_from_health PartialContent = partial_content_response"
| "response_from_health ServiceUnavailable = service_unavailable_response"

record probes =
  probes_health :: health

definition probes_default :: probes where
  "probes_default = \<lparr>probes_health = Healthy\<rparr>"

definition set_health :: "health \<Rightarrow> probes \<Rightarrow> probes" where
  "set_health value p = p\<lparr>probes_health := value\<rparr>"

text \<open>\<^verbatim>\<open>ProbeService::call\<close>: three paths are answered here, all others by the inner service.\<close>

definition probe_call ::
  "probes \<Rightarrow> (string \<Rightarrow> 'req \<Rightarrow> 'i \<Rightarrow> ('e + http_response) \<times> 'i) \<Rightarrow> string \<Rightarrow> 'req \<Rightarrow> 'i
     \<Rightarrow> ('e + http_response) \<times> 'i" where
  "probe_call p inner path request i =
     (if path = ''/healthz'' then (Inr (response_from_health (probes_health p)), i)
      else if path = ''/readyz'' then (Inr ok_response, i)
      else if path = ''/livez'' then (Inr ok_response, i)
      else inner path request i)"

section \<open>Execution mode and debug API\<close>

datatype execution_mode = Enabled | DryRun | Disabled

fun is_dry_run :: "execution_mode \<Rightarrow> bool" where
  "is_dry_run DryRun = True"
| "is_dry_run _ = False"

fun is_disabled :: "execution_mode \<Rightarrow> bool" where
  "is_disabled Disabled = True"
| "is_disabled _ = False"

fun is_enabled :: "execution_mode \<Rightarrow> bool" where
  "is_enabled Enabled = True"
| "is_enabled _ = False"

fun to_metric_value :: "execution_mode \<Rightarrow> nat" where
  "to_metric_value Enabled = 3"
| "to_metric_value DryRun = 2"
| "to_metric_value Disabled = 1"

text \<open>The modes ordered by how much they let through to the builder, as the metric does.\<close>

instantiation execution_mode :: linorder
begin

definition less_eq_execution_mode :: "execution_mode \<Rightarrow> execution_mode \<Rightarrow> bool" where
  "less_eq_execution_mode m n \<longleftrightarrow> to_metric_value m \<le> to_metric_value n"

definition less_execution_mode :: "execution_mode \<Rightarrow> execution_mode \<Rightarrow> bool" where
  "less_execution_mode m n \<longleftrightarrow> to_metric_value m < to_metric_value n"

instance
proof
  fix x y z :: execution_mode
  show "(x < y) = (x \<le> y \<and> \<not> y \<le> x)"
    by (auto simp: less_eq_execution_mode_def less_execution_mode_def)
  show "x \<le> x" by (simp add: less_eq_execution_mode_def)
  show "x \<le> y \<Longrightarrow> y \<le> z \<Longrightarrow> x \<le> z" by (simp add: less_eq_execution_mode_def)
  show "x \<le> y \<Longrightarrow> y \<le> x \<Longrightarrow> x = y"
    by (cases x; cases y) (auto simp: less_eq_execution_mode_def)
  show "x \<le> y \<or> y \<le> x" by (auto simp: less_eq_execution_mode_def)
qed

end

record debug_server =
  ds_execution_mode :: execution_mode
  ds_gauge :: nat

definition debug_execution_mode :: "debug_server \<Rightarrow> execution_mode" where
  "debug_execution_mode d = ds_execution_mode d"

definition debug_set_execution_mode :: "execution_mode \<Rightarrow> debug_server \<Rightarrow> debug_server" where
  "debug_set_execution_mode mode d =
     d\<lparr>ds_execution_mode := mode, ds_gauge := to_metric_value mode\<rparr>"

definition debug_rpc_set_execution_mode ::
  "execution_mode \<Rightarrow> debug_server \<Rightarrow> execution_mode \<times> debug_server" where
  "debug_rpc_set_execution_mode mode d = (mode, debug_set_execution_mode mode d)"

definition debug_rpc_get_execution_mode :: "debug_server \<Rightarrow> execution_mode" where
  "debug_rpc_get_execution_mode d = debug_execution_mode d"

section \<open>The monotonic clock\<close>

record monotonic_timestamp =
  last_unix :: u64
  last_instant :: nat

definition nanos_per_sec :: nat where
  "nanos_per_sec = 1000000000"

definition monotonic_timestamp_new :: "u64 \<Rightarrow> nat \<Rightarrow> monotonic_timestamp" where
  "monotonic_timestamp_new unix now = \<lparr>last_unix = unix, last_instant = now\<rparr>"

text \<open>
  \<^verbatim>\<open>tick\<close> at the clock readings \<open>now1\<close> (for \<^verbatim>\<open>elapsed\<close>, which truncates to seconds and is 0 when the
  clock has not advanced) and \<open>now2\<close> (for the new reference). The addition wraps at 64 bits.
\<close>

definition tick :: "nat \<Rightarrow> nat \<Rightarrow> monotonic_timestamp \<Rightarrow> u64 \<times> monotonic_timestamp" where
  "tick now1 now2 ts =
     (let elapsed = (now1 - last_instant ts) div nanos_per_sec;
          unix = last_unix ts + of_nat elapsed
      in (unix, \<lparr>last_unix = unix, last_instant = now2\<rparr>))"

fun ticks :: "(nat \<times> nat) list \<Rightarrow> monotonic_timestamp \<Rightarrow> monotonic_timestamp" where
  "ticks [] ts = ts"
| "ticks ((now1, now2) # rest) ts = ticks rest (snd (tick now1 now2 ts))"

section \<open>The health check loop\<close>

record ('l, 'b) health_handle =
  hh_probes :: probes
  hh_execution_mode :: execution_mode
  hh_l2_client :: 'l
  hh_builder_client :: 'b
  hh_timestamp :: monotonic_timestamp

definition too_old :: "u64 \<Rightarrow> u64 \<Rightarrow> block \<Rightarrow> bool" where
  "too_old max_unsafe_interval t blk \<longleftrightarrow>
     max_unsafe_interval < saturating_sub t (blk_timestamp blk)"

definition set_hh_health :: "health \<Rightarrow> ('l, 'b) health_handle \<Rightarrow> ('l, 'b) health_handle" where
  "set_hh_health value h = h\<lparr>hh_probes := set_health value (hh_probes h)\<rparr>"

definition check_builder_health ::
  "'b engine_api \<Rightarrow> u64 \<Rightarrow> u64 \<Rightarrow> ('l, 'b) health_handle \<Rightarrow> ('l, 'b) health_handle" where
  "check_builder_health builder max_unsafe_interval t h =
     (case ea_get_block_by_number builder Latest False (hh_builder_client h) of
        (r, b) \<Rightarrow>
          (let h' = h\<lparr>hh_builder_client := b\<rparr> in
           case r of
             Inr blk \<Rightarrow>
               if too_old max_unsafe_interval t blk then set_hh_health PartialContent h'
               else set_hh_health Healthy h'
           | Inl e \<Rightarrow> set_hh_health PartialContent h'))"

definition health_check_iteration ::
  "'l engine_api \<Rightarrow> 'b engine_api \<Rightarrow> u64 \<Rightarrow> nat \<Rightarrow> nat \<Rightarrow> ('l, 'b) health_handle
     \<Rightarrow> ('l, 'b) health_handle" where
  "health_check_iteration l2 builder max_unsafe_interval now1 now2 h0 =
     (let (t, ts) = tick now1 now2 (hh_timestamp h0);
          (r, l) = ea_get_block_by_number l2 Latest False (hh_l2_client h0);
          h = h0\<lparr>hh_timestamp := ts, hh_l2_client := l\<rparr>
      in case r of
           Inl e \<Rightarrow> set_hh_health ServiceUnavailable h
         | Inr blk \<Rightarrow>
             if too_old max_unsafe_interval t blk then set_hh_health ServiceUnavailable h
             else if is_disabled (hh_execution_mode h) \<or> is_dry_run (hh_execution_mode h)
             then set_hh_health Healthy h
             else if is_enabled (hh_execution_mode h)
             then check_builder_health builder max_unsafe_interval t h
             else h)"

section \<open>Lemmas\<close>

lemma probes_health_set [simp]: "probes_health (set_health v p) = v"
  by (simp add: set_health_def)

lemma set_health_set [simp]: "set_health v (set_health w p) = set_health v p"
  by (simp add: set_health_def)

lemma too_old_unat:
  "too_old m t blk \<longleftrightarrow> unat m < unat t - unat (blk_timestamp blk)"
  by (simp add: too_old_def word_less_nat_alt unat_saturating_sub)

lemma is_enabled_iff [simp]: "is_enabled m \<longleftrightarrow> m = Enabled"
  by (cases m) auto

lemma is_dry_run_iff [simp]: "is_dry_run m \<longleftrightarrow> m = DryRun"
  by (cases m) auto

lemma is_disabled_iff [simp]: "is_disabled m \<longleftrightarrow> m = Disabled"
  by (cases m) auto

lemma tick_unat:
  assumes "unat (last_unix ts) + (now1 - last_instant ts) div nanos_per_sec < 2 ^ 64"
  shows "unat (fst (tick now1 now2 ts)) =
    unat (last_unix ts) + (now1 - last_instant ts) div nanos_per_sec"
  using assms by (simp add: tick_def Let_def unat_word_ariths unat_of_nat take_bit_eq_mod)


section \<open>Properties of the health check\<close>

definition stale_by :: "u64 \<Rightarrow> u64 \<Rightarrow> block client_result \<Rightarrow> bool" where
  "stale_by max_unsafe_interval t r =
     (case r of
        Inl _ \<Rightarrow> True
      | Inr blk \<Rightarrow> unat max_unsafe_interval < unat t - unat (blk_timestamp blk))"

text \<open>
  C17: one iteration of the health loop sets the probe by this table, whatever it was before. If the
  L2 client fails or its latest block is older than the allowed interval (as natural numbers, so a
  block from the future is never old), the service is unavailable; otherwise in dry-run and disabled
  mode it is healthy; otherwise it is healthy or partial according to the builder's block. The
  builder is asked only in the last case.
\<close>

theorem health_check_verdict:
  "let t = fst (tick now1 now2 (hh_timestamp h));
       l2_answer = fst (ea_get_block_by_number l2 Latest False (hh_l2_client h));
       builder_answer = fst (ea_get_block_by_number builder Latest False (hh_builder_client h));
       h' = health_check_iteration l2 builder m now1 now2 h;
       ask = (\<not> stale_by m t l2_answer \<and> hh_execution_mode h = Enabled)
   in probes_health (hh_probes h') =
        (if stale_by m t l2_answer then ServiceUnavailable
         else if ask \<and> stale_by m t builder_answer then PartialContent
         else Healthy) \<and>
      hh_builder_client h' =
        (if ask then snd (ea_get_block_by_number builder Latest False (hh_builder_client h))
         else hh_builder_client h) \<and>
      hh_execution_mode h' = hh_execution_mode h"
  by (cases "hh_execution_mode h")
    (auto simp: health_check_iteration_def check_builder_health_def set_hh_health_def stale_by_def
      too_old_unat Let_def split: prod.splits sum.splits)

section \<open>Properties of the clock\<close>

text \<open>Clock readings in order: each is at or after the one before.\<close>

fun in_order :: "nat \<Rightarrow> (nat \<times> nat) list \<Rightarrow> bool" where
  "in_order t [] \<longleftrightarrow> True"
| "in_order t ((now1, now2) # rest) \<longleftrightarrow> t \<le> now1 \<and> now1 \<le> now2 \<and> in_order now2 rest"

lemma ticks_last_instant_ge: "in_order (last_instant ts) rs \<Longrightarrow> last_instant ts \<le> last_instant (ticks rs ts)"
proof (induction rs arbitrary: ts)
  case (Cons r rs)
  obtain now1 now2 where r: "r = (now1, now2)" by (cases r)
  have "last_instant (snd (tick now1 now2 ts)) = now2" by (simp add: tick_def Let_def)
  with Cons.IH [of "snd (tick now1 now2 ts)"] Cons.prems r show ?case by simp
qed simp

lemma div_add_le: "a div c + b div c \<le> (a + b) div (c::nat)"
  by (subst div_add1_eq) simp

text \<open>
  The health clock never goes back and never runs ahead. Over any sequence of ticks at ordered
  readings of the monotonic clock, the synthetic UNIX time does not decrease and advances by at most
  the whole seconds that really elapsed, provided the 64-bit counter does not overflow.
\<close>

theorem clock_monotone_and_never_ahead:
  assumes "in_order (last_instant ts) rs"
    and "unat (last_unix ts) + (last_instant (ticks rs ts) - last_instant ts) div nanos_per_sec < 2 ^ 64"
  shows "unat (last_unix ts) \<le> unat (last_unix (ticks rs ts)) \<and>
    unat (last_unix (ticks rs ts)) \<le>
      unat (last_unix ts) + (last_instant (ticks rs ts) - last_instant ts) div nanos_per_sec"
  using assms
proof (induction rs arbitrary: ts)
  case (Cons r rs)
  obtain now1 now2 where r: "r = (now1, now2)" by (cases r)
  let ?i = "last_instant ts" and ?next = "snd (tick now1 now2 ts)"
  let ?fin = "last_instant (ticks rs ?next)" and ?d = "(now1 - last_instant ts) div nanos_per_sec"
  have ord: "?i \<le> now1" "now1 \<le> now2" "in_order now2 rs" using Cons.prems(1) r by auto
  have inst: "last_instant ?next = now2" by (simp add: tick_def Let_def)
  have "now2 \<le> ?fin" using ticks_last_instant_ge [of ?next rs] ord(3) inst by simp
  then have "now1 - ?i + (?fin - now2) \<le> ?fin - ?i" using ord by linarith
  then have "(now1 - ?i + (?fin - now2)) div nanos_per_sec \<le> (?fin - ?i) div nanos_per_sec"
    by (rule div_le_mono)
  then have sum: "?d + (?fin - now2) div nanos_per_sec \<le> (?fin - ?i) div nanos_per_sec"
    using div_add_le [of "now1 - ?i" nanos_per_sec "?fin - now2"] by linarith
  have "unat (last_unix ts) + (?fin - ?i) div nanos_per_sec < 2 ^ 64" using Cons.prems(2) r by simp
  then have "unat (last_unix ?next) = unat (last_unix ts) + ?d"
    using tick_unat [of ts now1 now2] sum by (simp add: tick_def Let_def)
  with Cons.IH [of ?next] ord(3) inst sum Cons.prems(2) r show ?case by simp
qed simp

theorem clock_monotone_and_never_ahead_witness:
  "unat (last_unix (ticks [(2500000000, 2600000000), (4000000000, 4000000000)]
      (monotonic_timestamp_new 100 0))) \<le> 104"
  using clock_monotone_and_never_ahead
    [of "monotonic_timestamp_new 100 0" "[(2500000000, 2600000000), (4000000000, 4000000000)]"]
  by (simp add: monotonic_timestamp_new_def tick_def nanos_per_sec_def)

text \<open>
  The readings of a loop whose every iteration takes one nanosecond less than two seconds.
\<close>

definition slow_readings :: "nat \<Rightarrow> nat \<Rightarrow> (nat \<times> nat) list" where
  "slow_readings start n =
     map (\<lambda>k. (start + Suc k * 1999999999, start + Suc k * 1999999999)) [0..<n]"

lemma slow_readings_snoc:
  "slow_readings start (Suc n) =
     slow_readings start n @ [(start + Suc n * 1999999999, start + Suc n * 1999999999)]"
  by (simp add: slow_readings_def)

lemma ticks_append: "ticks (xs @ ys) ts = ticks ys (ticks xs ts)"
  by (induction xs ts rule: ticks.induct) auto

lemma slow_last_instant:
  "last_instant (ticks (slow_readings start n) (monotonic_timestamp_new unix start)) =
     start + n * 1999999999"
  by (cases n)
    (simp_all add: slow_readings_snoc ticks_append tick_def Let_def slow_readings_def
      monotonic_timestamp_new_def)

text \<open>
  C25: the health clock falls behind without bound. Each tick drops the fraction of a second since the
  last one, so when \<open>n\<close> ticks come 1.999999999 seconds apart, the synthetic time advances by \<open>n\<close>
  seconds while almost \<open>2 * n\<close> seconds elapse. Blocks then look younger than they are by up to \<open>n\<close>
  seconds.
\<close>

theorem clock_falls_behind:
  assumes "unat unix + n < 2 ^ 64"
  shows "unat (last_unix (ticks (slow_readings start n) (monotonic_timestamp_new unix start))) =
       unat unix + n \<and>
     last_instant (ticks (slow_readings start n) (monotonic_timestamp_new unix start)) - start =
       n * 1999999999"
  using assms
proof (induction n)
  case 0
  then show ?case by (simp add: slow_readings_def monotonic_timestamp_new_def)
next
  case (Suc n)
  let ?ts = "ticks (slow_readings start n) (monotonic_timestamp_new unix start)"
  let ?now = "start + Suc n * 1999999999"
  have li: "last_instant ?ts = start + n * 1999999999" by (rule slow_last_instant)
  then have "(?now - last_instant ?ts) div nanos_per_sec = 1" by (simp add: nanos_per_sec_def)
  moreover have "unat (last_unix ?ts) = unat unix + n" using Suc by simp
  ultimately have "unat (fst (tick ?now ?now ?ts)) = unat unix + Suc n"
    using tick_unat [of ?ts ?now ?now] Suc.prems by simp
  then show ?case
    using slow_last_instant [of start "Suc n" unix]
    by (simp add: slow_readings_snoc ticks_append tick_def Let_def)
qed

theorem clock_falls_behind_witness:
  "unat (last_unix (ticks (slow_readings 0 60) (monotonic_timestamp_new 1000 0))) = 1060 \<and>
   last_instant (ticks (slow_readings 0 60) (monotonic_timestamp_new 1000 0)) = 119999999940"
  using clock_falls_behind [of 1000 60 0] by simp

end
