(* ===== verification/Outbound.thy ===== *)
theory Outbound
  imports Samples
begin

text \<open>
  The flashblocks WebSocket publisher (\<^verbatim>\<open>flashblocks/outbound.rs\<close>): \<^verbatim>\<open>publish\<close> puts the
  serialised flashblock on a \<^verbatim>\<open>tokio\<close> broadcast channel; each connected client has a
  \<^verbatim>\<open>broadcast_loop\<close> that forwards the channel to its socket.

  The channel is modelled by its documented behaviour: the messages sent so far in order, and the
  number of live receivers; a send fails exactly when there is none. Serialisation
  (\<^verbatim>\<open>serde_json::to_string\<close>) is the parameter \<open>to_json\<close>.

  The second part has the listener and one \<^verbatim>\<open>broadcast_loop\<close> per client. A client's receiver is its position
  in the channel; the channel keeps the last \<open>cap\<close> messages (at least the 100 asked for, \<^verbatim>\<open>tokio\<close> may keep
  more), and a receiver that is further behind is told so once and continues with the oldest one kept.
  \<open>ob_step\<close> is every step of the publisher, the listener and the clients, in any interleaving.
\<close>

record publisher =
  pub_sent :: u64
  pub_subs :: u64
  pub_term :: bool
  pub_pipe :: "string list"
  pub_receivers :: nat

datatype publish_error = SerializeError string | ConnectionAborted

text \<open>
  \<^verbatim>\<open>WebSocketPublisher::new\<close> drops the channel's first receiver and hands a subscription to the
  listener loop, which keeps it for as long as it runs: one live receiver.
\<close>

definition publisher_new :: publisher where
  "publisher_new =
     \<lparr>pub_sent = 0, pub_subs = 0, pub_term = False, pub_pipe = [], pub_receivers = 1\<rparr>"

definition publish ::
  "(flashblocks_payload_v1 \<Rightarrow> string + string) \<Rightarrow> flashblocks_payload_v1 \<Rightarrow> publisher
     \<Rightarrow> (publish_error + unit) \<times> publisher" where
  "publish to_json payload p =
     (case to_json payload of
        Inl e \<Rightarrow> (Inl (SerializeError e), p)
      | Inr serialized \<Rightarrow>
          if pub_receivers p = 0 then (Inl ConnectionAborted, p)
          else (Inr (), p\<lparr>pub_pipe := pub_pipe p @ [serialized]\<rparr>))"

lemma publish_receivers [simp]: "pub_receivers (snd (publish to_json payload p)) = pub_receivers p"
  by (simp add: publish_def split: sum.splits)

lemma publish_term [simp]: "pub_term (snd (publish to_json payload p)) = pub_term p"
  by (simp add: publish_def split: sum.splits)

lemma publish_ok:
  "to_json payload = Inr str \<Longrightarrow> 0 < pub_receivers p \<Longrightarrow>
     publish to_json payload p = (Inr (), p\<lparr>pub_pipe := pub_pipe p @ [str]\<rparr>)"
  by (simp add: publish_def)

lemma publish_pipe:
  "pub_pipe (snd (publish to_json payload p)) =
     pub_pipe p @ (case to_json payload of
        Inl _ \<Rightarrow> [] | Inr str \<Rightarrow> if pub_receivers p = 0 then [] else [str])"
  by (simp add: publish_def split: sum.splits)

section \<open>The listener and the clients\<close>

text \<open>
  A client's \<open>obc_joined\<close> is the length of the channel when its receiver was made, \<open>obc_pos\<close> the receiver's
  position; what it received and whether it was ever told to have lagged behind are recorded. After a client's
  task has ended its position is of no more interest.
\<close>

record ob_client =
  obc_joined :: nat
  obc_pos :: nat
  obc_received :: "string list"
  obc_lagged :: bool
  obc_open :: bool

text \<open>
  The listener waits (\<^verbatim>\<open>select!\<close>), is in the middle of a websocket handshake with a receiver made at some
  position, or has returned.
\<close>

datatype listener = Waiting | Handshaking nat | Returned

record ob_state =
  ob_pub :: publisher
  ob_listener :: listener
  ob_clients :: "ob_client list"

definition ob_new :: ob_state where
  "ob_new = \<lparr>ob_pub = publisher_new, ob_listener = Waiting, ob_clients = []\<rparr>"

text \<open>What the \<^verbatim>\<open>select!\<close> of a \<^verbatim>\<open>broadcast_loop\<close> receives; \<open>Payload ok\<close> has the result of \<^verbatim>\<open>sink.send\<close>.\<close>

datatype loop_event =
    TermChanged
  | FrameOk
  | FrameError
  | StreamEnded
  | Payload bool

text \<open>The end of a client's task: its receiver is dropped and the subscription count goes down.\<close>

definition client_exit :: "publisher \<Rightarrow> ob_client \<Rightarrow> publisher \<times> ob_client" where
  "client_exit p c =
     (p\<lparr>pub_subs := pub_subs p - 1, pub_receivers := pub_receivers p - 1\<rparr>, c\<lparr>obc_open := False\<rparr>)"

text \<open>
  \<^verbatim>\<open>recv\<close> answers \<^verbatim>\<open>Lagged\<close> when the position is no longer kept, the next message when there is one,
  \<^verbatim>\<open>Closed\<close> when there is none and the publisher (the only sender) is gone, and otherwise keeps waiting.
\<close>

fun broadcast_step :: "nat \<Rightarrow> loop_event \<Rightarrow> publisher \<Rightarrow> ob_client \<Rightarrow> publisher \<times> ob_client" where
  "broadcast_step cap TermChanged p c = (if pub_term p then client_exit p c else (p, c))"
| "broadcast_step cap FrameOk p c = (p, c)"
| "broadcast_step cap FrameError p c = client_exit p c"
| "broadcast_step cap StreamEnded p c = client_exit p c"
| "broadcast_step cap (Payload sent_ok) p c =
     (if obc_pos c + cap < length (pub_pipe p)
      then (p, c\<lparr>obc_pos := length (pub_pipe p) - cap, obc_lagged := True\<rparr>)
      else if obc_pos c < length (pub_pipe p)
      then (let p1 = p\<lparr>pub_sent := pub_sent p + 1\<rparr> in
            if sent_ok
            then (p1, c\<lparr>obc_pos := obc_pos c + 1,
                        obc_received := obc_received c @ [pub_pipe p ! obc_pos c]\<rparr>)
            else client_exit p1 c)
      else if pub_term p then client_exit p c
      else (p, c))"

definition client_step :: "nat \<Rightarrow> nat \<Rightarrow> loop_event \<Rightarrow> ob_state \<Rightarrow> ob_state" where
  "client_step cap i e s =
     (if i < length (ob_clients s) \<and> obc_open (ob_clients s ! i) then
        (let (p, c) = broadcast_step cap e (ob_pub s) (ob_clients s ! i)
         in s\<lparr>ob_pub := p, ob_clients := (ob_clients s)[i := c]\<rparr>)
      else s)"

text \<open>The listener's \<^verbatim>\<open>accept\<close>: a receiver is made (\<^verbatim>\<open>resubscribe\<close>) before the handshake.\<close>

definition listener_accept :: "ob_state \<Rightarrow> ob_state" where
  "listener_accept s =
     (case ob_listener s of
        Waiting \<Rightarrow>
          (let p = ob_pub s in
           s\<lparr>ob_listener := Handshaking (length (pub_pipe p)),
             ob_pub := p\<lparr>pub_receivers := pub_receivers p + 1\<rparr>\<rparr>)
      | _ \<Rightarrow> s)"

text \<open>
  The handshake's result: a failed one drops the receiver; after a good one a client's task is spawned, which
  ends at once when the peer's address cannot be read.
\<close>

datatype handshake = HandshakeFailed | HandshakeOk bool

definition listener_handshake :: "handshake \<Rightarrow> ob_state \<Rightarrow> ob_state" where
  "listener_handshake h s =
     (case ob_listener s of
        Handshaking n \<Rightarrow>
          (let p = ob_pub s; s1 = s\<lparr>ob_listener := Waiting\<rparr> in
           case h of
             HandshakeFailed \<Rightarrow> s1\<lparr>ob_pub := p\<lparr>pub_receivers := pub_receivers p - 1\<rparr>\<rparr>
           | HandshakeOk peer_known \<Rightarrow>
               (let p1 = p\<lparr>pub_subs := pub_subs p + 1\<rparr>;
                    c = \<lparr>obc_joined = n, obc_pos = n, obc_received = [], obc_lagged = False, obc_open = True\<rparr>;
                    (p2, c2) = (if peer_known then (p1, c) else client_exit p1 c)
                in s1\<lparr>ob_pub := p2, ob_clients := ob_clients s @ [c2]\<rparr>))
      | _ \<Rightarrow> s)"

definition listener_term_changed :: "ob_state \<Rightarrow> ob_state" where
  "listener_term_changed s =
     (case ob_listener s of
        Waiting \<Rightarrow>
          (let p = ob_pub s in
           if pub_term p
           then s\<lparr>ob_listener := Returned, ob_pub := p\<lparr>pub_receivers := pub_receivers p - 1\<rparr>\<rparr> else s)
      | _ \<Rightarrow> s)"

text \<open>\<^verbatim>\<open>Drop for WebSocketPublisher\<close>.\<close>

definition publisher_drop :: "ob_state \<Rightarrow> ob_state" where
  "publisher_drop s = s\<lparr>ob_pub := (ob_pub s)\<lparr>pub_term := True\<rparr>\<rparr>"

inductive ob_step :: "nat \<Rightarrow> ob_state \<Rightarrow> ob_state \<Rightarrow> bool" for cap where
  ob_publish: "\<not> pub_term (ob_pub s) \<Longrightarrow>
     ob_step cap s (s\<lparr>ob_pub := snd (publish to_json payload (ob_pub s))\<rparr>)"
| ob_accept: "ob_step cap s (listener_accept s)"
| ob_handshake: "ob_step cap s (listener_handshake h s)"
| ob_listener: "ob_step cap s (listener_term_changed s)"
| ob_drop: "ob_step cap s (publisher_drop s)"
| ob_client: "ob_step cap s (client_step cap i e s)"

section \<open>Delivery\<close>

definition client_ok :: "string list \<Rightarrow> ob_client \<Rightarrow> bool" where
  "client_ok pipe c \<longleftrightarrow>
     obc_joined c \<le> obc_pos c \<and> obc_pos c \<le> length pipe \<and>
     subseq (obc_received c) (drop (obc_joined c) (take (obc_pos c) pipe)) \<and>
     (\<not> obc_lagged c \<longrightarrow> obc_received c = drop (obc_joined c) (take (obc_pos c) pipe))"

definition open_clients :: "ob_client list \<Rightarrow> nat" where
  "open_clients cs = length (filter obc_open cs)"

text \<open>How many receivers of the channel the listener holds: its own and the one of a handshake.\<close>

fun listener_receivers :: "listener \<Rightarrow> nat" where
  "listener_receivers Waiting = 1"
| "listener_receivers (Handshaking _) = 2"
| "listener_receivers Returned = 0"

definition ob_inv :: "ob_state \<Rightarrow> bool" where
  "ob_inv s \<longleftrightarrow>
     (\<forall>c \<in> set (ob_clients s). client_ok (pub_pipe (ob_pub s)) c) \<and>
     pub_subs (ob_pub s) = of_nat (open_clients (ob_clients s)) \<and>
     pub_receivers (ob_pub s) = open_clients (ob_clients s) + listener_receivers (ob_listener s) \<and>
     (ob_listener s = Returned \<longrightarrow> pub_term (ob_pub s)) \<and>
     (\<forall>n. ob_listener s = Handshaking n \<longrightarrow> n \<le> length (pub_pipe (ob_pub s)))"

lemma client_ok_append: "client_ok pipe c \<Longrightarrow> client_ok (pipe @ rest) c"
  by (auto simp: client_ok_def)

lemma client_ok_closed [simp]: "client_ok pipe (c\<lparr>obc_open := b\<rparr>) = client_ok pipe c"
  by (simp add: client_ok_def)

lemma client_ok_receive:
  assumes "client_ok pipe c" "obc_pos c < length pipe"
  shows "client_ok pipe (c\<lparr>obc_pos := obc_pos c + 1, obc_received := obc_received c @ [pipe ! obc_pos c]\<rparr>)"
proof -
  have "drop (obc_joined c) (take (Suc (obc_pos c)) pipe) =
      drop (obc_joined c) (take (obc_pos c) pipe) @ [pipe ! obc_pos c]"
    using assms by (simp add: take_Suc_conv_app_nth client_ok_def)
  with assms show ?thesis by (auto simp: client_ok_def)
qed

lemma client_ok_lag:
  assumes "client_ok pipe c" "obc_pos c + cap < length pipe"
  shows "client_ok pipe (c\<lparr>obc_pos := length pipe - cap, obc_lagged := True\<rparr>)"
proof -
  have "take (length pipe - cap) pipe =
      take (obc_pos c) pipe @ take (length pipe - cap - obc_pos c) (drop (obc_pos c) pipe)"
    using assms(2) take_add [of "obc_pos c" "length pipe - cap - obc_pos c" pipe] by simp
  with assms show ?thesis
    by (auto simp: client_ok_def intro: subseq_order.trans)
qed

lemma open_clients_update:
  assumes "i < length cs" "obc_open (cs ! i)"
  shows "open_clients (cs[i := c]) = (if obc_open c then open_clients cs else open_clients cs - 1)"
    and "0 < open_clients cs"
proof -
  have cs: "cs = take i cs @ cs ! i # drop (Suc i) cs"
    using assms(1) by (rule id_take_nth_drop)
  have upd: "cs[i := c] = take i cs @ c # drop (Suc i) cs"
    using assms(1) by (rule upd_conv_take_nth_drop)
  have n: "open_clients cs =
      Suc (length (filter obc_open (take i cs)) + length (filter obc_open (drop (Suc i) cs)))"
    unfolding open_clients_def by (subst cs) (use assms in simp)
  show "open_clients (cs[i := c]) = (if obc_open c then open_clients cs else open_clients cs - 1)"
    unfolding n by (simp add: open_clients_def upd)
  show "0 < open_clients cs" by (simp add: n)
qed

text \<open>What one step of a \<^verbatim>\<open>broadcast_loop\<close> does to the counters and to its client.\<close>

lemma broadcast_step_effect:
  assumes "client_ok (pub_pipe p) c" "obc_open c"
  shows "client_ok (pub_pipe p) (snd (broadcast_step cap e p c))"
    and "pub_pipe (fst (broadcast_step cap e p c)) = pub_pipe p"
    and "pub_term (fst (broadcast_step cap e p c)) = pub_term p"
    and "pub_subs (fst (broadcast_step cap e p c)) =
      (if obc_open (snd (broadcast_step cap e p c)) then pub_subs p else pub_subs p - 1)"
    and "pub_receivers (fst (broadcast_step cap e p c)) =
      (if obc_open (snd (broadcast_step cap e p c)) then pub_receivers p else pub_receivers p - 1)"
  using assms by (cases e; auto simp: client_exit_def Let_def client_ok_receive [simplified] client_ok_lag)+

lemma ob_inv_publish:
  "ob_inv s \<Longrightarrow> ob_inv (s\<lparr>ob_pub := snd (publish to_json payload (ob_pub s))\<rparr>)"
  by (auto simp: ob_inv_def publish_def client_ok_append split: sum.splits)

lemma ob_inv_accept: "ob_inv s \<Longrightarrow> ob_inv (listener_accept s)"
  by (auto simp: ob_inv_def listener_accept_def Let_def split: listener.splits)

lemma ob_inv_handshake: "ob_inv s \<Longrightarrow> ob_inv (listener_handshake h s)"
  by (auto simp: ob_inv_def listener_handshake_def client_exit_def open_clients_def client_ok_def Let_def
      split: listener.splits handshake.splits)

lemma ob_inv_term: "ob_inv s \<Longrightarrow> ob_inv (listener_term_changed s)"
  by (auto simp: ob_inv_def listener_term_changed_def Let_def split: listener.splits)

lemma ob_inv_drop: "ob_inv s \<Longrightarrow> ob_inv (publisher_drop s)"
  by (auto simp: ob_inv_def publisher_drop_def)

lemma ob_inv_client:
  assumes "ob_inv s"
  shows "ob_inv (client_step cap i e s)"
proof (cases "i < length (ob_clients s) \<and> obc_open (ob_clients s ! i)")
  case True
  let ?c = "ob_clients s ! i"
  obtain p c where pc: "broadcast_step cap e (ob_pub s) ?c = (p, c)" by (metis surj_pair)
  have ok: "client_ok (pub_pipe (ob_pub s)) ?c" and op: "obc_open ?c"
    using assms True by (auto simp: ob_inv_def)
  note eff = broadcast_step_effect [OF ok op, of cap e, unfolded pc fst_conv snd_conv]
  have step: "client_step cap i e s = s\<lparr>ob_pub := p, ob_clients := (ob_clients s)[i := c]\<rparr>"
    using True by (simp add: client_step_def pc)
  note cnt = open_clients_update [of i "ob_clients s", OF True [THEN conjunct1] op]
  have "(of_nat (open_clients (ob_clients s) - 1) :: u64) = of_nat (open_clients (ob_clients s)) - 1"
    using cnt(2) by simp
  then show ?thesis
    using assms eff cnt set_update_subset_insert [of "ob_clients s" i c]
    by (auto simp: ob_inv_def step)
qed (use assms in \<open>auto simp: client_step_def\<close>)

lemma ob_inv_step: "ob_step cap s t \<Longrightarrow> ob_inv s \<Longrightarrow> ob_inv t"
  by (induction rule: ob_step.induct)
    (simp_all only: ob_inv_publish ob_inv_accept ob_inv_handshake ob_inv_term ob_inv_drop ob_inv_client)

interpretation outbound: invariant_system "\<lambda>s. s = ob_new" "ob_step cap" ob_inv for cap
proof unfold_locales
  fix s assume "s = ob_new"
  then show "ob_inv s" by (simp add: ob_inv_def ob_new_def publisher_new_def open_clients_def)
qed (rule ob_inv_step)

text \<open>A client that is left alone with its channel reads it to the end.\<close>

lemma client_step_payload:
  assumes "i < length (ob_clients s)" "obc_open (ob_clients s ! i)"
    "obc_pos (ob_clients s ! i) < length (pub_pipe (ob_pub s))"
    "length (pub_pipe (ob_pub s)) \<le> obc_pos (ob_clients s ! i) + cap"
  shows "client_step cap i (Payload True) s =
     s\<lparr>ob_pub := (ob_pub s)\<lparr>pub_sent := pub_sent (ob_pub s) + 1\<rparr>,
       ob_clients := (ob_clients s)[i := (ob_clients s ! i)\<lparr>obc_pos := obc_pos (ob_clients s ! i) + 1,
         obc_received := obc_received (ob_clients s ! i) @
           [pub_pipe (ob_pub s) ! obc_pos (ob_clients s ! i)]\<rparr>]\<rparr>"
  using assms by (simp add: client_step_def)

lemma client_drains:
  assumes "i < length (ob_clients s)" "obc_open (ob_clients s ! i)"
    "length (pub_pipe (ob_pub s)) \<le> obc_pos (ob_clients s ! i) + cap"
    "length (pub_pipe (ob_pub s)) = obc_pos (ob_clients s ! i) + n"
  shows "obc_received (ob_clients ((client_step cap i (Payload True) ^^ n) s) ! i) =
     obc_received (ob_clients s ! i) @ drop (obc_pos (ob_clients s ! i)) (pub_pipe (ob_pub s))"
  using assms
proof (induction n arbitrary: s)
  case (Suc n)
  let ?t = "client_step cap i (Payload True) s"
  have step: "?t = s\<lparr>ob_pub := (ob_pub s)\<lparr>pub_sent := pub_sent (ob_pub s) + 1\<rparr>,
       ob_clients := (ob_clients s)[i := (ob_clients s ! i)\<lparr>obc_pos := obc_pos (ob_clients s ! i) + 1,
         obc_received := obc_received (ob_clients s ! i) @
           [pub_pipe (ob_pub s) ! obc_pos (ob_clients s ! i)]\<rparr>]\<rparr>"
    using Suc.prems by (intro client_step_payload) auto
  have "(client_step cap i (Payload True) ^^ Suc n) s = (client_step cap i (Payload True) ^^ n) ?t"
    by (simp only: funpow_Suc_right o_apply)
  moreover have "obc_received (ob_clients ((client_step cap i (Payload True) ^^ n) ?t) ! i) =
      obc_received (ob_clients ?t ! i) @ drop (obc_pos (ob_clients ?t ! i)) (pub_pipe (ob_pub ?t))"
    using Suc.prems by (intro Suc.IH) (simp_all add: step)
  ultimately show ?case
    using Suc.prems by (simp add: step Cons_nth_drop_Suc)
qed simp

text \<open>
  C26: In every reachable state of the publisher, its listener and its clients, whatever the interleaving: the
  subscription count is the number of open connections; until the publisher is dropped, publishing a flashblock
  that serialises succeeds, even with no client connected; what a client received is, in order, part of what was
  published since it connected, and exactly the messages up to its position when it was never told to have
  lagged; and a client at most \<open>cap\<close> messages behind that never lagged has, after as many
  receptions, every message published since it connected.
\<close>

theorem published_messages_are_delivered:
  assumes "reach (\<lambda>s. s = ob_new) (ob_step cap) s"
  shows "pub_subs (ob_pub s) = of_nat (open_clients (ob_clients s)) \<and>
     (\<forall>to_json payload str. \<not> pub_term (ob_pub s) \<longrightarrow> to_json payload = Inr str \<longrightarrow>
        fst (publish to_json payload (ob_pub s)) = Inr ()) \<and>
     (\<forall>c \<in> set (ob_clients s).
        subseq (obc_received c) (drop (obc_joined c) (pub_pipe (ob_pub s))) \<and>
        (\<not> obc_lagged c \<longrightarrow>
           obc_received c = drop (obc_joined c) (take (obc_pos c) (pub_pipe (ob_pub s))))) \<and>
     (\<forall>i < length (ob_clients s). \<forall>n.
        obc_open (ob_clients s ! i) \<longrightarrow> \<not> obc_lagged (ob_clients s ! i) \<longrightarrow>
        length (pub_pipe (ob_pub s)) = obc_pos (ob_clients s ! i) + n \<longrightarrow> n \<le> cap \<longrightarrow>
        obc_received (ob_clients ((client_step cap i (Payload True) ^^ n) s) ! i) =
          drop (obc_joined (ob_clients s ! i)) (pub_pipe (ob_pub s)))"
    (is "?subs \<and> ?publish \<and> ?order \<and> ?drain")
proof (intro conjI)
  have inv: "ob_inv s" using assms by (rule outbound.reach_inv)
  then show ?subs by (simp add: ob_inv_def)
  have "\<not> pub_term (ob_pub s) \<Longrightarrow> 0 < pub_receivers (ob_pub s)"
    using inv by (cases "ob_listener s") (auto simp: ob_inv_def)
  then show ?publish by (auto simp: publish_def)
  have ok: "client_ok (pub_pipe (ob_pub s)) c" if "c \<in> set (ob_clients s)" for c
    using that inv by (simp add: ob_inv_def)
  have "subseq (drop j (take k xs)) (drop j xs)" for j k and xs :: "string list"
    by (simp add: drop_take prefix_imp_subseq take_is_prefix)
  then show ?order
    using ok unfolding client_ok_def by (meson subseq_order.order_trans)
  show ?drain
  proof (intro allI impI)
    fix i n
    let ?c = "ob_clients s ! i" and ?pipe = "pub_pipe (ob_pub s)"
    assume i: "i < length (ob_clients s)" "obc_open ?c" "\<not> obc_lagged ?c"
      "length ?pipe = obc_pos ?c + n" "n \<le> cap"
    have c: "obc_received ?c = drop (obc_joined ?c) (take (obc_pos ?c) ?pipe)" "obc_joined ?c \<le> obc_pos ?c"
      using ok [of ?c] i by (auto simp: client_ok_def)
    have "obc_received (ob_clients ((client_step cap i (Payload True) ^^ n) s) ! i) =
        obc_received ?c @ drop (obc_pos ?c) ?pipe"
      using i by (intro client_drains) auto
    also have "\<dots> = drop (obc_joined ?c) (take (obc_pos ?c) ?pipe @ drop (obc_pos ?c) ?pipe)"
      using c i by (simp del: append_take_drop_id)
    finally show "obc_received (ob_clients ((client_step cap i (Payload True) ^^ n) s) ! i) =
        drop (obc_joined ?c) ?pipe" by simp
  qed
qed

definition sample_ob :: ob_state where
  "sample_ob = \<lparr>ob_pub = \<lparr>pub_sent = 0, pub_subs = 1, pub_term = False, pub_pipe = [''fb''], pub_receivers = 2\<rparr>,
     ob_listener = Waiting,
     ob_clients = [\<lparr>obc_joined = 0, obc_pos = 0, obc_received = [], obc_lagged = False, obc_open = True\<rparr>]\<rparr>"

lemma sample_ob_reach: "reach (\<lambda>s. s = ob_new) (ob_step 128) sample_ob"
proof -
  let ?pub = "\<lambda>s. s\<lparr>ob_pub := snd (publish (\<lambda>_. Inr ''fb'') (sample_fb 1 0 None []) (ob_pub s))\<rparr>"
  let ?s = "listener_handshake (HandshakeOk True) (listener_accept ob_new)"
  have "reach (\<lambda>s. s = ob_new) (ob_step 128) ?s"
    by (rule reach_step, rule reach_step, rule reach_init) (rule refl ob_accept ob_handshake)+
  then have "reach (\<lambda>s. s = ob_new) (ob_step 128) (?pub ?s)"
    by (rule reach_step) (rule ob_publish,
      simp add: ob_new_def publisher_new_def listener_accept_def listener_handshake_def)
  moreover have "?pub ?s = sample_ob"
    by (simp add: sample_ob_def ob_new_def publisher_new_def listener_accept_def listener_handshake_def publish_def)
  ultimately show ?thesis by simp
qed

theorem published_messages_are_delivered_witness:
  "pub_subs (ob_pub sample_ob) = 1 \<and>
   obc_received (ob_clients ((client_step 128 0 (Payload True) ^^ 1) sample_ob) ! 0) = [''fb'']"
  using published_messages_are_delivered [OF sample_ob_reach]
  by (auto simp: sample_ob_def open_clients_def)

end
