(* ===== verification/Flashblocks_Service.thy ===== *)
theory Flashblocks_Service
  imports Engine_Client Outbound Samples
begin

text \<open>
  The flashblocks service (\<^verbatim>\<open>flashblocks/service.rs\<close>): \<^verbatim>\<open>FlashblockBuilder\<close> accumulates the
  flashblocks of the block under construction, \<^verbatim>\<open>FlashblocksService\<close> feeds it, publishes each
  accepted flashblock, and implements \<^verbatim>\<open>EngineApiExt\<close> on top of the builder's \<^verbatim>\<open>RpcClient\<close>.

  The specification \<open>fb_spec\<close> keeps only the current payload id and the list of accepted
  flashblocks; \<open>refines\<close> relates it to the service, and the simulation lemmas show that every
  operation of the service is the specification's operation. The block that \<^verbatim>\<open>get_payload\<close> returns is
  then the specification's: the concatenation of the accepted flashblocks, all of which, and nothing
  else, were published.
\<close>

section \<open>FlashblockBuilder\<close>

datatype flashblocks_error =
    MissingBasePayload
  | UnexpectedBasePayload
  | MissingDelta
  | InvalidIndex
  | MissingPayload

record flashblock_builder =
  bld_base :: "execution_payload_base_v1 option"
  bld_flashblocks :: "execution_payload_flashblock_delta_v1 list"

definition flashblock_builder_new :: flashblock_builder where
  "flashblock_builder_new = \<lparr>bld_base = None, bld_flashblocks = []\<rparr>"

definition builder_extend ::
  "flashblocks_payload_v1 \<Rightarrow> flashblock_builder \<Rightarrow> (flashblocks_error + unit) \<times> flashblock_builder" where
  "builder_extend payload b =
     (if fb_index payload \<noteq> of_nat (length (bld_flashblocks b)) then (Inl InvalidIndex, b)
      else if fb_index payload = 0 then
        (case fb_base payload of
           Some base \<Rightarrow> (Inr (), \<lparr>bld_base = Some base,
                                bld_flashblocks = bld_flashblocks b @ [fb_diff payload]\<rparr>)
         | None \<Rightarrow> (Inl MissingBasePayload, b))
      else if fb_base payload \<noteq> None then (Inl UnexpectedBasePayload, b)
      else (Inr (), b\<lparr>bld_flashblocks := bld_flashblocks b @ [fb_diff payload]\<rparr>))"

definition execution_payload_of ::
  "execution_payload_base_v1 \<Rightarrow> execution_payload_flashblock_delta_v1 \<Rightarrow> bytes list
     \<Rightarrow> withdrawal list \<Rightarrow> execution_payload_v3" where
  "execution_payload_of base diff txs wds =
     \<lparr>v3_payload_inner =
        \<lparr>v2_payload_inner =
           \<lparr>p_parent_hash = base_parent_hash base,
            p_fee_recipient = base_fee_recipient base,
            p_state_root = diff_state_root diff,
            p_receipts_root = diff_receipts_root diff,
            p_logs_bloom = diff_logs_bloom diff,
            p_prev_randao = base_prev_randao base,
            p_block_number = base_block_number base,
            p_gas_limit = base_gas_limit base,
            p_gas_used = diff_gas_used diff,
            p_timestamp = base_timestamp base,
            p_extra_data = base_extra_data base,
            p_base_fee_per_gas = base_base_fee_per_gas base,
            p_block_hash = diff_block_hash diff,
            p_transactions = txs\<rparr>,
         v2_withdrawals = wds\<rparr>,
      v3_blob_gas_used = (case diff_blob_gas_used diff of Some g \<Rightarrow> g | None \<Rightarrow> 0),
      v3_excess_blob_gas = 0\<rparr>"

fun envelope_of ::
  "payload_version \<Rightarrow> execution_payload_base_v1 \<Rightarrow> b256 \<Rightarrow> execution_payload_v3
     \<Rightarrow> op_execution_payload_envelope" where
  "envelope_of PV3 base withdrawals_root execution_payload =
     EnvV3 \<lparr>e3_execution_payload = execution_payload,
            e3_block_value = 0,
            e3_blobs_bundle = blobs_bundle_default,
            e3_should_override_builder = False,
            e3_parent_beacon_block_root = base_parent_beacon_block_root base\<rparr>"
| "envelope_of PV4 base withdrawals_root execution_payload =
     EnvV4 \<lparr>e4_execution_payload =
              \<lparr>v4_payload_inner = execution_payload, v4_withdrawals_root = withdrawals_root\<rparr>,
            e4_block_value = 0,
            e4_blobs_bundle = blobs_bundle_default,
            e4_should_override_builder = False,
            e4_parent_beacon_block_root = base_parent_beacon_block_root base,
            e4_execution_requests = []\<rparr>"

definition build_envelope ::
  "payload_version \<Rightarrow> flashblock_builder \<Rightarrow> flashblocks_error + op_execution_payload_envelope" where
  "build_envelope version b =
     (case bld_base b of
        None \<Rightarrow> Inl MissingPayload
      | Some base \<Rightarrow>
          if bld_flashblocks b = [] then Inl MissingDelta
          else
            (let diff = last (bld_flashblocks b);
                 (txs, wds) = fold (\<lambda>delta (txs, wds).
                     (txs @ diff_transactions delta, wds @ diff_withdrawals delta))
                   (bld_flashblocks b) ([], [])
             in Inr (envelope_of version base (diff_withdrawals_root diff)
                       (execution_payload_of base diff txs wds))))"

definition into_envelope ::
  "payload_version \<Rightarrow> flashblock_builder \<Rightarrow> flashblocks_error + op_execution_payload_envelope" where
  "into_envelope version b = build_envelope version b"

section \<open>FlashblocksService\<close>

record flashblocks_service_metrics =
  fm_extend_payload_errors :: u64
  fm_current_payload_id_mismatch :: u64
  fm_messages_processed :: u64
  fm_flashblocks_gauge :: u64
  fm_flashblocks_counter :: u64
  fm_flashblocks_missing_histogram :: "u64 list"
  fm_flashblocks_missing_gauge :: u64
  fm_flashblocks_missing_counter :: u64

definition flashblocks_service_metrics_default :: flashblocks_service_metrics where
  "flashblocks_service_metrics_default =
     \<lparr>fm_extend_payload_errors = 0, fm_current_payload_id_mismatch = 0,
      fm_messages_processed = 0, fm_flashblocks_gauge = 0, fm_flashblocks_counter = 0,
      fm_flashblocks_missing_histogram = [], fm_flashblocks_missing_gauge = 0,
      fm_flashblocks_missing_counter = 0\<rparr>"

definition record_flashblocks ::
  "u64 \<Rightarrow> u64 \<Rightarrow> flashblocks_service_metrics \<Rightarrow> flashblocks_service_metrics" where
  "record_flashblocks flashblocks_count max_flashblocks m =
     (let reduced_flashblocks = saturating_sub max_flashblocks flashblocks_count in
      m\<lparr>fm_flashblocks_gauge := flashblocks_count,
        fm_flashblocks_counter := fm_flashblocks_counter m + flashblocks_count,
        fm_flashblocks_missing_histogram :=
          fm_flashblocks_missing_histogram m @ [reduced_flashblocks],
        fm_flashblocks_missing_gauge := reduced_flashblocks,
        fm_flashblocks_missing_counter := fm_flashblocks_missing_counter m + reduced_flashblocks\<rparr>)"

text \<open>
  \<open>fs_spawned\<close> holds the detached \<^verbatim>\<open>get_payload\<close> tasks that finalise block building in the
  builder; \<open>fs_client\<close> is the state behind the \<^verbatim>\<open>RpcClient\<close>.
\<close>

record 'w flashblocks_service =
  fs_client :: 'w
  fs_current_payload_id :: "payload_id option"
  fs_best_payload :: flashblock_builder
  fs_ws_pub :: publisher
  fs_metrics :: flashblocks_service_metrics
  fs_max_flashblocks :: u64
  fs_spawned :: "(payload_id \<times> payload_version) list"

definition flashblocks_service_new :: "'w \<Rightarrow> 'w flashblocks_service" where
  "flashblocks_service_new client =
     \<lparr>fs_client = client,
      fs_current_payload_id = None,
      fs_best_payload = flashblock_builder_new,
      fs_ws_pub = publisher_new,
      fs_metrics = flashblocks_service_metrics_default,
      fs_max_flashblocks = 0,
      fs_spawned = []\<rparr>"

definition get_best_payload ::
  "payload_version \<Rightarrow> payload_id \<Rightarrow> 'w flashblocks_service
     \<Rightarrow> (flashblocks_error + op_execution_payload_envelope) \<times> 'w flashblocks_service" where
  "get_best_payload version payload_id s =
     (if fs_current_payload_id s \<noteq> Some payload_id then (Inl MissingPayload, s)
      else
        (let builder = fs_best_payload s;
             flashblocks_number = of_nat (length (bld_flashblocks builder));
             max_flashblocks = max (fs_max_flashblocks s) flashblocks_number
         in (into_envelope version builder,
             s\<lparr>fs_max_flashblocks := max_flashblocks,
               fs_metrics := record_flashblocks flashblocks_number max_flashblocks (fs_metrics s),
               fs_best_payload := flashblock_builder_new\<rparr>)))"

definition set_current_payload_id ::
  "payload_id \<Rightarrow> 'w flashblocks_service \<Rightarrow> 'w flashblocks_service" where
  "set_current_payload_id payload_id s =
     s\<lparr>fs_current_payload_id := Some payload_id, fs_best_payload := flashblock_builder_new\<rparr>"

definition on_event ::
  "(flashblocks_payload_v1 \<Rightarrow> string + string) \<Rightarrow> flashblocks_payload_v1
     \<Rightarrow> 'w flashblocks_service \<Rightarrow> 'w flashblocks_service" where
  "on_event to_json payload s0 =
     (let m = fs_metrics s0;
          s = s0\<lparr>fs_metrics := m\<lparr>fm_messages_processed := fm_messages_processed m + 1\<rparr>\<rparr>
      in case fs_current_payload_id s of
           None \<Rightarrow> s
         | Some payload_id \<Rightarrow>
             if payload_id \<noteq> fb_payload_id payload
             then s\<lparr>fs_metrics := (fs_metrics s)
                      \<lparr>fm_current_payload_id_mismatch :=
                         fm_current_payload_id_mismatch (fs_metrics s) + 1\<rparr>\<rparr>
             else
               (case builder_extend payload (fs_best_payload s) of
                  (Inl e, b) \<Rightarrow>
                    s\<lparr>fs_best_payload := b,
                      fs_metrics := (fs_metrics s)
                        \<lparr>fm_extend_payload_errors := fm_extend_payload_errors (fs_metrics s) + 1\<rparr>\<rparr>
                | (Inr _, b) \<Rightarrow>
                    s\<lparr>fs_best_payload := b,
                      fs_ws_pub := snd (publish to_json payload (fs_ws_pub s))\<rparr>))"

text \<open>\<^verbatim>\<open>run\<close> handles the flashblocks of the inbound channel one by one until it is closed.\<close>

fun service_run ::
  "(flashblocks_payload_v1 \<Rightarrow> string + string) \<Rightarrow> flashblocks_payload_v1 list
     \<Rightarrow> 'w flashblocks_service \<Rightarrow> 'w flashblocks_service" where
  "service_run to_json [] s = s"
| "service_run to_json (p # ps) s = service_run to_json ps (on_event to_json p s)"

definition fb_fork_choice_updated_v3 ::
  "engine_lib \<Rightarrow> 'w transport \<Rightarrow> forkchoice_state \<Rightarrow> op_payload_attributes option
     \<Rightarrow> 'w flashblocks_service \<Rightarrow> forkchoice_updated client_result \<times> 'w flashblocks_service" where
  "fb_fork_choice_updated_v3 lib tr fcs attrs s =
     (let s1 = (case attrs of
           Some attr \<Rightarrow> set_current_payload_id
             (lib_payload_id_optimism lib (fcs_head_block_hash fcs) attr 3) s
         | None \<Rightarrow> s)
      in case rpc_fork_choice_updated_v3 lib tr fcs attrs (fs_client s1) of
           (Inl e, w) \<Rightarrow> (Inl e, s1\<lparr>fs_client := w\<rparr>)
         | (Inr resp, w) \<Rightarrow>
             (let s2 = s1\<lparr>fs_client := w\<rparr> in
              case fu_payload_id resp of
                Some payload_id \<Rightarrow>
                  if fs_current_payload_id s2 \<noteq> Some payload_id
                  then (Inr resp, set_current_payload_id payload_id s2)
                  else (Inr resp, s2)
              | None \<Rightarrow> (Inr resp, s2)))"

definition fb_new_payload ::
  "engine_lib \<Rightarrow> 'w transport \<Rightarrow> new_payload \<Rightarrow> 'w flashblocks_service
     \<Rightarrow> payload_status client_result \<times> 'w flashblocks_service" where
  "fb_new_payload lib tr np s =
     (let (r, w) = rpc_new_payload lib tr np (fs_client s) in (r, s\<lparr>fs_client := w\<rparr>))"

definition fb_get_payload ::
  "'w transport \<Rightarrow> payload_id \<Rightarrow> payload_version \<Rightarrow> 'w flashblocks_service
     \<Rightarrow> op_execution_payload_envelope client_result \<times> 'w flashblocks_service" where
  "fb_get_payload tr payload_id version s =
     (case get_best_payload version payload_id s of
        (Inr payload, s1) \<Rightarrow>
          (Inr payload, s1\<lparr>fs_spawned := fs_spawned s1 @ [(payload_id, version)]\<rparr>)
      | (Inl e, s1) \<Rightarrow>
          (let (r, w) = rpc_get_payload tr payload_id version (fs_client s1)
           in (r, s1\<lparr>fs_client := w\<rparr>)))"

definition fb_get_block_by_number ::
  "'w transport \<Rightarrow> block_number_or_tag \<Rightarrow> bool \<Rightarrow> 'w flashblocks_service
     \<Rightarrow> block client_result \<times> 'w flashblocks_service" where
  "fb_get_block_by_number tr number full s =
     (let (r, w) = rpc_get_block_by_number tr number full (fs_client s)
      in (r, s\<lparr>fs_client := w\<rparr>))"

text \<open>A detached finalising task runs: its answer is only logged.\<close>

fun fb_run_spawned :: "'w transport \<Rightarrow> 'w flashblocks_service \<Rightarrow> 'w flashblocks_service" where
  "fb_run_spawned tr s =
     (case fs_spawned s of
        [] \<Rightarrow> s
      | (payload_id, version) # rest \<Rightarrow>
          s\<lparr>fs_client := snd (rpc_get_payload tr payload_id version (fs_client s)),
            fs_spawned := rest\<rparr>)"

definition flashblocks_api :: "engine_lib \<Rightarrow> 'w transport \<Rightarrow> 'w flashblocks_service engine_api" where
  "flashblocks_api lib tr =
     \<lparr>ea_fork_choice_updated_v3 = fb_fork_choice_updated_v3 lib tr,
      ea_new_payload = fb_new_payload lib tr,
      ea_get_payload = fb_get_payload tr,
      ea_get_block_by_number = fb_get_block_by_number tr\<rparr>"


section \<open>The specification\<close>

record fb_spec =
  sp_current :: "payload_id option"
  sp_accepted :: "flashblocks_payload_v1 list"

definition sp_extends :: "flashblocks_payload_v1 \<Rightarrow> flashblocks_payload_v1 list \<Rightarrow> bool" where
  "sp_extends p acc \<longleftrightarrow>
     fb_index p = of_nat (length acc) \<and> (fb_index p = 0 \<longleftrightarrow> fb_base p \<noteq> None)"

definition sp_accepts :: "flashblocks_payload_v1 \<Rightarrow> fb_spec \<Rightarrow> bool" where
  "sp_accepts p sp \<longleftrightarrow> sp_current sp = Some (fb_payload_id p) \<and> sp_extends p (sp_accepted sp)"

definition sp_event :: "flashblocks_payload_v1 \<Rightarrow> fb_spec \<Rightarrow> fb_spec" where
  "sp_event p sp =
     (if sp_accepts p sp then sp\<lparr>sp_accepted := sp_accepted sp @ [p]\<rparr> else sp)"

definition sp_set :: "payload_id \<Rightarrow> fb_spec \<Rightarrow> fb_spec" where
  "sp_set pid sp = \<lparr>sp_current = Some pid, sp_accepted = []\<rparr>"

definition sp_take :: "payload_id \<Rightarrow> fb_spec \<Rightarrow> fb_spec" where
  "sp_take pid sp = (if sp_current sp = Some pid then sp\<lparr>sp_accepted := []\<rparr> else sp)"

fun sp_run :: "flashblocks_payload_v1 list \<Rightarrow> fb_spec \<Rightarrow> fb_spec" where
  "sp_run [] sp = sp"
| "sp_run (p # ps) sp = sp_run ps (sp_event p sp)"

text \<open>The base payload in force: that of the last accepted flashblock that carried one.\<close>

definition base_of :: "flashblocks_payload_v1 list \<Rightarrow> execution_payload_base_v1 option" where
  "base_of acc = fold (\<lambda>p b. if fb_base p \<noteq> None then fb_base p else b) acc None"

text \<open>The block the accepted flashblocks describe.\<close>

definition assemble ::
  "payload_version \<Rightarrow> execution_payload_base_v1 \<Rightarrow> flashblocks_payload_v1 list
     \<Rightarrow> op_execution_payload_envelope" where
  "assemble version base acc =
     (let diff = fb_diff (last acc) in
      envelope_of version base (diff_withdrawals_root diff)
        (execution_payload_of base diff
           (concat (map (diff_transactions \<circ> fb_diff) acc))
           (concat (map (diff_withdrawals \<circ> fb_diff) acc))))"

definition builder_refines :: "flashblock_builder \<Rightarrow> flashblocks_payload_v1 list \<Rightarrow> bool" where
  "builder_refines b acc \<longleftrightarrow> bld_flashblocks b = map fb_diff acc \<and> bld_base b = base_of acc"

definition refines :: "'w flashblocks_service \<Rightarrow> fb_spec \<Rightarrow> bool" where
  "refines s sp \<longleftrightarrow>
     fs_current_payload_id s = sp_current sp \<and> builder_refines (fs_best_payload s) (sp_accepted sp)"

section \<open>The builder implements the specification\<close>

lemma base_of_snoc [simp]:
  "base_of (acc @ [p]) = (if fb_base p \<noteq> None then fb_base p else base_of acc)"
  by (simp add: base_of_def)

lemma base_of_Nil [simp]: "base_of [] = None"
  by (simp add: base_of_def)

lemma builder_refines_new [simp]: "builder_refines flashblock_builder_new []"
  by (simp add: builder_refines_def flashblock_builder_new_def)

lemma builder_extend_accepts:
  assumes "builder_refines b acc" "sp_extends p acc"
  obtains b' where "builder_extend p b = (Inr (), b')" "builder_refines b' (acc @ [p])"
proof (cases "fb_base p")
  case None
  with assms show thesis
    by (intro that [of "b\<lparr>bld_flashblocks := bld_flashblocks b @ [fb_diff p]\<rparr>"])
      (auto simp: builder_refines_def sp_extends_def builder_extend_def)
next
  case (Some base)
  with assms show thesis
    by (intro that [of "\<lparr>bld_base = Some base, bld_flashblocks = bld_flashblocks b @ [fb_diff p]\<rparr>"])
      (auto simp: builder_refines_def sp_extends_def builder_extend_def)
qed

lemma builder_extend_rejects:
  assumes "builder_refines b acc" "\<not> sp_extends p acc"
  obtains e where "builder_extend p b = (Inl e, b)"
proof -
  have "\<exists>e. builder_extend p b = (Inl e, b)"
    using assms by (cases "fb_base p") (auto simp: builder_refines_def sp_extends_def builder_extend_def)
  with that show thesis by blast
qed

lemma transactions_envelope_of [payload_simps]:
  "transactions (envelope_of v base wr (execution_payload_of base' diff txs wds)) = txs"
  by (cases v) (simp_all add: execution_payload_of_def)

lemma gas_used_envelope_of [payload_simps]:
  "gas_used (envelope_of v base wr (execution_payload_of base' diff txs wds)) = diff_gas_used diff"
  by (cases v) (simp_all add: execution_payload_of_def)

lemma envelope_version_envelope_of [simp]: "envelope_version (envelope_of v base wr p) = v"
  by (cases v) simp_all

lemma build_envelope_refines:
  assumes "builder_refines b acc"
  shows "build_envelope v b =
    (case base_of acc of
       None \<Rightarrow> Inl MissingPayload
     | Some base \<Rightarrow> if acc = [] then Inl MissingDelta else Inr (assemble v base acc))"
  using assms fold_pair_append [of diff_transactions diff_withdrawals "map fb_diff acc" "[]" "[]"]
  by (auto simp: builder_refines_def build_envelope_def assemble_def Let_def last_map comp_def
      split: option.splits)

text \<open>The builder's own invariant: a base is present exactly when there are flashblocks.\<close>

definition builder_wf :: "flashblock_builder \<Rightarrow> bool" where
  "builder_wf b \<longleftrightarrow> (bld_base b = None \<longleftrightarrow> bld_flashblocks b = [])"

lemma builder_wf_new [simp]: "builder_wf flashblock_builder_new"
  by (simp add: builder_wf_def flashblock_builder_new_def)

lemma builder_wf_extend: "builder_wf b \<Longrightarrow> builder_wf (snd (builder_extend p b))"
  by (auto simp: builder_wf_def builder_extend_def split: option.splits)

lemma build_envelope_wf:
  "builder_wf b \<Longrightarrow> build_envelope v b = Inl e \<longleftrightarrow> bld_flashblocks b = [] \<and> e = MissingPayload"
  by (auto simp: builder_wf_def build_envelope_def Let_def split: option.splits prod.splits)

lemma builder_extend_Inl_unchanged: "builder_extend p b = (Inl e, b') \<Longrightarrow> b' = b"
  by (auto simp: builder_extend_def split: if_splits option.splits)

lemma build_envelope_version: "build_envelope v b = Inr e \<Longrightarrow> envelope_version e = v"
  by (auto simp: build_envelope_def Let_def split: option.splits if_splits prod.splits)

section \<open>The service implements the specification\<close>

lemma refines_new: "refines (flashblocks_service_new w) \<lparr>sp_current = None, sp_accepted = []\<rparr>"
  by (simp add: refines_def flashblocks_service_new_def)

lemma refines_set: "refines (set_current_payload_id pid s) (sp_set pid sp)"
  by (simp add: refines_def set_current_payload_id_def sp_set_def)

lemma on_event_refines:
  assumes "refines s sp"
  shows "refines (on_event to_json p s) (sp_event p sp)"
proof -
  have b: "builder_refines (fs_best_payload s) (sp_accepted sp)"
    and cur: "fs_current_payload_id s = sp_current sp"
    using assms by (auto simp: refines_def)
  show ?thesis
  proof (cases "sp_extends p (sp_accepted sp)")
    case True
    with b obtain b' where "builder_extend p (fs_best_payload s) = (Inr (), b')"
      "builder_refines b' (sp_accepted sp @ [p])" by (rule builder_extend_accepts)
    with b cur True show ?thesis
      by (auto simp: refines_def on_event_def sp_event_def sp_accepts_def Let_def
          split: option.splits)
  next
    case False
    with b obtain e where "builder_extend p (fs_best_payload s) = (Inl e, fs_best_payload s)"
      by (rule builder_extend_rejects)
    with b cur False show ?thesis
      by (auto simp: refines_def on_event_def sp_event_def sp_accepts_def Let_def
          split: option.splits)
  qed
qed

lemma service_run_refines:
  "refines s sp \<Longrightarrow> refines (service_run to_json ps s) (sp_run ps sp)"
  by (induction ps arbitrary: s sp) (auto intro: on_event_refines)

lemma get_best_payload_refines:
  "refines s sp \<Longrightarrow> refines (snd (get_best_payload v pid s)) (sp_take pid sp)"
  by (auto simp: refines_def get_best_payload_def sp_take_def Let_def)

lemma on_event_pipe:
  assumes "refines s sp"
  shows "fs_ws_pub (on_event to_json p s) =
    (if sp_accepts p sp then snd (publish to_json p (fs_ws_pub s)) else fs_ws_pub s)"
proof (cases "sp_extends p (sp_accepted sp)")
  case True
  then obtain b' where "builder_extend p (fs_best_payload s) = (Inr (), b')"
    using assms builder_extend_accepts unfolding refines_def by blast
  with True assms show ?thesis
    by (auto simp: refines_def on_event_def sp_accepts_def Let_def split: option.splits)
next
  case False
  then obtain e where "builder_extend p (fs_best_payload s) = (Inl e, fs_best_payload s)"
    using assms builder_extend_rejects unfolding refines_def by blast
  with False assms show ?thesis
    by (auto simp: refines_def on_event_def sp_accepts_def Let_def split: option.splits)
qed

lemma sp_run_current [simp]: "sp_current (sp_run ps sp) = sp_current sp"
  by (induction ps arbitrary: sp) (auto simp: sp_event_def)

text \<open>The accepted flashblocks grow by a subsequence of the received ones.\<close>

lemma sp_run_accepted:
  obtains new where "sp_accepted (sp_run ps sp) = sp_accepted sp @ new" "subseq new ps"
    "\<forall>p \<in> set new. sp_current sp = Some (fb_payload_id p)"
proof -
  have "\<exists>new. sp_accepted (sp_run ps sp) = sp_accepted sp @ new \<and> subseq new ps \<and>
          (\<forall>p \<in> set new. sp_current sp = Some (fb_payload_id p))"
  proof (induction ps arbitrary: sp)
    case (Cons p ps)
    obtain new where new: "sp_accepted (sp_run ps (sp_event p sp)) = sp_accepted (sp_event p sp) @ new"
      "subseq new ps" "\<forall>q \<in> set new. sp_current sp = Some (fb_payload_id q)"
      using Cons [of "sp_event p sp"] by (auto simp: sp_event_def split: if_splits)
    show ?case
    proof (cases "sp_accepts p sp")
      case True
      with new show ?thesis
        by (intro exI [of _ "p # new"]) (auto simp: sp_event_def sp_accepts_def)
    next
      case False
      with new show ?thesis
        by (intro exI [of _ new]) (auto simp: sp_event_def)
    qed
  qed simp
  with that show thesis by blast
qed

lemma service_run_pipe:
  assumes "refines s sp" and "\<And>p. to_json p = Inr (enc p)" and "0 < pub_receivers (fs_ws_pub s)"
    and "sp_accepted (sp_run ps sp) = sp_accepted sp @ new"
  shows "pub_pipe (fs_ws_pub (service_run to_json ps s)) = pub_pipe (fs_ws_pub s) @ map enc new"
  using assms(1,3,4)
proof (induction ps arbitrary: s sp new)
  case (Cons p ps)
  have r: "refines (on_event to_json p s) (sp_event p sp)"
    using Cons.prems(1) by (rule on_event_refines)
  obtain rest where rest: "sp_accepted (sp_run ps (sp_event p sp)) = sp_accepted (sp_event p sp) @ rest"
    using sp_run_accepted [of ps "sp_event p sp"] by metis
  have "0 < pub_receivers (fs_ws_pub (on_event to_json p s))"
    using Cons.prems(2) by (simp add: on_event_pipe [OF Cons.prems(1)])
  with Cons.IH [OF r _ rest] have
    "pub_pipe (fs_ws_pub (service_run to_json (p # ps) s)) =
       pub_pipe (fs_ws_pub (on_event to_json p s)) @ map enc rest" by simp
  also have "\<dots> = pub_pipe (fs_ws_pub s) @ map enc new"
    using rest Cons.prems(2,3)
    by (auto simp: on_event_pipe [OF Cons.prems(1)] sp_event_def publish_pipe assms(2))
  finally show ?case .
qed simp

section \<open>The service as an Engine API client\<close>

lemma fb_get_payload_version:
  "fb_get_payload tr pid v s = (Inr e, s') \<Longrightarrow> envelope_version e = v"
  by (auto simp: fb_get_payload_def get_best_payload_def into_envelope_def Let_def
      dest: build_envelope_version rpc_get_payload_version split: prod.splits sum.splits if_splits)

lemma fb_new_payload_not_invalid:
  "fb_new_payload lib tr np s = (Inr st, s') \<Longrightarrow> \<not> lib_is_invalid lib (ps_status st)"
  by (auto simp: fb_new_payload_def dest: rpc_new_payload_not_invalid split: prod.splits)

lemma fb_fork_choice_not_invalid:
  "fb_fork_choice_updated_v3 lib tr fcs attrs s = (Inr r, s') \<Longrightarrow>
     \<not> lib_is_invalid lib (ps_status (fu_payload_status r))"
  by (auto simp: fb_fork_choice_updated_v3_def Let_def dest!: rpc_fork_choice_not_invalid
      split: prod.splits sum.splits option.splits if_splits)

interpretation fbs: engine_api_ext lib "flashblocks_api lib tr" for lib tr
  by unfold_locales
    (auto simp: flashblocks_api_def
      dest: fb_get_payload_version fb_new_payload_not_invalid fb_fork_choice_not_invalid)


section \<open>Properties\<close>

lemma builder_wf_on_event: "builder_wf (fs_best_payload s) \<Longrightarrow> builder_wf (fs_best_payload (on_event j p s))"
  using builder_wf_extend [of "fs_best_payload s" p]
  by (auto simp: on_event_def Let_def split: option.splits prod.splits sum.splits)

lemma builder_wf_service_run:
  "builder_wf (fs_best_payload s) \<Longrightarrow> builder_wf (fs_best_payload (service_run j ps s))"
  by (induction ps arbitrary: s) (auto intro: builder_wf_on_event)

lemma builder_wf_base_of:
  "builder_wf b \<Longrightarrow> builder_refines b acc \<Longrightarrow> base_of acc = None \<longleftrightarrow> acc = []"
  by (auto simp: builder_wf_def builder_refines_def)

lemma sp_run_contiguous:
  assumes "\<forall>i < length (sp_accepted sp). fb_index (sp_accepted sp ! i) = of_nat i"
  shows "\<forall>i < length (sp_accepted (sp_run ps sp)). fb_index (sp_accepted (sp_run ps sp) ! i) = of_nat i"
  using assms
proof (induction ps arbitrary: sp)
  case (Cons p ps)
  then have "\<forall>i < length (sp_accepted (sp_event p sp)). fb_index (sp_accepted (sp_event p sp) ! i) = of_nat i"
    by (auto simp: sp_event_def sp_accepts_def sp_extends_def nth_append less_Suc_eq)
  then show ?case by (simp add: Cons.IH)
qed simp

lemma transactions_assemble [payload_simps]:
  "transactions (assemble v base acc) = concat (map (diff_transactions \<circ> fb_diff) acc)"
  by (simp add: assemble_def Let_def payload_simps)

lemma get_best_payload_result:
  assumes "refines s sp" "sp_current sp = Some pid" "builder_wf (fs_best_payload s)"
  shows "fst (get_best_payload v pid s) =
    (case base_of (sp_accepted sp) of
       None \<Rightarrow> Inl MissingPayload
     | Some base \<Rightarrow> Inr (assemble v base (sp_accepted sp)))"
  using assms build_envelope_refines [of "fs_best_payload s" "sp_accepted sp" v]
    builder_wf_base_of [of "fs_best_payload s" "sp_accepted sp"]
  by (auto simp: refines_def get_best_payload_def into_envelope_def Let_def split: option.splits)

interpretation bld: invariant_system
  "\<lambda>b. b = flashblock_builder_new"
  "\<lambda>b b'. \<exists>p. b' = snd (builder_extend p b)"
  builder_wf
  by unfold_locales (auto intro: builder_wf_extend)

text \<open>
  For every builder reachable from a fresh one by extending it with any flashblocks, building
  the envelope fails exactly when no flashblock was accepted, and then with \<^verbatim>\<open>MissingPayload\<close>; the
  error \<^verbatim>\<open>MissingDelta\<close> cannot occur.
\<close>

theorem build_envelope_reachable:
  assumes "reach (\<lambda>b. b = flashblock_builder_new) (\<lambda>b b'. \<exists>p. b' = snd (builder_extend p b)) b"
  shows "build_envelope v b = Inl e \<longleftrightarrow> bld_flashblocks b = [] \<and> e = MissingPayload"
  using bld.reach_inv [OF assms] by (rule build_envelope_wf)

theorem build_envelope_reachable_witness:
  "build_envelope PV3 flashblock_builder_new = Inl MissingPayload"
  using build_envelope_reachable [of flashblock_builder_new PV3 MissingPayload, OF reach_init]
  by (simp add: flashblock_builder_new_def)

text \<open>
  Pre-confirmations match the block. After an FCU has set the current payload id, whatever
  flashblocks arrive, the service publishes exactly the flashblocks it accepts, in order: a
  subsequence of the received ones, all for the current payload id, numbered 0, 1, 2 and so on.
  If there is at least one, the block \<^verbatim>\<open>get_best_payload\<close> returns for that id holds exactly the
  transactions of the published flashblocks, in the same order.
\<close>

theorem published_flashblocks_are_the_block:
  assumes "\<And>p. to_json p = Inr (enc p)" and "0 < pub_receivers (fs_ws_pub s)"
  shows "\<exists>acc. subseq acc ps \<and> (\<forall>p \<in> set acc. fb_payload_id p = pid) \<and>
     (\<forall>i < length acc. fb_index (acc ! i) = of_nat i) \<and>
     pub_pipe (fs_ws_pub (service_run to_json ps (set_current_payload_id pid s))) =
       pub_pipe (fs_ws_pub s) @ map enc acc \<and>
     (acc \<noteq> [] \<longrightarrow>
       (\<exists>e. fst (get_best_payload v pid (service_run to_json ps (set_current_payload_id pid s))) = Inr e
          \<and> transactions e = concat (map (diff_transactions \<circ> fb_diff) acc)))"
proof -
  let ?init = "set_current_payload_id pid s" and ?spinit = "\<lparr>sp_current = Some pid, sp_accepted = []\<rparr>"
  let ?s = "service_run to_json ps ?init" and ?sp = "sp_run ps ?spinit"
  have r0: "refines ?init ?spinit" using refines_set [of pid s ?spinit] by (simp add: sp_set_def)
  then have r: "refines ?s ?sp" by (rule service_run_refines)
  obtain acc where acc: "sp_accepted ?sp = acc" "subseq acc ps"
    "\<forall>p \<in> set acc. Some pid = Some (fb_payload_id p)"
    using sp_run_accepted [of ps ?spinit] by auto
  have idx: "\<forall>i < length acc. fb_index (acc ! i) = of_nat i"
    using sp_run_contiguous [of ?spinit ps] acc(1) by simp
  have rec: "0 < pub_receivers (fs_ws_pub ?init)" and pipe0: "pub_pipe (fs_ws_pub ?init) = pub_pipe (fs_ws_pub s)"
    using assms(2) by (simp_all add: set_current_payload_id_def)
  have pipe: "pub_pipe (fs_ws_pub ?s) = pub_pipe (fs_ws_pub s) @ map enc acc"
    using service_run_pipe [OF r0 assms(1) rec, of ps acc] acc(1) pipe0 by simp
  have wf: "builder_wf (fs_best_payload ?s)"
    by (rule builder_wf_service_run) (simp add: set_current_payload_id_def)
  have "acc \<noteq> [] \<Longrightarrow> \<exists>e. fst (get_best_payload v pid ?s) = Inr e
          \<and> transactions e = concat (map (diff_transactions \<circ> fb_diff) acc)"
    using get_best_payload_result [OF r _ wf, of pid v] builder_wf_base_of [OF wf, of acc] r acc(1)
    by (auto simp: refines_def payload_simps split: option.splits)
  with acc idx pipe show ?thesis by (intro exI [of _ acc]) auto
qed

definition sample_service :: "unit flashblocks_service" where
  "sample_service = flashblocks_service_new ()"

theorem published_flashblocks_are_the_block_witness:
  "\<exists>acc. subseq acc [sample_fb 1 0 (Some sample_base) [[1]], sample_fb 2 1 None [[5]],
                     sample_fb 1 1 None [[2], [3]]] \<and>
     (\<forall>p \<in> set acc. fb_payload_id p = 1) \<and>
     pub_pipe (fs_ws_pub (service_run (\<lambda>p. Inr ''fb'')
        [sample_fb 1 0 (Some sample_base) [[1]], sample_fb 2 1 None [[5]], sample_fb 1 1 None [[2], [3]]]
        (set_current_payload_id 1 sample_service))) = map (\<lambda>_. ''fb'') acc"
proof -
  have "0 < pub_receivers (fs_ws_pub sample_service)"
    by (simp add: sample_service_def flashblocks_service_new_def publisher_new_def)
  moreover have "pub_pipe (fs_ws_pub sample_service) = []"
    by (simp add: sample_service_def flashblocks_service_new_def publisher_new_def)
  ultimately show ?thesis
    using published_flashblocks_are_the_block
      [of "\<lambda>_. Inr ''fb''" "\<lambda>_. ''fb''" sample_service
          "[sample_fb 1 0 (Some sample_base) [[1]], sample_fb 2 1 None [[5]], sample_fb 1 1 None [[2], [3]]]"
          1 PV3]
    by (metis (no_types, lifting) append_Nil)
qed

text \<open>
  C11: the service implements its specification. From related states, a flashblock, a new payload id
  and the taking of the block lead to related states again, and the block that is taken is the one
  the specification assembles from the accepted flashblocks, or \<^verbatim>\<open>MissingPayload\<close> if the id is not
  the current one or nothing was accepted.
\<close>

theorem service_refines_spec:
  assumes "refines s sp" and "builder_wf (fs_best_payload s)"
  shows "refines (on_event to_json p s) (sp_event p sp) \<and>
    refines (set_current_payload_id pid s) (sp_set pid sp) \<and>
    refines (snd (get_best_payload v pid s)) (sp_take pid sp) \<and>
    fst (get_best_payload v pid s) =
      (if sp_current sp \<noteq> Some pid then Inl MissingPayload
       else case base_of (sp_accepted sp) of
              None \<Rightarrow> Inl MissingPayload
            | Some base \<Rightarrow> Inr (assemble v base (sp_accepted sp)))"
proof -
  have "fst (get_best_payload v pid s) = Inl MissingPayload" if "sp_current sp \<noteq> Some pid"
    using that assms(1) by (simp add: get_best_payload_def refines_def)
  then show ?thesis
    using on_event_refines [OF assms(1)] refines_set [of pid s sp]
      get_best_payload_refines [OF assms(1)] get_best_payload_result [OF assms(1) _ assms(2)]
    by simp
qed

theorem service_refines_spec_witness:
  "fst (get_best_payload PV3 1 sample_service) = Inl MissingPayload"
proof -
  have "refines sample_service \<lparr>sp_current = None, sp_accepted = []\<rparr>"
    by (simp add: sample_service_def refines_new)
  moreover have "builder_wf (fs_best_payload sample_service)"
    by (simp add: sample_service_def flashblocks_service_new_def)
  ultimately show ?thesis
    using service_refines_spec [of sample_service "\<lparr>sp_current = None, sp_accepted = []\<rparr>" _ _ 1 PV3]
    by simp
qed

lemma build_envelope_new [simp]: "build_envelope v flashblock_builder_new = Inl MissingPayload"
  by (simp add: build_envelope_def flashblock_builder_new_def)

text \<open>
  The local block is served at most once. The service answers \<^verbatim>\<open>get_payload\<close> from its own
  flashblocks only if the id is the current one and flashblocks were accepted, and then queues the
  request that finalises the block in the builder. Asked again with no flashblock in between, it
  passes the builder's own answer through.
\<close>

theorem local_block_served_once:
  "fst (fb_get_payload tr pid v (snd (fb_get_payload tr pid v s))) =
     fst (rpc_get_payload tr pid v (fs_client (snd (fb_get_payload tr pid v s)))) \<and>
   (case get_best_payload v pid s of
      (Inr e, _) \<Rightarrow> fst (fb_get_payload tr pid v s) = Inr e \<and>
        fs_current_payload_id s = Some pid \<and> bld_flashblocks (fs_best_payload s) \<noteq> [] \<and>
        fs_client (snd (fb_get_payload tr pid v s)) = fs_client s \<and>
        fs_spawned (snd (fb_get_payload tr pid v s)) = fs_spawned s @ [(pid, v)]
    | (Inl _, _) \<Rightarrow> fst (fb_get_payload tr pid v s) = fst (rpc_get_payload tr pid v (fs_client s)) \<and>
        fs_spawned (snd (fb_get_payload tr pid v s)) = fs_spawned s)"
proof -
  have "fst (fb_get_payload tr pid v (snd (fb_get_payload tr pid v s))) =
     fst (rpc_get_payload tr pid v (fs_client (snd (fb_get_payload tr pid v s))))"
    by (cases "fs_current_payload_id s = Some pid")
      (auto simp: fb_get_payload_def get_best_payload_def into_envelope_def Let_def
        split: prod.splits sum.splits)
  moreover have "bld_flashblocks b \<noteq> []" if "build_envelope v b = Inr e" for b e
    using that by (auto simp: build_envelope_def split: option.splits if_splits)
  ultimately show ?thesis
    by (auto simp: fb_get_payload_def get_best_payload_def into_envelope_def Let_def
        split: prod.splits sum.splits if_splits)
qed

text \<open>
  No flashblock outlives its payload. After an FCU that the builder accepts with a payload id, that
  id is the current one; unless it was the current id already and the FCU carried no attributes, the
  accumulated flashblocks are gone, so that the next block starts from nothing.
\<close>

theorem fcu_starts_a_fresh_block:
  assumes "fb_fork_choice_updated_v3 lib tr fcs attrs s = (Inr r, t)" and "fu_payload_id r = Some pid"
  shows "fs_current_payload_id t = Some pid \<and>
    (attrs = None \<and> fs_current_payload_id s = Some pid \<or> fs_best_payload t = flashblock_builder_new)"
  using assms
  by (auto simp: fb_fork_choice_updated_v3_def set_current_payload_id_def Let_def
      split: option.splits prod.splits sum.splits if_splits)

theorem fcu_starts_a_fresh_block_witness:
  "fs_current_payload_id (snd (fb_fork_choice_updated_v3 sample_lib
     (sample_transport (Inr (sample_fcu (Some 5))) (Inl (JsOther ''x'')) (Inl (JsOther ''x''))
        (Inl (JsOther ''x''))) sample_fcs (Some (sample_attrs None)) sample_service)) = Some 5"
proof -
  let ?r = "fb_fork_choice_updated_v3 sample_lib
     (sample_transport (Inr (sample_fcu (Some 5))) (Inl (JsOther ''x'')) (Inl (JsOther ''x''))
        (Inl (JsOther ''x''))) sample_fcs (Some (sample_attrs None)) sample_service"
  have "fst ?r = Inr (sample_fcu (Some 5))"
    by (simp add: fb_fork_choice_updated_v3_def Let_def client_simps sample_defs)
  then have "?r = (Inr (sample_fcu (Some 5)), snd ?r)" by (metis prod.collapse)
  from fcu_starts_a_fresh_block [OF this, of 5] show ?thesis by (simp add: sample_fcu_def)
qed

end
