(* ===== verification/Server.thy ===== *)
theory Server
  imports Selection Health Flashblocks_Service
begin

text \<open>
  \<^verbatim>\<open>RollupBoostServer\<close> (\<^verbatim>\<open>server.rs\<close>): the Engine API handlers that multiplex between the L2
  execution client and the builder.

  The server record holds the fields of the struct; \<open>rb_l2_client\<close> and \<open>rb_builder_client\<close> are the
  states behind the two clients, \<open>rb_spawned\<close> the detached tasks that \<^verbatim>\<open>tokio::spawn\<close> has queued and
  \<open>rb_blocks_created\<close> the \<^verbatim>\<open>rpc.blocks_created\<close> counter by source. The operations of the two clients, the
  cache policy and the current span id are the record \<open>engine_env\<close>.

  A handler returns its outcome with the new server: a response, an error object, or a panic
  (\<^verbatim>\<open>unwrap\<close> on a missing entry), after which the server keeps the state it had reached. The two
  futures of a \<^verbatim>\<open>tokio::join!\<close> are run one after the other, the L2 request first, as \<^verbatim>\<open>join!\<close> polls
  them; since the theorems hold for every behaviour of the clients, they cover every interleaving of
  the answers. The execution mode and the health probe are read where the code reads them.
\<close>

section \<open>State\<close>

datatype builder_task =
    SpawnNewPayload new_payload
  | SpawnForkChoiceUpdated forkchoice_state "op_payload_attributes option"

record builder_payload_result =
  bpr_payload :: "op_execution_payload_envelope option"
  bpr_builder_api_failed :: bool

datatype 'a rpc_outcome = RpcOk 'a | RpcErr error_object | RpcPanic

record ('l, 'b) rollup_boost_server =
  rb_l2_client :: 'l
  rb_builder_client :: 'b
  rb_payload_trace_context :: payload_trace_context
  rb_execution_mode :: execution_mode
  rb_block_selection_policy :: "block_selection_policy option"
  rb_external_state_root :: bool
  rb_ignore_unhealthy_builders :: bool
  rb_probes :: probes
  rb_payload_to_fcu_request :: "payload_id \<rightharpoonup> forkchoice_state \<times> op_payload_attributes option"
  rb_spawned :: "builder_task list"
  rb_blocks_created :: "payload_source \<Rightarrow> nat"

record ('l, 'b) engine_env =
  env_l2 :: "'l engine_api"
  env_builder :: "'b engine_api"
  env_cache :: cache_policy
  env_span :: "trace_id option"

definition rollup_boost_server_new ::
  "'l \<Rightarrow> 'b \<Rightarrow> execution_mode \<Rightarrow> block_selection_policy option \<Rightarrow> probes \<Rightarrow> bool \<Rightarrow> bool
     \<Rightarrow> ('l, 'b) rollup_boost_server" where
  "rollup_boost_server_new l2 builder mode policy probes external_state_root ignore_unhealthy =
     \<lparr>rb_l2_client = l2,
      rb_builder_client = builder,
      rb_payload_trace_context = payload_trace_context_new,
      rb_execution_mode = mode,
      rb_block_selection_policy = policy,
      rb_external_state_root = external_state_root,
      rb_ignore_unhealthy_builders = ignore_unhealthy,
      rb_probes = probes,
      rb_payload_to_fcu_request = Map.empty,
      rb_spawned = [],
      rb_blocks_created = (\<lambda>_. 0)\<rparr>"

definition rb_set_health ::
  "health \<Rightarrow> ('l, 'b) rollup_boost_server \<Rightarrow> ('l, 'b) rollup_boost_server" where
  "rb_set_health value s = s\<lparr>rb_probes := set_health value (rb_probes s)\<rparr>"

definition rb_spawn ::
  "builder_task \<Rightarrow> ('l, 'b) rollup_boost_server \<Rightarrow> ('l, 'b) rollup_boost_server" where
  "rb_spawn task s = s\<lparr>rb_spawned := rb_spawned s @ [task]\<rparr>"

definition rb_count_block ::
  "payload_source \<Rightarrow> ('l, 'b) rollup_boost_server \<Rightarrow> ('l, 'b) rollup_boost_server" where
  "rb_count_block src s =
     s\<lparr>rb_blocks_created := (rb_blocks_created s)(src := Suc (rb_blocks_created s src))\<rparr>"

definition set_execution_mode ::
  "execution_mode \<Rightarrow> ('l, 'b) rollup_boost_server \<Rightarrow> ('l, 'b) rollup_boost_server" where
  "set_execution_mode mode s = s\<lparr>rb_execution_mode := mode\<rparr>"

definition get_execution_mode :: "('l, 'b) rollup_boost_server \<Rightarrow> execution_mode" where
  "get_execution_mode s = rb_execution_mode s"

definition should_skip_unhealthy_builder :: "('l, 'b) rollup_boost_server \<Rightarrow> bool" where
  "should_skip_unhealthy_builder s \<longleftrightarrow>
     rb_ignore_unhealthy_builders s \<and> probes_health (rb_probes s) \<noteq> Healthy"

section \<open>newPayload\<close>

fun outcome_of :: "'a client_result \<Rightarrow> 'a rpc_outcome" where
  "outcome_of (Inl e) = RpcErr (error_object_from e)"
| "outcome_of (Inr a) = RpcOk a"

definition server_new_payload ::
  "('l, 'b) engine_env \<Rightarrow> new_payload \<Rightarrow> ('l, 'b) rollup_boost_server
     \<Rightarrow> payload_status rpc_outcome \<times> ('l, 'b) rollup_boost_server" where
  "server_new_payload env np s =
     (let parent_hash = ep_parent_hash (execution_payload_from_new_payload np);
          s1 = s\<lparr>rb_payload_trace_context :=
                   remove_by_parent_hash parent_hash (rb_payload_trace_context s)\<rparr>;
          s2 = (if \<not> is_disabled (rb_execution_mode s1) \<and> \<not> should_skip_unhealthy_builder s1
                then rb_spawn (SpawnNewPayload np) s1 else s1);
          (r, l) = ea_new_payload (env_l2 env) np (rb_l2_client s2)
      in (outcome_of r, s2\<lparr>rb_l2_client := l\<rparr>))"

section \<open>getPayload\<close>

text \<open>The attributes sent to the L2 client so that it recomputes the builder's block.\<close>

definition external_payload_attrs ::
  "op_payload_attributes option \<Rightarrow> op_execution_payload_envelope \<Rightarrow> op_payload_attributes" where
  "external_payload_attrs attrs builder_payload =
     (case attrs of
        Some attrs \<Rightarrow>
          \<lparr>opa_payload_attributes = opa_payload_attributes attrs,
           opa_transactions = Some (transactions builder_payload),
           opa_no_tx_pool = Some True,
           opa_gas_limit = opa_gas_limit attrs,
           opa_eip_1559_params = opa_eip_1559_params attrs,
           opa_min_base_fee = opa_min_base_fee attrs\<rparr>
      | None \<Rightarrow>
          \<lparr>opa_payload_attributes = envelope_payload_attributes builder_payload,
           opa_transactions = Some (transactions builder_payload),
           opa_no_tx_pool = Some True,
           opa_gas_limit = None,
           opa_eip_1559_params = None,
           opa_min_base_fee = None\<rparr>)"

definition calculate_external_state_root ::
  "('l, 'b) engine_env \<Rightarrow> op_execution_payload_envelope \<Rightarrow> payload_id \<Rightarrow> payload_version
     \<Rightarrow> ('l, 'b) rollup_boost_server
     \<Rightarrow> op_execution_payload_envelope option rpc_outcome \<times> ('l, 'b) rollup_boost_server" where
  "calculate_external_state_root env builder_payload payload_id version s =
     (case rb_payload_to_fcu_request s payload_id of
        None \<Rightarrow> (RpcPanic, s)
      | Some (fcs, attrs) \<Rightarrow>
          (let s1 = s\<lparr>rb_payload_to_fcu_request := (rb_payload_to_fcu_request s)(payload_id := None)\<rparr>;
               new_payload_attrs = external_payload_attrs attrs builder_payload
           in case ea_fork_choice_updated_v3 (env_l2 env) fcs (Some new_payload_attrs) (rb_l2_client s1) of
                (Inl e, l) \<Rightarrow> (RpcErr (error_object_from e), s1\<lparr>rb_l2_client := l\<rparr>)
              | (Inr l2_result, l) \<Rightarrow>
                  (case fu_payload_id l2_result of
                     None \<Rightarrow> (RpcOk None, s1\<lparr>rb_l2_client := l\<rparr>)
                   | Some new_payload_id \<Rightarrow>
                       (case ea_get_payload (env_l2 env) new_payload_id version l of
                          (Inr new_payload, l') \<Rightarrow> (RpcOk (Some new_payload), s1\<lparr>rb_l2_client := l'\<rparr>)
                        | (Inl e, l') \<Rightarrow> (RpcOk None, s1\<lparr>rb_l2_client := l'\<rparr>)))))"

definition builder_fut ::
  "('l, 'b) engine_env \<Rightarrow> payload_id \<Rightarrow> payload_version \<Rightarrow> ('l, 'b) rollup_boost_server
     \<Rightarrow> builder_payload_result rpc_outcome \<times> ('l, 'b) rollup_boost_server" where
  "builder_fut env payload_id version s =
     (if \<not> has_builder_payload (rb_payload_trace_context s) payload_id
      then (RpcOk \<lparr>bpr_payload = None, bpr_builder_api_failed = True\<rparr>, s)
      else
        (case ea_get_payload (env_builder env) payload_id version (rb_builder_client s) of
           (Inl e, b) \<Rightarrow>
             (RpcOk \<lparr>bpr_payload = None, bpr_builder_api_failed = True\<rparr>, s\<lparr>rb_builder_client := b\<rparr>)
         | (Inr payload, b) \<Rightarrow>
             (let s1 = s\<lparr>rb_builder_client := b\<rparr> in
              if \<not> rb_external_state_root s1 then
                (case ea_new_payload (env_l2 env) (new_payload_from_envelope payload) (rb_l2_client s1) of
                   (Inl e, l) \<Rightarrow> (RpcErr (error_object_from e), s1\<lparr>rb_l2_client := l\<rparr>)
                 | (Inr _, l) \<Rightarrow>
                     (RpcOk \<lparr>bpr_payload = Some payload, bpr_builder_api_failed = False\<rparr>,
                      s1\<lparr>rb_l2_client := l\<rparr>))
              else
                (case calculate_external_state_root env payload payload_id version s1 of
                   (RpcOk external_payload, s2) \<Rightarrow>
                     (RpcOk \<lparr>bpr_payload = external_payload, bpr_builder_api_failed = False\<rparr>, s2)
                 | (RpcErr e, s2) \<Rightarrow> (RpcErr e, s2)
                 | (RpcPanic, s2) \<Rightarrow> (RpcPanic, s2)))))"

definition choose_payload ::
  "op_execution_payload_envelope \<Rightarrow> op_execution_payload_envelope option \<Rightarrow> bool
     \<Rightarrow> ('l, 'b) rollup_boost_server
     \<Rightarrow> (op_execution_payload_envelope \<times> payload_source) \<times> ('l, 'b) rollup_boost_server" where
  "choose_payload l2_payload builder_payload builder_api_failed s =
     (case builder_payload of
        Some builder_payload \<Rightarrow>
          (if is_dry_run (rb_execution_mode s) then (l2_payload, L2)
           else (case rb_block_selection_policy s of
                   Some selection_policy \<Rightarrow> select_block selection_policy builder_payload l2_payload
                 | None \<Rightarrow> (builder_payload, Builder)), s)
      | None \<Rightarrow>
          ((l2_payload, L2),
           if is_enabled (rb_execution_mode s) \<and> builder_api_failed
           then rb_set_health PartialContent s else s))"

definition select_payload ::
  "op_execution_payload_envelope client_result \<Rightarrow> builder_payload_result rpc_outcome
     \<Rightarrow> ('l, 'b) rollup_boost_server
     \<Rightarrow> op_execution_payload_envelope rpc_outcome \<times> ('l, 'b) rollup_boost_server" where
  "select_payload l2_result builder_result s =
     (case l2_result of
        Inl e \<Rightarrow> (RpcErr (error_object_from e), rb_set_health ServiceUnavailable s)
      | Inr l2_payload \<Rightarrow>
          (let s1 = rb_set_health Healthy s;
               (builder_payload, builder_api_failed) =
                 (case builder_result of
                    RpcOk r \<Rightarrow> (bpr_payload r, bpr_builder_api_failed r)
                  | _ \<Rightarrow> (None, True));
               ((payload, context), s2) =
                 choose_payload l2_payload builder_payload builder_api_failed s1
           in (RpcOk payload, rb_count_block context s2)))"

definition get_payload_disabled ::
  "('l, 'b) engine_env \<Rightarrow> payload_id \<Rightarrow> payload_version \<Rightarrow> ('l, 'b) rollup_boost_server
     \<Rightarrow> op_execution_payload_envelope rpc_outcome \<times> ('l, 'b) rollup_boost_server" where
  "get_payload_disabled env payload_id version s =
     (case ea_get_payload (env_l2 env) payload_id version (rb_l2_client s) of
        (Inr payload, l) \<Rightarrow>
          (RpcOk payload, rb_count_block L2 (rb_set_health Healthy (s\<lparr>rb_l2_client := l\<rparr>)))
      | (Inl e, l) \<Rightarrow>
          (RpcErr (error_object_from e), rb_set_health ServiceUnavailable (s\<lparr>rb_l2_client := l\<rparr>)))"

definition get_payload ::
  "('l, 'b) engine_env \<Rightarrow> payload_id \<Rightarrow> payload_version \<Rightarrow> ('l, 'b) rollup_boost_server
     \<Rightarrow> op_execution_payload_envelope rpc_outcome \<times> ('l, 'b) rollup_boost_server" where
  "get_payload env payload_id version s =
     (if is_disabled (rb_execution_mode s) then get_payload_disabled env payload_id version s
      else
        (let (l2_payload, l) = ea_get_payload (env_l2 env) payload_id version (rb_l2_client s);
             (builder_payload, s1) = builder_fut env payload_id version (s\<lparr>rb_l2_client := l\<rparr>)
         in case builder_payload of
              RpcPanic \<Rightarrow> (RpcPanic, s1)
            | _ \<Rightarrow> select_payload l2_payload builder_payload s1))"

section \<open>forkchoiceUpdated\<close>

definition rb_store ::
  "('l, 'b) engine_env \<Rightarrow> payload_id \<Rightarrow> forkchoice_state \<Rightarrow> bool
     \<Rightarrow> ('l, 'b) rollup_boost_server \<Rightarrow> ('l, 'b) rollup_boost_server" where
  "rb_store env payload_id fcs has s =
     s\<lparr>rb_payload_trace_context :=
         store (env_cache env) payload_id (fcs_head_block_hash fcs) has (env_span env)
           (rb_payload_trace_context s)\<rparr>"

definition rb_remember_fcu ::
  "payload_id \<Rightarrow> forkchoice_state \<Rightarrow> op_payload_attributes option
     \<Rightarrow> ('l, 'b) rollup_boost_server \<Rightarrow> ('l, 'b) rollup_boost_server" where
  "rb_remember_fcu payload_id fcs attrs s =
     (if rb_external_state_root s
      then s\<lparr>rb_payload_to_fcu_request := (rb_payload_to_fcu_request s)(payload_id \<mapsto> (fcs, attrs))\<rparr>
      else s)"

text \<open>The FCU to the L2 client only.\<close>

definition fcu_l2_only ::
  "('l, 'b) engine_env \<Rightarrow> forkchoice_state \<Rightarrow> op_payload_attributes option
     \<Rightarrow> ('l, 'b) rollup_boost_server
     \<Rightarrow> forkchoice_updated client_result \<times> ('l, 'b) rollup_boost_server" where
  "fcu_l2_only env fcs attrs s =
     (let (r, l) = ea_fork_choice_updated_v3 (env_l2 env) fcs attrs (rb_l2_client s)
      in (r, s\<lparr>rb_l2_client := l\<rparr>))"

text \<open>With attributes and the transaction pool disabled.\<close>

definition fcu_no_tx_pool ::
  "('l, 'b) engine_env \<Rightarrow> forkchoice_state \<Rightarrow> op_payload_attributes \<Rightarrow> ('l, 'b) rollup_boost_server
     \<Rightarrow> forkchoice_updated rpc_outcome \<times> ('l, 'b) rollup_boost_server" where
  "fcu_no_tx_pool env fcs attrs s =
     (case fcu_l2_only env fcs (Some attrs) s of
        (Inl e, s1) \<Rightarrow> (RpcErr (error_object_from e), s1)
      | (Inr l2_response, s1) \<Rightarrow>
          (RpcOk l2_response,
           case fu_payload_id l2_response of
             Some payload_id \<Rightarrow> rb_store env payload_id fcs False s1
           | None \<Rightarrow> s1))"

text \<open>With attributes and the transaction pool enabled: both clients get the FCU.\<close>

definition fcu_build ::
  "('l, 'b) engine_env \<Rightarrow> forkchoice_state \<Rightarrow> op_payload_attributes \<Rightarrow> ('l, 'b) rollup_boost_server
     \<Rightarrow> forkchoice_updated rpc_outcome \<times> ('l, 'b) rollup_boost_server" where
  "fcu_build env fcs attrs s =
     (let (l2_result, s1) = fcu_l2_only env fcs (Some attrs) s;
          (builder_result, b) =
            ea_fork_choice_updated_v3 (env_builder env) fcs (Some attrs) (rb_builder_client s1);
          s2 = s1\<lparr>rb_builder_client := b\<rparr>
      in case l2_result of
           Inl e \<Rightarrow> (RpcErr (error_object_from e), s2)
         | Inr l2_response \<Rightarrow>
             (RpcOk l2_response,
              case fu_payload_id l2_response of
                Some payload_id \<Rightarrow>
                  rb_remember_fcu payload_id fcs (Some attrs)
                    (rb_store env payload_id fcs (\<not> isl builder_result) s2)
              | None \<Rightarrow> s2))"

text \<open>Without attributes: the builder's copy is sent by a detached task.\<close>

definition fcu_no_attributes ::
  "('l, 'b) engine_env \<Rightarrow> forkchoice_state \<Rightarrow> ('l, 'b) rollup_boost_server
     \<Rightarrow> forkchoice_updated rpc_outcome \<times> ('l, 'b) rollup_boost_server" where
  "fcu_no_attributes env fcs s =
     (case fcu_l2_only env fcs None (rb_spawn (SpawnForkChoiceUpdated fcs None) s) of
        (Inl e, s1) \<Rightarrow> (RpcErr (error_object_from e), s1)
      | (Inr l2_response, s1) \<Rightarrow>
          (RpcOk l2_response,
           case fu_payload_id l2_response of
             Some payload_id \<Rightarrow> rb_remember_fcu payload_id fcs None s1
           | None \<Rightarrow> s1))"

definition fork_choice_updated_v3 ::
  "('l, 'b) engine_env \<Rightarrow> forkchoice_state \<Rightarrow> op_payload_attributes option
     \<Rightarrow> ('l, 'b) rollup_boost_server
     \<Rightarrow> forkchoice_updated rpc_outcome \<times> ('l, 'b) rollup_boost_server" where
  "fork_choice_updated_v3 env fcs attrs s =
     (if is_disabled (rb_execution_mode s)
      then (let (r, s1) = fcu_l2_only env fcs attrs s in (outcome_of r, s1))
      else if should_skip_unhealthy_builder s
      then (let (r, s1) = fcu_l2_only env fcs attrs s in (outcome_of r, s1))
      else case attrs of
             Some a \<Rightarrow>
               if (case opa_no_tx_pool a of Some no_tx_pool \<Rightarrow> no_tx_pool | None \<Rightarrow> False)
               then fcu_no_tx_pool env fcs a s
               else fcu_build env fcs a s
           | None \<Rightarrow> fcu_no_attributes env fcs s)"

section \<open>The RPC methods\<close>

definition INVALID_REQUEST_CODE :: int where
  "INVALID_REQUEST_CODE = -32600"

definition version_error :: error_object where
  "version_error =
     \<lparr>eo_code = INVALID_REQUEST_CODE, eo_message = ''Payload version 4 not supported'', eo_data = None\<rparr>"

definition get_payload_v3 ::
  "('l, 'b) engine_env \<Rightarrow> payload_id \<Rightarrow> ('l, 'b) rollup_boost_server
     \<Rightarrow> op_execution_payload_envelope_v3 rpc_outcome \<times> ('l, 'b) rollup_boost_server" where
  "get_payload_v3 env payload_id s =
     (let (r, s1) = get_payload env payload_id PV3 s in
      (case r of
         RpcOk (EnvV3 v3) \<Rightarrow> RpcOk v3
       | RpcOk (EnvV4 _) \<Rightarrow> RpcErr version_error
       | RpcErr e \<Rightarrow> RpcErr e
       | RpcPanic \<Rightarrow> RpcPanic, s1))"

definition get_payload_v4 ::
  "('l, 'b) engine_env \<Rightarrow> payload_id \<Rightarrow> ('l, 'b) rollup_boost_server
     \<Rightarrow> op_execution_payload_envelope_v4 rpc_outcome \<times> ('l, 'b) rollup_boost_server" where
  "get_payload_v4 env payload_id s =
     (let (r, s1) = get_payload env payload_id PV4 s in
      (case r of
         RpcOk (EnvV4 v4) \<Rightarrow> RpcOk v4
       | RpcOk (EnvV3 _) \<Rightarrow> RpcErr version_error
       | RpcErr e \<Rightarrow> RpcErr e
       | RpcPanic \<Rightarrow> RpcPanic, s1))"

definition server_new_payload_v3 ::
  "('l, 'b) engine_env \<Rightarrow> execution_payload_v3 \<Rightarrow> b256 list \<Rightarrow> b256 \<Rightarrow> ('l, 'b) rollup_boost_server
     \<Rightarrow> payload_status rpc_outcome \<times> ('l, 'b) rollup_boost_server" where
  "server_new_payload_v3 env payload versioned_hashes parent_beacon_block_root s =
     server_new_payload env
       (NPV3 \<lparr>np3_payload = payload, np3_versioned_hashes = versioned_hashes,
              np3_parent_beacon_block_root = parent_beacon_block_root\<rparr>) s"

definition server_new_payload_v4 ::
  "('l, 'b) engine_env \<Rightarrow> op_execution_payload_v4 \<Rightarrow> b256 list \<Rightarrow> b256 \<Rightarrow> bytes list
     \<Rightarrow> ('l, 'b) rollup_boost_server
     \<Rightarrow> payload_status rpc_outcome \<times> ('l, 'b) rollup_boost_server" where
  "server_new_payload_v4 env payload versioned_hashes parent_beacon_block_root execution_requests s =
     server_new_payload env
       (NPV4 \<lparr>np4_payload = payload, np4_versioned_hashes = versioned_hashes,
              np4_parent_beacon_block_root = parent_beacon_block_root,
              np4_execution_requests = execution_requests\<rparr>) s"

definition server_get_block_by_number ::
  "('l, 'b) engine_env \<Rightarrow> block_number_or_tag \<Rightarrow> bool \<Rightarrow> ('l, 'b) rollup_boost_server
     \<Rightarrow> block rpc_outcome \<times> ('l, 'b) rollup_boost_server" where
  "server_get_block_by_number env number full s =
     (let (r, l) = ea_get_block_by_number (env_l2 env) number full (rb_l2_client s)
      in (outcome_of r, s\<lparr>rb_l2_client := l\<rparr>))"

text \<open>A detached task runs against the builder; its answer is dropped.\<close>

fun run_task :: "('l, 'b) engine_env \<Rightarrow> builder_task \<Rightarrow> 'b \<Rightarrow> 'b" where
  "run_task env (SpawnNewPayload np) b = snd (ea_new_payload (env_builder env) np b)"
| "run_task env (SpawnForkChoiceUpdated fcs attrs) b =
     snd (ea_fork_choice_updated_v3 (env_builder env) fcs attrs b)"

fun run_spawned ::
  "('l, 'b) engine_env \<Rightarrow> ('l, 'b) rollup_boost_server \<Rightarrow> ('l, 'b) rollup_boost_server" where
  "run_spawned env s =
     (case rb_spawned s of
        [] \<Rightarrow> s
      | task # rest \<Rightarrow>
          s\<lparr>rb_builder_client := run_task env task (rb_builder_client s), rb_spawned := rest\<rparr>)"

text \<open>\<^verbatim>\<open>spawn_health_check\<close> shares the server's probes, mode and clients with the health loop.\<close>

definition server_health_check ::
  "('l, 'b) engine_env \<Rightarrow> u64 \<Rightarrow> nat \<Rightarrow> nat \<Rightarrow> monotonic_timestamp \<Rightarrow> ('l, 'b) rollup_boost_server
     \<Rightarrow> monotonic_timestamp \<times> ('l, 'b) rollup_boost_server" where
  "server_health_check env max_unsafe_interval now1 now2 ts s =
     (let h = health_check_iteration (env_l2 env) (env_builder env) max_unsafe_interval now1 now2
                \<lparr>hh_probes = rb_probes s, hh_execution_mode = rb_execution_mode s,
                 hh_l2_client = rb_l2_client s, hh_builder_client = rb_builder_client s,
                 hh_timestamp = ts\<rparr>
      in (hh_timestamp h,
          s\<lparr>rb_probes := hh_probes h, rb_l2_client := hh_l2_client h,
            rb_builder_client := hh_builder_client h\<rparr>))"

end
