(* ===== verification/Server_Props.thy ===== *)
theory Server_Props
  imports Server
begin

text \<open>
  What the multiplexing server guarantees. The first section gives the frame of each operation (the
  fields it leaves alone), the second the outcome of the builder's branch of \<^verbatim>\<open>get_payload\<close>. On
  these rest the properties of a single request, for every behaviour of the two nodes. The last
  sections are about sequences of requests: the locale \<open>multiplexer\<close>, interpreted on both servers
  the program constructs, and the state machine of a session, interpreted as \<open>invariant_system\<close>.
\<close>

section \<open>Frames\<close>

lemma rb_set_health_sel [simp]:
  "rb_l2_client (rb_set_health h s) = rb_l2_client s"
  "rb_builder_client (rb_set_health h s) = rb_builder_client s"
  "rb_payload_trace_context (rb_set_health h s) = rb_payload_trace_context s"
  "rb_execution_mode (rb_set_health h s) = rb_execution_mode s"
  "rb_block_selection_policy (rb_set_health h s) = rb_block_selection_policy s"
  "rb_external_state_root (rb_set_health h s) = rb_external_state_root s"
  "rb_ignore_unhealthy_builders (rb_set_health h s) = rb_ignore_unhealthy_builders s"
  "probes_health (rb_probes (rb_set_health h s)) = h"
  "rb_payload_to_fcu_request (rb_set_health h s) = rb_payload_to_fcu_request s"
  "rb_spawned (rb_set_health h s) = rb_spawned s"
  "rb_blocks_created (rb_set_health h s) = rb_blocks_created s"
  by (simp_all add: rb_set_health_def)

lemma rb_count_block_sel [simp]:
  "rb_l2_client (rb_count_block src s) = rb_l2_client s"
  "rb_builder_client (rb_count_block src s) = rb_builder_client s"
  "rb_payload_trace_context (rb_count_block src s) = rb_payload_trace_context s"
  "rb_execution_mode (rb_count_block src s) = rb_execution_mode s"
  "rb_block_selection_policy (rb_count_block src s) = rb_block_selection_policy s"
  "rb_external_state_root (rb_count_block src s) = rb_external_state_root s"
  "rb_ignore_unhealthy_builders (rb_count_block src s) = rb_ignore_unhealthy_builders s"
  "rb_probes (rb_count_block src s) = rb_probes s"
  "rb_payload_to_fcu_request (rb_count_block src s) = rb_payload_to_fcu_request s"
  "rb_spawned (rb_count_block src s) = rb_spawned s"
  "rb_blocks_created (rb_count_block src s) =
     (rb_blocks_created s)(src := Suc (rb_blocks_created s src))"
  by (simp_all add: rb_count_block_def)

text \<open>The part of the state that a request for a payload does not write, its counters apart.\<close>

definition same_config :: "('l, 'b) rollup_boost_server \<Rightarrow> ('l, 'b) rollup_boost_server \<Rightarrow> bool" where
  "same_config s t \<longleftrightarrow>
     rb_payload_trace_context t = rb_payload_trace_context s \<and>
     rb_execution_mode t = rb_execution_mode s \<and>
     rb_block_selection_policy t = rb_block_selection_policy s \<and>
     rb_external_state_root t = rb_external_state_root s \<and>
     rb_ignore_unhealthy_builders t = rb_ignore_unhealthy_builders s \<and>
     rb_spawned t = rb_spawned s"

lemma same_config_refl [simp]: "same_config s s"
  by (simp add: same_config_def)

lemma same_config_trans: "same_config s t \<Longrightarrow> same_config t u \<Longrightarrow> same_config s u"
  by (simp add: same_config_def)

lemma same_config_sel:
  assumes "same_config s t"
  shows "rb_payload_trace_context t = rb_payload_trace_context s"
    "rb_execution_mode t = rb_execution_mode s"
    "rb_block_selection_policy t = rb_block_selection_policy s"
    "rb_external_state_root t = rb_external_state_root s"
    "rb_ignore_unhealthy_builders t = rb_ignore_unhealthy_builders s"
    "rb_spawned t = rb_spawned s"
  using assms by (simp_all add: same_config_def)

section \<open>The builder's branch\<close>

text \<open>
  The branch writes only the two clients and the FCU table, where at most the entry of the payload
  is used up.
\<close>

definition fetch_frame ::
  "payload_id \<Rightarrow> ('l, 'b) rollup_boost_server \<Rightarrow> ('l, 'b) rollup_boost_server \<Rightarrow> bool" where
  "fetch_frame pid s t \<longleftrightarrow>
     same_config s t \<and> rb_probes t = rb_probes s \<and> rb_blocks_created t = rb_blocks_created s \<and>
     (rb_payload_to_fcu_request t = rb_payload_to_fcu_request s \<or>
      rb_payload_to_fcu_request t = (rb_payload_to_fcu_request s)(pid := None))"

lemma calculate_external_state_root_frame:
  "calculate_external_state_root env p pid v s = (r, t) \<Longrightarrow> fetch_frame pid s t"
  by (auto simp: calculate_external_state_root_def Let_def same_config_def fetch_frame_def
      split: option.splits prod.splits sum.splits)

lemma fetch_frame_builder_client [simp]:
  "fetch_frame pid (s\<lparr>rb_builder_client := b\<rparr>) t \<longleftrightarrow> fetch_frame pid s t"
  "fetch_frame pid (s\<lparr>rb_l2_client := l\<rparr>) t \<longleftrightarrow> fetch_frame pid s t"
  "fetch_frame pid s (t\<lparr>rb_builder_client := b\<rparr>) \<longleftrightarrow> fetch_frame pid s t"
  "fetch_frame pid s (t\<lparr>rb_l2_client := l\<rparr>) \<longleftrightarrow> fetch_frame pid s t"
  "fetch_frame pid s s"
  by (simp_all add: fetch_frame_def same_config_def)

lemma builder_fut_frame: "builder_fut env pid v s = (r, t) \<Longrightarrow> fetch_frame pid s t"
  by (auto simp: builder_fut_def Let_def dest: calculate_external_state_root_frame
      split: if_splits prod.splits sum.splits rpc_outcome.splits)

lemma calculate_external_state_root_panic:
  "calculate_external_state_root env p pid v s = (r, t) \<Longrightarrow>
     r = RpcPanic \<longleftrightarrow> rb_payload_to_fcu_request s pid = None"
  by (auto simp: calculate_external_state_root_def Let_def
      split: option.splits prod.splits sum.splits)

text \<open>The only panic: the builder has a block, and no FCU is remembered for its payload id.\<close>

lemma builder_fut_panic:
  "fst (builder_fut env pid v s) = RpcPanic \<longleftrightarrow>
     has_builder_payload (rb_payload_trace_context s) pid \<and> rb_external_state_root s \<and>
     \<not> isl (fst (ea_get_payload (env_builder env) pid v (rb_builder_client s))) \<and>
     rb_payload_to_fcu_request s pid = None"
  by (auto simp: builder_fut_def Let_def isl_def dest: calculate_external_state_root_panic
      split: prod.splits sum.splits if_splits rpc_outcome.splits)

lemma select_payload_no_panic [simp]: "fst (select_payload l2 r s) \<noteq> RpcPanic"
  by (auto simp: select_payload_def Let_def split: sum.splits prod.splits)

lemma get_payload_enabled:
  assumes "rb_execution_mode s \<noteq> Disabled"
    and "ea_get_payload (env_l2 env) pid v (rb_l2_client s) = (l2, l)"
    and "builder_fut env pid v (s\<lparr>rb_l2_client := l\<rparr>) = (r, t)"
  shows "get_payload env pid v s = (if r = RpcPanic then (RpcPanic, t) else select_payload l2 r t)"
  using assms by (cases r) (simp_all add: get_payload_def)

lemma get_payload_panic:
  "fst (get_payload env pid v s) = RpcPanic \<longleftrightarrow>
     rb_execution_mode s \<noteq> Disabled \<and>
     has_builder_payload (rb_payload_trace_context s) pid \<and> rb_external_state_root s \<and>
     \<not> isl (fst (ea_get_payload (env_builder env) pid v (rb_builder_client s))) \<and>
     rb_payload_to_fcu_request s pid = None"
proof (cases "rb_execution_mode s = Disabled")
  case True
  then show ?thesis
    by (auto simp: get_payload_def get_payload_disabled_def split: prod.splits sum.splits)
next
  case False
  obtain l2 l where l2: "ea_get_payload (env_l2 env) pid v (rb_l2_client s) = (l2, l)" by fastforce
  obtain r t where r: "builder_fut env pid v (s\<lparr>rb_l2_client := l\<rparr>) = (r, t)" by fastforce
  show ?thesis
    using builder_fut_panic [of env pid v "s\<lparr>rb_l2_client := l\<rparr>"] False
    by (simp add: get_payload_enabled [OF False l2 r] r)
qed

section \<open>One getPayload request\<close>

text \<open>The block that comes out of the builder's branch, if any.\<close>

fun offer :: "builder_payload_result rpc_outcome \<Rightarrow> op_execution_payload_envelope option" where
  "offer (RpcOk r) = bpr_payload r"
| "offer _ = None"

fun api_failed :: "builder_payload_result rpc_outcome \<Rightarrow> bool" where
  "api_failed (RpcOk r) = bpr_builder_api_failed r"
| "api_failed _ = True"

text \<open>
  How a block of the builder gets the L2 client's approval. Either the L2 client was asked to
  validate it, or (external state root) the L2 client rebuilt it itself, on the forkchoice that
  started the payload, from the transactions of the builder's block.
\<close>

definition vetted ::
  "engine_lib \<Rightarrow> ('l, 'b) engine_env \<Rightarrow> payload_id \<Rightarrow> payload_version \<Rightarrow> ('l, 'b) rollup_boost_server
     \<Rightarrow> op_execution_payload_envelope \<Rightarrow> bool" where
  "vetted lib env pid v s p \<longleftrightarrow>
     (\<exists>b. fst (ea_get_payload (env_builder env) pid v (rb_builder_client s)) = Inr b \<and>
        (if rb_external_state_root s then
           \<exists>fcs attrs l l' fu id l''. rb_payload_to_fcu_request s pid = Some (fcs, attrs) \<and>
             ea_fork_choice_updated_v3 (env_l2 env) fcs (Some (external_payload_attrs attrs b)) l =
               (Inr fu, l') \<and>
             \<not> lib_is_invalid lib (ps_status (fu_payload_status fu)) \<and>
             fu_payload_id fu = Some id \<and>
             ea_get_payload (env_l2 env) id v l' = (Inr p, l'')
         else
           p = b \<and>
           (\<exists>l l' st. ea_new_payload (env_l2 env) (new_payload_from_envelope b) l = (Inr st, l') \<and>
              \<not> lib_is_invalid lib (ps_status st))))"

lemma vetted_l2_client [simp]:
  "vetted lib env pid v (s\<lparr>rb_l2_client := l\<rparr>) p \<longleftrightarrow> vetted lib env pid v s p"
  by (simp add: vetted_def)

lemma select_payload_Inl [simp]:
  "select_payload (Inl e) r s = (RpcErr (error_object_from e), rb_set_health ServiceUnavailable s)"
  by (simp add: select_payload_def)

lemma select_payload_Inr:
  "select_payload (Inr p) r s =
     (let h = (if offer r = None \<and> rb_execution_mode s = Enabled \<and> api_failed r
               then PartialContent else Healthy);
          (q, src) = (case offer r of
             None \<Rightarrow> (p, L2)
           | Some b \<Rightarrow>
               if rb_execution_mode s = DryRun then (p, L2)
               else (case rb_block_selection_policy s of
                       None \<Rightarrow> (b, Builder) | Some pol \<Rightarrow> select_block pol b p))
      in (RpcOk q, rb_count_block src (rb_set_health h s)))"
  by (cases r)
    (auto simp: select_payload_def choose_payload_def Let_def rb_set_health_def
      split: option.splits prod.splits)

lemma select_blockD:
  "select_block pol b p = (q, L2) \<Longrightarrow> q = p"
  "select_block pol b p = (q, Builder) \<Longrightarrow> q = b"
  by (cases pol; auto split: if_splits)+

text \<open>The two ways in which a request succeeds.\<close>

lemma select_payload_RpcOk:
  assumes "select_payload l2 r s = (RpcOk q, t)"
  obtains src p where "l2 = Inr p" "rb_blocks_created t = (rb_blocks_created s)(src := Suc (rb_blocks_created s src))"
    "src = L2 \<Longrightarrow> q = p"
    "src = Builder \<Longrightarrow> rb_execution_mode s \<noteq> DryRun \<and> offer r = Some q"
proof (cases l2)
  case (Inl e)
  with assms that show thesis by simp
next
  case (Inr p)
  show thesis
  proof (rule that [OF Inr, of "if offer r = None \<or> rb_execution_mode s = DryRun then L2
        else (case rb_block_selection_policy s of None \<Rightarrow> Builder
              | Some pol \<Rightarrow> snd (select_block pol (the (offer r)) p))"])
  qed (use assms Inr in
      \<open>auto simp: select_payload_Inr Let_def dest: select_blockD
         split: option.splits if_splits prod.splits\<close>)
qed

text \<open>What an L2 client that satisfies the trait's contract adds: the approval is a real one.\<close>

context engine_api_ext
begin

lemma calculate_external_state_root_offer:
  assumes l2: "env_l2 env = api"
    and c: "calculate_external_state_root env b pid v s = (RpcOk (Some p), t)"
    and "fst (ea_get_payload (env_builder env) pid v (rb_builder_client s')) = Inr b"
    and "rb_external_state_root s'"
    and "rb_payload_to_fcu_request s' = rb_payload_to_fcu_request s"
  shows "vetted lib env pid v s' p"
proof -
  from c obtain fcs attrs fu l' id l'' where
    "rb_payload_to_fcu_request s pid = Some (fcs, attrs)"
    and fcu: "ea_fork_choice_updated_v3 (env_l2 env) fcs (Some (external_payload_attrs attrs b))
       (rb_l2_client s) = (Inr fu, l')"
    and "fu_payload_id fu = Some id" "ea_get_payload (env_l2 env) id v l' = (Inr p, l'')"
    by (auto simp: calculate_external_state_root_def Let_def
        split: option.splits prod.splits sum.splits)
  moreover have "\<not> lib_is_invalid lib (ps_status (fu_payload_status fu))"
    using fcu l2 fork_choice_not_invalid by metis
  ultimately show ?thesis using assms(3-5) unfolding vetted_def by auto blast
qed

lemma builder_fut_offer:
  assumes l2: "env_l2 env = api" and f: "builder_fut env pid v s = (r, t)" and p: "offer r = Some p"
  shows "has_builder_payload (rb_payload_trace_context s) pid \<and> vetted lib env pid v s p"
proof -
  from f p have has: "has_builder_payload (rb_payload_trace_context s) pid"
    by (auto simp: builder_fut_def split: if_splits)
  with f p obtain b bc where b: "ea_get_payload (env_builder env) pid v (rb_builder_client s) = (Inr b, bc)"
    by (auto simp: builder_fut_def split: prod.splits sum.splits)
  have "vetted lib env pid v s p"
  proof (cases "rb_external_state_root s")
    case True
    with f p has b have "calculate_external_state_root env b pid v (s\<lparr>rb_builder_client := bc\<rparr>) = (RpcOk (Some p), t)"
      by (auto simp: builder_fut_def Let_def split: prod.splits rpc_outcome.splits)
    from calculate_external_state_root_offer [OF l2 this, of s] True b show ?thesis by simp
  next
    case False
    with f p has b obtain st l' where
      np: "ea_new_payload (env_l2 env) (new_payload_from_envelope b) (rb_l2_client s) = (Inr st, l')"
      and "p = b"
      by (auto simp: builder_fut_def Let_def split: prod.splits sum.splits)
    moreover have "\<not> lib_is_invalid lib (ps_status st)"
      using np l2 new_payload_not_invalid by metis
    ultimately show ?thesis using False b unfolding vetted_def by auto
  qed
  with has show ?thesis ..
qed

lemma get_payload_vetted:
  assumes l2: "env_l2 env = api" and g: "get_payload env pid v s = (RpcOk p, t)"
  shows "\<exists>src. rb_blocks_created t = (rb_blocks_created s)(src := Suc (rb_blocks_created s src)) \<and>
    (src = L2 \<longrightarrow> fst (ea_get_payload api pid v (rb_l2_client s)) = Inr p) \<and>
    (src = Builder \<longrightarrow> rb_execution_mode s = Enabled \<and>
       has_builder_payload (rb_payload_trace_context s) pid \<and> vetted lib env pid v s p)"
proof (cases "rb_execution_mode s = Disabled")
  case True
  with g l2 show ?thesis
    by (intro exI [of _ L2])
      (auto simp: get_payload_def get_payload_disabled_def split: prod.splits sum.splits)
next
  case False
  obtain l2r l where l: "ea_get_payload (env_l2 env) pid v (rb_l2_client s) = (l2r, l)" by fastforce
  obtain r u where r: "builder_fut env pid v (s\<lparr>rb_l2_client := l\<rparr>) = (r, u)" by fastforce
  have frame: "fetch_frame pid s u" using builder_fut_frame [OF r] by simp
  have "select_payload l2r r u = (RpcOk p, t)"
    using g by (simp add: get_payload_enabled [OF False l r] split: if_splits)
  then show ?thesis
  proof (rule select_payload_RpcOk)
    fix src q
    assume "l2r = Inr q" "rb_blocks_created t = (rb_blocks_created u)(src := Suc (rb_blocks_created u src))"
      and "src = L2 \<Longrightarrow> p = q" "src = Builder \<Longrightarrow> rb_execution_mode u \<noteq> DryRun \<and> offer r = Some p"
    with frame l l2 False builder_fut_offer [OF l2 r, of p] show ?thesis
      by (intro exI [of _ src])
        (cases "rb_execution_mode s"; auto simp: fetch_frame_def same_config_def)
  qed
qed

end

text \<open>
  C1: the safety of block selection. Whatever the builder answers, a block that \<^verbatim>\<open>get_payload\<close>
  returns either is the L2 client's own answer to this request, or is a block that the builder was
  building for this payload id, in enabled mode, and that the L2 client has approved: it answered
  \<^verbatim>\<open>new_payload\<close> for it with a status other than invalid or, with an external state root, built it
  itself from the builder's transactions. The counter \<^verbatim>\<open>rpc.blocks_created\<close> is incremented once,
  with the label of the branch that was taken.
\<close>

theorem returned_block_is_l2s_or_vetted:
  assumes "env_l2 env = rpc_client_api lib tr" and "get_payload env pid v s = (RpcOk p, t)"
  shows "\<exists>src. rb_blocks_created t = (rb_blocks_created s)(src := Suc (rb_blocks_created s src)) \<and>
    (src = L2 \<longrightarrow> fst (rpc_get_payload tr pid v (rb_l2_client s)) = Inr p) \<and>
    (src = Builder \<longrightarrow> rb_execution_mode s = Enabled \<and>
       has_builder_payload (rb_payload_trace_context s) pid \<and> vetted lib env pid v s p)"
  using rpc.get_payload_vetted [OF assms] by (simp add: rpc_client_api_def)

text \<open>
  Inputs for the witnesses: an L2 client and a builder that both build payload 5, with different
  blocks, and the server after it has sent them the FCU for it.
\<close>

definition sample_mux :: "(unit, unit) engine_env" where
  "sample_mux =
     \<lparr>env_l2 = rpc_client_api sample_lib
        (sample_transport (Inr (sample_fcu (Some 5))) (Inr (sample_env_v3 100 8 []))
           (Inr (sample_status Valid)) (Inl (JsOther ''no block''))),
      env_builder = sample_api (Inr (sample_fcu (Some 5))) (Inr (sample_status Valid))
        (Inr (sample_env 50 9 [[1]])),
      env_cache = keep_all,
      env_span = None\<rparr>"

definition sample_server :: "execution_mode \<Rightarrow> bool \<Rightarrow> bool \<Rightarrow> (unit, unit) rollup_boost_server" where
  "sample_server mode external ignore =
     rollup_boost_server_new () () mode None probes_default external ignore"

definition sample_building :: "execution_mode \<Rightarrow> bool \<Rightarrow> (unit, unit) rollup_boost_server" where
  "sample_building mode external =
     snd (fork_choice_updated_v3 sample_mux sample_fcs (Some (sample_attrs None))
       (sample_server mode external False))"

lemma sample_building_Enabled:
  "sample_building Enabled external =
     (sample_server Enabled external False)
       \<lparr>rb_payload_trace_context := store keep_all 5 7 True None payload_trace_context_new,
        rb_payload_to_fcu_request :=
          if external then [5 \<mapsto> (sample_fcs, Some (sample_attrs None))] else Map.empty\<rparr>"
  by (simp add: sample_building_def sample_server_def sample_mux_def rollup_boost_server_new_def
      fork_choice_updated_v3_def fcu_build_def fcu_l2_only_def rb_store_def rb_remember_fcu_def
      should_skip_unhealthy_builder_def client_simps sample_defs)

lemma sample_get_payload:
  "get_payload sample_mux 5 PV3 (sample_building Enabled False) =
     (RpcOk (sample_env 50 9 [[1]]),
      rb_count_block Builder (rb_set_health Healthy (sample_building Enabled False)))"
  by (simp add: sample_building_Enabled get_payload_def builder_fut_def select_payload_Inr
      sample_server_def sample_mux_def rollup_boost_server_new_def client_simps sample_defs)

theorem returned_block_is_l2s_or_vetted_witness:
  "vetted sample_lib sample_mux 5 PV3 (sample_building Enabled False) (sample_env 50 9 [[1]])"
proof -
  let ?tr = "sample_transport (Inr (sample_fcu (Some 5))) (Inr (sample_env_v3 100 8 []))
           (Inr (sample_status Valid)) (Inl (JsOther ''no block''))"
  have l2: "env_l2 sample_mux = rpc_client_api sample_lib ?tr" by (simp add: sample_mux_def)
  have "fst (rpc_get_payload ?tr 5 PV3 w) \<noteq> Inr (sample_env 50 9 [[1]])" for w
    by (simp add: client_simps sample_defs)
  then show ?thesis
    using returned_block_is_l2s_or_vetted [OF l2 sample_get_payload]
    by (metis (full_types) payload_source.exhaust)
qed

lemma select_payload_health:
  "probes_health (rb_probes (snd (select_payload l2 r s))) =
     (if isl l2 then ServiceUnavailable
      else if offer r = None \<and> rb_execution_mode s = Enabled \<and> api_failed r then PartialContent
      else Healthy)"
  by (cases l2) (auto simp: select_payload_Inr Let_def split: prod.splits)

lemma get_payload_not_panic:
  assumes "fst (get_payload env pid v s) \<noteq> RpcPanic"
  shows "case ea_get_payload (env_l2 env) pid v (rb_l2_client s) of
      (Inl e, _) \<Rightarrow> fst (get_payload env pid v s) = RpcErr (error_object_from e)
    | (Inr _, _) \<Rightarrow> \<exists>p. fst (get_payload env pid v s) = RpcOk p"
proof (cases "rb_execution_mode s = Disabled")
  case True
  then show ?thesis
    by (auto simp: get_payload_def get_payload_disabled_def split: prod.splits sum.splits)
next
  case False
  obtain l2 l where l2: "ea_get_payload (env_l2 env) pid v (rb_l2_client s) = (l2, l)" by fastforce
  obtain r t where r: "builder_fut env pid v (s\<lparr>rb_l2_client := l\<rparr>) = (r, t)" by fastforce
  show ?thesis
    using assms unfolding get_payload_enabled [OF False l2 r] l2
    by (cases l2) (auto simp: select_payload_Inr Let_def split: prod.splits if_splits)
qed

text \<open>
  C3: the builder cannot make a request fail. Provided that, with an external state root, the FCU of
  a payload the builder has is still remembered, a \<^verbatim>\<open>get_payload\<close> request never panics; it returns a
  block whenever the L2 client does, whatever the builder answers, and otherwise the L2 client's
  error with its code.
\<close>

theorem builder_cannot_fail_get_payload:
  assumes "rb_external_state_root s \<Longrightarrow> has_builder_payload (rb_payload_trace_context s) pid \<Longrightarrow>
     rb_payload_to_fcu_request s pid \<noteq> None"
  shows "case fst (ea_get_payload (env_l2 env) pid v (rb_l2_client s)) of
      Inr _ \<Rightarrow> \<exists>p. fst (get_payload env pid v s) = RpcOk p
    | Inl e \<Rightarrow> \<exists>eo. fst (get_payload env pid v s) = RpcErr eo \<and> eo_code eo = client_error_code e"
  using get_payload_not_panic [of env pid v s] assms
  by (auto simp: get_payload_panic error_object_code split: prod.splits sum.splits)

theorem builder_cannot_fail_get_payload_witness:
  "\<exists>p. fst (get_payload (sample_mux\<lparr>env_builder := sample_api (Inl (Io ''x'')) (Inl (Io ''x''))
      (Inl (Io ''builder down''))\<rparr>) 5 PV3 (sample_building Enabled True)) = RpcOk p"
proof -
  let ?env = "sample_mux\<lparr>env_builder := sample_api (Inl (Io ''x'')) (Inl (Io ''x'')) (Inl (Io ''builder down''))\<rparr>"
  have l2: "fst (ea_get_payload (env_l2 ?env) 5 PV3 w) = Inr (sample_env 100 8 [])" for w
    by (simp add: sample_mux_def client_simps sample_defs)
  have "rb_payload_to_fcu_request (sample_building Enabled True) 5 \<noteq> None"
    by (simp add: sample_building_Enabled)
  then have "case fst (ea_get_payload (env_l2 ?env) 5 PV3 (rb_l2_client (sample_building Enabled True))) of
      Inr _ \<Rightarrow> \<exists>p. fst (get_payload ?env 5 PV3 (sample_building Enabled True)) = RpcOk p
    | Inl e \<Rightarrow> \<exists>eo. fst (get_payload ?env 5 PV3 (sample_building Enabled True)) = RpcErr eo
        \<and> eo_code eo = client_error_code e"
    by (rule builder_cannot_fail_get_payload)
  then show ?thesis unfolding l2 by simp
qed

text \<open>
  The probe after \<^verbatim>\<open>get_payload\<close>. Without an external state root, the health endpoint shows
  \<^verbatim>\<open>ServiceUnavailable\<close> exactly when the L2 client failed, and otherwise \<^verbatim>\<open>PartialContent\<close> exactly in
  enabled mode when no builder block came out: the builder was not building this payload, its answer
  was an error, or the L2 client did not accept its block.
\<close>

theorem health_after_get_payload:
  assumes "\<not> rb_external_state_root s"
  shows "probes_health (rb_probes (snd (get_payload env pid v s))) =
    (let (l2, l) = ea_get_payload (env_l2 env) pid v (rb_l2_client s);
         b = fst (ea_get_payload (env_builder env) pid v (rb_builder_client s))
     in if isl l2 then ServiceUnavailable
        else if rb_execution_mode s = Enabled \<and>
          (\<not> has_builder_payload (rb_payload_trace_context s) pid \<or> isl b \<or>
           isl (fst (ea_new_payload (env_l2 env) (new_payload_from_envelope (projr b)) l)))
        then PartialContent else Healthy)"
proof (cases "rb_execution_mode s = Disabled")
  case True
  then show ?thesis
    by (auto simp: get_payload_def get_payload_disabled_def split: prod.splits sum.splits)
next
  case False
  with assms show ?thesis
    by (auto simp: get_payload_def builder_fut_def select_payload_health Let_def
        split: prod.splits sum.splits)
qed

theorem health_after_get_payload_witness:
  "probes_health (rb_probes (snd (get_payload
      (sample_mux\<lparr>env_builder := sample_api (Inl (Io ''x'')) (Inl (Io ''x'')) (Inl (Io ''down''))\<rparr>)
      5 PV3 (sample_building Enabled False)))) = PartialContent"
  by (subst health_after_get_payload)
    (simp_all add: sample_building_Enabled sample_server_def rollup_boost_server_new_def
      sample_mux_def client_simps sample_defs)

section \<open>Isolation of the builder\<close>

lemma fcu_l2_only_sel:
  assumes "fcu_l2_only env fcs attrs s = (r, t)"
  shows "r = fst (ea_fork_choice_updated_v3 (env_l2 env) fcs attrs (rb_l2_client s))"
    "t = s\<lparr>rb_l2_client := snd (ea_fork_choice_updated_v3 (env_l2 env) fcs attrs (rb_l2_client s))\<rparr>"
  using assms by (auto simp: fcu_l2_only_def split: prod.splits)

lemma rb_remember_fcu_sel [simp]:
  "rb_l2_client (rb_remember_fcu pid fcs attrs s) = rb_l2_client s"
  "rb_builder_client (rb_remember_fcu pid fcs attrs s) = rb_builder_client s"
  "rb_payload_trace_context (rb_remember_fcu pid fcs attrs s) = rb_payload_trace_context s"
  "rb_execution_mode (rb_remember_fcu pid fcs attrs s) = rb_execution_mode s"
  "rb_block_selection_policy (rb_remember_fcu pid fcs attrs s) = rb_block_selection_policy s"
  "rb_external_state_root (rb_remember_fcu pid fcs attrs s) = rb_external_state_root s"
  "rb_spawned (rb_remember_fcu pid fcs attrs s) = rb_spawned s"
  "rb_payload_to_fcu_request (rb_remember_fcu pid fcs attrs s) =
     (if rb_external_state_root s then (rb_payload_to_fcu_request s)(pid \<mapsto> (fcs, attrs))
      else rb_payload_to_fcu_request s)"
  by (simp_all add: rb_remember_fcu_def)

lemmas fcu_defs = fork_choice_updated_v3_def fcu_no_tx_pool_def fcu_build_def fcu_no_attributes_def
  fcu_l2_only_def rb_spawn_def

lemma fcu_skipped:
  "rb_execution_mode s = Disabled \<or> should_skip_unhealthy_builder s \<Longrightarrow>
     snd (fork_choice_updated_v3 env fcs attrs s) =
       s\<lparr>rb_l2_client := snd (ea_fork_choice_updated_v3 (env_l2 env) fcs attrs (rb_l2_client s))\<rparr>"
  by (auto simp: fork_choice_updated_v3_def fcu_l2_only_def split: prod.splits)

text \<open>
  C4: the consensus client always sees the L2 client's answer. The response to a
  \<^verbatim>\<open>forkchoiceUpdated\<close> or \<^verbatim>\<open>newPayload\<close> request is the answer of the L2 client to that same request,
  error or not, whatever the mode, the health and the builder.
\<close>

theorem responses_are_l2s:
  "fst (fork_choice_updated_v3 env fcs attrs s) =
     outcome_of (fst (ea_fork_choice_updated_v3 (env_l2 env) fcs attrs (rb_l2_client s))) \<and>
   fst (server_new_payload env np s) =
     outcome_of (fst (ea_new_payload (env_l2 env) np (rb_l2_client s)))"
  by (auto simp: fcu_defs server_new_payload_def Let_def
      split: prod.splits sum.splits option.splits)

text \<open>
  In disabled mode nothing reaches the builder. No handler changes the builder's state or queues a
  task for it, and \<^verbatim>\<open>get_payload\<close> returns the L2 client's block.
\<close>

theorem disabled_mode_isolates_builder:
  assumes "rb_execution_mode s = Disabled"
    and "t \<in> {snd (fork_choice_updated_v3 env fcs attrs s), snd (get_payload env pid v s),
              snd (server_new_payload env np s), snd (server_get_block_by_number env n full s)}"
  shows "rb_builder_client t = rb_builder_client s \<and> rb_spawned t = rb_spawned s \<and>
    rb_execution_mode t = Disabled \<and>
    fst (get_payload env pid v s) = outcome_of (fst (ea_get_payload (env_l2 env) pid v (rb_l2_client s)))"
  using assms
  by (auto simp: fcu_defs get_payload_def get_payload_disabled_def server_new_payload_def
      server_get_block_by_number_def Let_def split: prod.splits sum.splits)

theorem disabled_mode_isolates_builder_witness:
  "rb_spawned (snd (server_new_payload sample_mux (new_payload_from_envelope (sample_env 1 2 []))
     (sample_server Disabled False False))) = []"
  using disabled_mode_isolates_builder [of "sample_server Disabled False False"
      "snd (server_new_payload sample_mux (new_payload_from_envelope (sample_env 1 2 []))
         (sample_server Disabled False False))" sample_mux sample_fcs None 5 PV3
      "new_payload_from_envelope (sample_env 1 2 [])" Latest False]
  by (simp add: sample_server_def rollup_boost_server_new_def)

text \<open>
  An unhealthy builder is left out of block building. With \<^verbatim>\<open>ignore_unhealthy_builders\<close> set and the
  probe not healthy, \<^verbatim>\<open>forkchoiceUpdated\<close> and \<^verbatim>\<open>newPayload\<close> neither call the builder nor queue a task
  for it, and no payload is recorded as being built by it.
\<close>

theorem unhealthy_builder_is_skipped:
  assumes "rb_ignore_unhealthy_builders s" and "probes_health (rb_probes s) \<noteq> Healthy"
    and "t \<in> {snd (fork_choice_updated_v3 env fcs attrs s), snd (server_new_payload env np s)}"
  shows "rb_builder_client t = rb_builder_client s \<and> rb_spawned t = rb_spawned s \<and>
    (has_builder_payload (rb_payload_trace_context t) pid \<longrightarrow>
     has_builder_payload (rb_payload_trace_context s) pid)"
proof -
  have skip: "should_skip_unhealthy_builder s"
    using assms(1,2) by (simp add: should_skip_unhealthy_builder_def)
  consider "t = snd (fork_choice_updated_v3 env fcs attrs s)" | "t = snd (server_new_payload env np s)"
    using assms(3) by blast
  then show ?thesis
  proof cases
    case 1
    then show ?thesis by (simp add: fcu_skipped skip)
  next
    case 2
    with skip show ?thesis
      by (auto simp: server_new_payload_def should_skip_unhealthy_builder_def Let_def
          dest: has_builder_payload_removeD split: prod.splits)
  qed
qed

theorem unhealthy_builder_is_skipped_witness:
  "rb_spawned (snd (fork_choice_updated_v3 sample_mux sample_fcs None
     (rb_set_health PartialContent (sample_server Enabled False True)))) = []"
  using unhealthy_builder_is_skipped [of "rb_set_health PartialContent (sample_server Enabled False True)"
      "snd (fork_choice_updated_v3 sample_mux sample_fcs None
         (rb_set_health PartialContent (sample_server Enabled False True)))" sample_mux sample_fcs None
         "new_payload_from_envelope (sample_env 1 2 [])" 5]
  by (simp add: sample_server_def rollup_boost_server_new_def)

text \<open>
  Dry run never uses the builder's block and yet asks for it. In dry-run mode a successful
  \<^verbatim>\<open>get_payload\<close> returns the L2 client's block and counts it as such; the builder does receive the
  \<^verbatim>\<open>get_payload\<close> request whenever it is building the payload.
\<close>

theorem dry_run_returns_l2_block:
  assumes "rb_execution_mode s = DryRun" and "get_payload env pid v s = (RpcOk p, t)"
  shows "fst (ea_get_payload (env_l2 env) pid v (rb_l2_client s)) = Inr p \<and>
    rb_blocks_created t = (rb_blocks_created s)(L2 := Suc (rb_blocks_created s L2)) \<and>
    rb_builder_client t =
      (if has_builder_payload (rb_payload_trace_context s) pid
       then snd (ea_get_payload (env_builder env) pid v (rb_builder_client s))
       else rb_builder_client s)"
proof -
  obtain l2 l where l2: "ea_get_payload (env_l2 env) pid v (rb_l2_client s) = (l2, l)" by fastforce
  obtain r u where r: "builder_fut env pid v (s\<lparr>rb_l2_client := l\<rparr>) = (r, u)" by fastforce
  have nd: "rb_execution_mode s \<noteq> Disabled" using assms(1) by simp
  have sel: "select_payload l2 r u = (RpcOk p, t)"
    using assms(2) by (simp add: get_payload_enabled [OF nd l2 r] split: if_splits)
  have frame: "fetch_frame pid s u" using builder_fut_frame [OF r] by simp
  have "rb_builder_client u = (if has_builder_payload (rb_payload_trace_context s) pid
       then snd (ea_get_payload (env_builder env) pid v (rb_builder_client s))
       else rb_builder_client s)"
    using r by (auto simp: builder_fut_def Let_def calculate_external_state_root_def
        split: if_splits prod.splits sum.splits option.splits)
  with sel frame assms(1) l2 show ?thesis
    by (cases l2)
      (auto simp: select_payload_Inr fetch_frame_def same_config_def Let_def split: option.splits)
qed

lemma sample_building_DryRun:
  "sample_building DryRun False =
     (sample_server DryRun False False)
       \<lparr>rb_payload_trace_context := store keep_all 5 7 True None payload_trace_context_new\<rparr>"
  by (simp add: sample_building_def sample_server_def sample_mux_def rollup_boost_server_new_def
      fork_choice_updated_v3_def fcu_build_def fcu_l2_only_def rb_store_def rb_remember_fcu_def
      should_skip_unhealthy_builder_def client_simps sample_defs)

theorem dry_run_returns_l2_block_witness:
  "fst (ea_get_payload (env_l2 sample_mux) 5 PV3 (rb_l2_client (sample_building DryRun False))) =
     Inr (sample_env 100 8 [])"
proof -
  have "rb_execution_mode (sample_building DryRun False) = DryRun"
    by (simp add: sample_building_DryRun sample_server_def rollup_boost_server_new_def)
  moreover have "get_payload sample_mux 5 PV3 (sample_building DryRun False) =
      (RpcOk (sample_env 100 8 []), rb_count_block L2 (rb_set_health Healthy (sample_building DryRun False)))"
    by (simp add: sample_building_DryRun get_payload_def builder_fut_def select_payload_Inr
        sample_server_def sample_mux_def rollup_boost_server_new_def client_simps sample_defs)
  ultimately show ?thesis using dry_run_returns_l2_block by blast
qed

section \<open>From forkchoiceUpdated to getPayload\<close>

lemma has_builder_payload_kept:
  "\<forall>m. evict_ids ev m pid = m pid \<Longrightarrow> has_builder_payload (store ev pid h b t ctx) pid \<longleftrightarrow> b"
  by (auto simp: has_builder_payload_def store_def Let_def split: option.splits)



lemma get_payload_without_builder:
  assumes "\<not> has_builder_payload (rb_payload_trace_context s) pid"
  shows "rb_builder_client (snd (get_payload env pid v s)) = rb_builder_client s"
    "fst (get_payload env pid v s) = outcome_of (fst (ea_get_payload (env_l2 env) pid v (rb_l2_client s)))"
  using assms
  by (auto simp: get_payload_def get_payload_disabled_def builder_fut_def select_payload_def
      choose_payload_def Let_def split: prod.splits sum.splits)

lemma server_new_payload_sel [simp]:
  "rb_payload_trace_context (snd (server_new_payload env np s)) =
     remove_by_parent_hash (ep_parent_hash (execution_payload_from_new_payload np))
       (rb_payload_trace_context s)"
  "rb_external_state_root (snd (server_new_payload env np s)) = rb_external_state_root s"
  "rb_payload_to_fcu_request (snd (server_new_payload env np s)) = rb_payload_to_fcu_request s"
  by (simp_all add: server_new_payload_def rb_spawn_def Let_def split: prod.splits)

text \<open>
  Once a block on a parent arrives, the payloads built on that parent are given up. After
  \<^verbatim>\<open>newPayload\<close>, exactly the ids recorded under the block's parent hash are no longer the builder's;
  a \<^verbatim>\<open>get_payload\<close> for one of them does not reach the builder and returns the L2 client's answer.
\<close>

theorem new_payload_ends_building:
  assumes "block_hash_to_payload_ids (rb_payload_trace_context s)
      (ep_parent_hash (execution_payload_from_new_payload np)) = Some pids"
    and "t = snd (server_new_payload env np s)"
  shows "(has_builder_payload (rb_payload_trace_context t) pid \<longleftrightarrow>
       has_builder_payload (rb_payload_trace_context s) pid \<and> pid \<notin> set pids) \<and>
    (pid \<in> set pids \<longrightarrow>
       rb_builder_client (snd (get_payload env pid v t)) = rb_builder_client t \<and>
       fst (get_payload env pid v t) =
         outcome_of (fst (ea_get_payload (env_l2 env) pid v (rb_l2_client t))))"
proof -
  have has: "has_builder_payload (rb_payload_trace_context t) pid \<longleftrightarrow>
       has_builder_payload (rb_payload_trace_context s) pid \<and> pid \<notin> set pids"
    using assms by (simp add: has_builder_payload_remove)
  then show ?thesis using get_payload_without_builder by blast
qed

theorem new_payload_ends_building_witness:
  "\<not> has_builder_payload (rb_payload_trace_context (snd (server_new_payload sample_mux
      (new_payload_from_envelope (sample_env 1 2 [])) (sample_building Enabled False)))) 5"
proof -
  have "block_hash_to_payload_ids (rb_payload_trace_context (sample_building Enabled False))
      (ep_parent_hash (execution_payload_from_new_payload (new_payload_from_envelope (sample_env 1 2 []))))
      = Some [5]"
    by (simp add: sample_building_Enabled sample_defs store_def Let_def keep_all_def
        payload_trace_context_new_def ep_parent_hash_def)
  from new_payload_ends_building [OF this refl, of sample_mux 5 PV3] show ?thesis by simp
qed

section \<open>Sessions\<close>

text \<open>
  Every way the server's state can change: requests, detached tasks, the debug API, the health loop
  and the nodes themselves. The second component of the state is the set of payload ids for which
  \<^verbatim>\<open>get_payload\<close> has been called.
\<close>

inductive session_step ::
  "('l, 'b) engine_env \<Rightarrow> ('l, 'b) rollup_boost_server \<times> payload_id set
     \<Rightarrow> ('l, 'b) rollup_boost_server \<times> payload_id set \<Rightarrow> bool" for env where
  step_fcu: "session_step env (s, A) (snd (fork_choice_updated_v3 env fcs attrs s), A)"
| step_get_payload: "session_step env (s, A) (snd (get_payload env pid v s), insert pid A)"
| step_new_payload: "session_step env (s, A) (snd (server_new_payload env np s), A)"
| step_get_block: "session_step env (s, A) (snd (server_get_block_by_number env n full s), A)"
| step_task: "session_step env (s, A) (run_spawned env s, A)"
| step_mode: "session_step env (s, A) (set_execution_mode mode s, A)"
| step_health: "session_step env (s, A) (snd (server_health_check env m now1 now2 ts s), A)"
| step_nodes: "session_step env (s, A) (s\<lparr>rb_l2_client := l, rb_builder_client := b\<rparr>, A)"

definition session_init :: "('l, 'b) rollup_boost_server \<times> payload_id set \<Rightarrow> bool" where
  "session_init st \<longleftrightarrow>
     (\<exists>l b mode policy probes external ignore.
        st = (rollup_boost_server_new l b mode policy probes external ignore, {}))"

text \<open>The FCU of every payload of the builder that was not fetched yet is still remembered.\<close>

definition fcu_remembered :: "('l, 'b) rollup_boost_server \<Rightarrow> payload_id set \<Rightarrow> bool" where
  "fcu_remembered s A \<longleftrightarrow>
     (rb_external_state_root s \<longrightarrow>
       (\<forall>pid. has_builder_payload (rb_payload_trace_context s) pid \<longrightarrow> pid \<notin> A \<longrightarrow>
          rb_payload_to_fcu_request s pid \<noteq> None))"

lemma fcu_remembered_cong:
  assumes "fcu_remembered s A" "rb_external_state_root t = rb_external_state_root s" "A \<subseteq> B"
    and "\<And>pid. pid \<notin> B \<Longrightarrow> has_builder_payload (rb_payload_trace_context t) pid \<Longrightarrow>
      has_builder_payload (rb_payload_trace_context s) pid"
    and "\<And>pid. pid \<notin> B \<Longrightarrow> rb_payload_to_fcu_request s pid \<noteq> None \<Longrightarrow>
      rb_payload_to_fcu_request t pid \<noteq> None"
  shows "fcu_remembered t B"
  using assms unfolding fcu_remembered_def by blast

lemma fcu_remembered_fcu:
  assumes "only_evicts (env_cache env)" "fcu_remembered s A"
  shows "fcu_remembered (snd (fork_choice_updated_v3 env fcs attrs s)) A"
  using assms
  by (auto simp: fcu_remembered_def fcu_defs rb_store_def Let_def
      dest!: has_builder_payload_storeD [rotated]
      split: prod.splits sum.splits option.splits if_splits)

lemma select_payload_frame:
  "same_config s (snd (select_payload l2 r s)) \<and>
   rb_payload_to_fcu_request (snd (select_payload l2 r s)) = rb_payload_to_fcu_request s"
  by (cases l2) (simp_all add: select_payload_Inr Let_def same_config_def split: prod.splits)

lemma get_payload_frame:
  assumes "t = snd (get_payload env pid v s)"
  shows "same_config s t"
    and "q \<noteq> pid \<Longrightarrow> rb_payload_to_fcu_request t q = rb_payload_to_fcu_request s q"
proof -
  have "same_config s t \<and>
    (q \<noteq> pid \<longrightarrow> rb_payload_to_fcu_request t q = rb_payload_to_fcu_request s q)"
  proof (cases "rb_execution_mode s = Disabled")
    case True
    with assms show ?thesis
      by (auto simp: get_payload_def get_payload_disabled_def same_config_def
          split: prod.splits sum.splits)
  next
    case False
    obtain l2 l where l2: "ea_get_payload (env_l2 env) pid v (rb_l2_client s) = (l2, l)" by fastforce
    obtain r u where r: "builder_fut env pid v (s\<lparr>rb_l2_client := l\<rparr>) = (r, u)" by fastforce
    have frame: "fetch_frame pid s u" using builder_fut_frame [OF r] by simp
    then show ?thesis
      using assms get_payload_enabled [OF False l2 r] select_payload_frame [of u l2 r]
      by (auto simp: fetch_frame_def elim: same_config_trans)
  qed
  then show "same_config s t" and "q \<noteq> pid \<Longrightarrow> rb_payload_to_fcu_request t q = rb_payload_to_fcu_request s q"
    by simp_all
qed

lemma fcu_remembered_step:
  assumes "session_step env (s, A) (t, B)" "only_evicts (env_cache env)" "fcu_remembered s A"
  shows "fcu_remembered t B"
  using assms(1)
proof cases
  case step_fcu
  then show ?thesis using fcu_remembered_fcu [OF assms(2,3)] by simp
next
  case (step_get_payload pid v)
  note frame = get_payload_frame [OF step_get_payload(1)]
  from step_get_payload(2) frame assms(3) show ?thesis
    by (intro fcu_remembered_cong [OF assms(3)]) (auto simp: same_config_sel [OF frame(1)])
next
  case (step_new_payload np)
  then show ?thesis
    by (intro fcu_remembered_cong [OF assms(3)])
      (auto dest: has_builder_payload_removeD)
next
  case (step_get_block n full)
  then show ?thesis using assms(3)
    by (auto simp: server_get_block_by_number_def fcu_remembered_def split: prod.splits)
next
  case step_task
  then show ?thesis using assms(3) by (auto simp: fcu_remembered_def split: list.splits)
next
  case (step_mode mode)
  then show ?thesis using assms(3) by (simp add: set_execution_mode_def fcu_remembered_def)
next
  case (step_health m now1 now2 ts)
  then show ?thesis using assms(3) by (simp add: server_health_check_def fcu_remembered_def Let_def)
next
  case (step_nodes l b)
  then show ?thesis using assms(3) by (simp add: fcu_remembered_def)
qed

interpretation session: invariant_system session_init "session_step env"
  "\<lambda>st. only_evicts (env_cache env) \<longrightarrow> fcu_remembered (fst st) (snd st)" for env
proof
  fix st :: "('a, 'b) rollup_boost_server \<times> payload_id set"
  assume "session_init st"
  then show "only_evicts (env_cache env) \<longrightarrow> fcu_remembered (fst st) (snd st)"
    by (auto simp: session_init_def rollup_boost_server_new_def fcu_remembered_def)
next
  fix st st' :: "('a, 'b) rollup_boost_server \<times> payload_id set"
  assume "session_step env st st'"
    and "only_evicts (env_cache env) \<longrightarrow> fcu_remembered (fst st) (snd st)"
  then show "only_evicts (env_cache env) \<longrightarrow> fcu_remembered (fst st') (snd st')"
    using fcu_remembered_step [of env "fst st" "snd st" "fst st'" "snd st'"] by simp
qed

text \<open>
  No panic when each payload is fetched once. Start from any configuration and let requests,
  detached tasks, mode changes, health checks and arbitrary changes of the nodes follow in any order;
  as long as the caches only ever evict, a \<^verbatim>\<open>get_payload\<close> for an id that was not requested before does
  not panic: it returns a block if the L2 client does, and the L2 client's error otherwise.
\<close>

theorem first_get_payload_never_panics:
  assumes "reach session_init (session_step env) (s, A)" and "only_evicts (env_cache env)"
    and "pid \<notin> A"
  shows "case fst (ea_get_payload (env_l2 env) pid v (rb_l2_client s)) of
      Inr _ \<Rightarrow> \<exists>p. fst (get_payload env pid v s) = RpcOk p
    | Inl e \<Rightarrow> fst (get_payload env pid v s) = RpcErr (error_object_from e)"
proof -
  have "fcu_remembered s A" using session.reach_inv [OF assms(1)] assms(2) by simp
  then have "fst (get_payload env pid v s) \<noteq> RpcPanic"
    using assms(3) by (auto simp: get_payload_panic fcu_remembered_def)
  from get_payload_not_panic [OF this] show ?thesis by (auto split: prod.splits sum.splits)
qed

theorem first_get_payload_never_panics_witness:
  "\<exists>p. fst (get_payload sample_mux 5 PV3 (sample_building Enabled True)) = RpcOk p"
proof -
  have "session_init (sample_server Enabled True False, {})"
    unfolding session_init_def sample_server_def by blast
  then have "reach session_init (session_step sample_mux) (sample_server Enabled True False, {})"
    by (rule reach_init)
  then have "reach session_init (session_step sample_mux) (sample_building Enabled True, {})"
    unfolding sample_building_def by (rule reach_step) (rule step_fcu)
  moreover have "only_evicts (env_cache sample_mux)"
    by (simp add: sample_mux_def only_evicts_def keep_all_def)
  ultimately have "case fst (ea_get_payload (env_l2 sample_mux) 5 PV3 (rb_l2_client (sample_building Enabled True))) of
      Inr _ \<Rightarrow> \<exists>p. fst (get_payload sample_mux 5 PV3 (sample_building Enabled True)) = RpcOk p
    | Inl e \<Rightarrow> fst (get_payload sample_mux 5 PV3 (sample_building Enabled True)) = RpcErr (error_object_from e)"
    by (rule first_get_payload_never_panics) simp
  then show ?thesis by (simp add: sample_mux_def client_simps sample_defs)
qed

lemma builder_fut_uses_up_fcu:
  assumes "builder_fut env pid v s = (r, t)" "rb_external_state_root s"
    and "has_builder_payload (rb_payload_trace_context s) pid"
    and "\<not> isl (fst (ea_get_payload (env_builder env) pid v (rb_builder_client s)))"
  shows "rb_payload_to_fcu_request t pid = None"
  using assms
  by (auto simp: builder_fut_def calculate_external_state_root_def Let_def
      split: prod.splits sum.splits option.splits rpc_outcome.splits)

text \<open>
  With an external state root, asking twice for the same payload panics. When the builder is
  building the payload and answers both requests, the first \<^verbatim>\<open>get_payload\<close> uses up the remembered FCU
  and the second one fails on the \<^verbatim>\<open>unwrap\<close> of the missing entry, whatever the L2 client answers.
\<close>

theorem second_get_payload_panics:
  assumes "rb_execution_mode s \<noteq> Disabled" "rb_external_state_root s"
    and has: "has_builder_payload (rb_payload_trace_context s) pid"
    and up: "\<And>b. \<not> isl (fst (ea_get_payload (env_builder env) pid v b))"
  shows "fst (get_payload env pid v (snd (get_payload env pid v s))) = RpcPanic"
proof -
  let ?t = "snd (get_payload env pid v s)"
  obtain l2 l where l2: "ea_get_payload (env_l2 env) pid v (rb_l2_client s) = (l2, l)" by fastforce
  obtain r u where r: "builder_fut env pid v (s\<lparr>rb_l2_client := l\<rparr>) = (r, u)" by fastforce
  have "rb_payload_to_fcu_request u pid = None"
    by (rule builder_fut_uses_up_fcu [OF r]) (simp_all add: assms)
  then have "rb_payload_to_fcu_request ?t pid = None"
    using get_payload_enabled [OF assms(1) l2 r] select_payload_frame [of u l2 r] by auto
  moreover have "same_config s ?t" by (rule get_payload_frame(1) [OF refl])
  ultimately show ?thesis
    using assms by (simp add: get_payload_panic [of env pid v ?t] same_config_def)
qed

theorem second_get_payload_panics_witness:
  "fst (get_payload sample_mux 5 PV3
     (snd (get_payload sample_mux 5 PV3 (sample_building Enabled True)))) = RpcPanic"
  by (rule second_get_payload_panics)
    (simp_all add: sample_building_Enabled sample_server_def rollup_boost_server_new_def
      sample_mux_def sample_defs)

section \<open>Two clients\<close>

text \<open>
  A server whose clients both satisfy the trait's contract. The program builds two: over the
  builder's \<^verbatim>\<open>RpcClient\<close>, and over \<^verbatim>\<open>FlashblocksService\<close>.
\<close>

locale multiplexer = l2: engine_api_ext lib "env_l2 env" + bld: engine_api_ext lib "env_builder env"
  for lib :: engine_lib and env :: "('l, 'b) engine_env"
begin

lemma vetted_version: "vetted lib env pid v s p \<Longrightarrow> envelope_version p = v"
proof -
  assume "vetted lib env pid v s p"
  then obtain b where "fst (ea_get_payload (env_builder env) pid v (rb_builder_client s)) = Inr b"
    and "p = b \<or> (\<exists>id l l'. ea_get_payload (env_l2 env) id v l = (Inr p, l'))"
    unfolding vetted_def by (auto split: if_splits)
  then show ?thesis
    using bld.get_payload_version l2.get_payload_version by (metis prod.collapse)
qed

lemma get_payload_result_version:
  assumes "get_payload env pid v s = (RpcOk p, t)"
  shows "envelope_version p = v"
proof -
  obtain src where "src = L2 \<longrightarrow> fst (ea_get_payload (env_l2 env) pid v (rb_l2_client s)) = Inr p"
    "src = Builder \<longrightarrow> vetted lib env pid v s p"
    using l2.get_payload_vetted [OF refl assms] by blast
  then show ?thesis
    using vetted_version l2.get_payload_version by (cases src) (metis prod.collapse, metis)
qed

lemma get_payload_RpcErr:
  "fst (get_payload env pid v s) = RpcErr e \<Longrightarrow>
     \<exists>c. fst (ea_get_payload (env_l2 env) pid v (rb_l2_client s)) = Inl c \<and> e = error_object_from c"
  using get_payload_not_panic [of env pid v s] by (auto split: prod.splits sum.splits)

lemma get_payload_v3_error:
  "fst (get_payload_v3 env pid s) = RpcErr e \<Longrightarrow>
     \<exists>c. fst (ea_get_payload (env_l2 env) pid PV3 (rb_l2_client s)) = Inl c \<and> e = error_object_from c"
  using get_payload_result_version [of pid PV3 s] get_payload_RpcErr [of pid PV3 s]
  by (auto simp: get_payload_v3_def split: prod.splits rpc_outcome.splits
      op_execution_payload_envelope.splits)

lemma get_payload_v4_error:
  "fst (get_payload_v4 env pid s) = RpcErr e \<Longrightarrow>
     \<exists>c. fst (ea_get_payload (env_l2 env) pid PV4 (rb_l2_client s)) = Inl c \<and> e = error_object_from c"
  using get_payload_result_version [of pid PV4 s] get_payload_RpcErr [of pid PV4 s]
  by (auto simp: get_payload_v4_def split: prod.splits rpc_outcome.splits
      op_execution_payload_envelope.splits)

end

definition rpc_env ::
  "engine_lib \<Rightarrow> 'l transport \<Rightarrow> 'w transport \<Rightarrow> cache_policy \<Rightarrow> trace_id option
     \<Rightarrow> ('l, 'w) engine_env" where
  "rpc_env lib tr tr' cache span =
     \<lparr>env_l2 = rpc_client_api lib tr, env_builder = rpc_client_api lib tr', env_cache = cache,
      env_span = span\<rparr>"

definition flashblocks_env ::
  "engine_lib \<Rightarrow> 'l transport \<Rightarrow> 'w transport \<Rightarrow> cache_policy \<Rightarrow> trace_id option
     \<Rightarrow> ('l, 'w flashblocks_service) engine_env" where
  "flashblocks_env lib tr tr' cache span =
     \<lparr>env_l2 = rpc_client_api lib tr, env_builder = flashblocks_api lib tr', env_cache = cache,
      env_span = span\<rparr>"

interpretation mux_rpc: multiplexer lib "rpc_env lib tr tr' cache span" for lib tr tr' cache span
  unfolding multiplexer_def rpc_env_def
  by (simp add: rpc.engine_api_ext_axioms)

interpretation mux_fb: multiplexer lib "flashblocks_env lib tr tr' cache span" for lib tr tr' cache span
  unfolding multiplexer_def flashblocks_env_def
  by (simp add: rpc.engine_api_ext_axioms fbs.engine_api_ext_axioms)

text \<open>
  C22: a version-mismatch error is never invented. For both servers the program can construct, an error
  answered by \<^verbatim>\<open>engine_getPayloadV3\<close> or \<^verbatim>\<open>engine_getPayloadV4\<close> is the L2 client's error for this very
  request; the branch that rejects a payload of the other version cannot be taken.
\<close>

theorem get_payload_errors_are_l2s:
  "(fst (get_payload_v3 (rpc_env lib tr tr' cache span) pid s) = RpcErr e \<longrightarrow>
      (\<exists>c. fst (rpc_get_payload tr pid PV3 (rb_l2_client s)) = Inl c \<and> e = error_object_from c)) \<and>
   (fst (get_payload_v4 (rpc_env lib tr tr' cache span) pid s) = RpcErr e \<longrightarrow>
      (\<exists>c. fst (rpc_get_payload tr pid PV4 (rb_l2_client s)) = Inl c \<and> e = error_object_from c)) \<and>
   (fst (get_payload_v3 (flashblocks_env lib tr tr' cache span) pid u) = RpcErr e \<longrightarrow>
      (\<exists>c. fst (rpc_get_payload tr pid PV3 (rb_l2_client u)) = Inl c \<and> e = error_object_from c)) \<and>
   (fst (get_payload_v4 (flashblocks_env lib tr tr' cache span) pid u) = RpcErr e \<longrightarrow>
      (\<exists>c. fst (rpc_get_payload tr pid PV4 (rb_l2_client u)) = Inl c \<and> e = error_object_from c))"
  using mux_rpc.get_payload_v3_error [of lib tr tr' cache span pid s e]
    mux_rpc.get_payload_v4_error [of lib tr tr' cache span pid s e]
    mux_fb.get_payload_v3_error [of lib tr tr' cache span pid u e]
    mux_fb.get_payload_v4_error [of lib tr tr' cache span pid u e]
  by (simp add: rpc_env_def flashblocks_env_def rpc_client_api_def)

theorem get_payload_errors_are_l2s_witness:
  "\<exists>c. fst (rpc_get_payload (sample_transport (Inr (sample_fcu None)) (Inl (JsOther ''down''))
       (Inr (sample_status Valid)) (Inl (JsOther ''no block''))) 5 PV3 ()) = Inl c \<and>
     internal_error_object ''down'' = error_object_from c"
proof -
  let ?tr = "sample_transport (Inr (sample_fcu None)) (Inl (JsOther ''down''))
       (Inr (sample_status Valid)) (Inl (JsOther ''no block''))"
  let ?env = "rpc_env sample_lib ?tr ?tr keep_all None" and ?s = "sample_server Enabled False False"
  have "fst (get_payload_v3 ?env 5 ?s) = RpcErr (internal_error_object ''down'')"
    by (simp add: get_payload_v3_def get_payload_def builder_fut_def sample_server_def
        rollup_boost_server_new_def rpc_env_def client_simps sample_defs)
  moreover have "rb_l2_client ?s = ()" by simp
  ultimately show ?thesis
    using get_payload_errors_are_l2s [of sample_lib ?tr ?tr keep_all None 5 ?s] by metis
qed

end
