(* ===== verification/Server_Tasks.thy ===== *)
theory Server_Tasks
  imports Server_Props
begin

text \<open>
  The handlers of \<^verbatim>\<open>RollupBoostServer\<close> (\<^verbatim>\<open>server.rs\<close>) as concurrent tasks. \<^verbatim>\<open>jsonrpsee\<close> runs every request in a task
  of its own; a task can be suspended at every \<^verbatim>\<open>await\<close> and shares the execution mode, the probes, the trace
  context and \<^verbatim>\<open>payload_to_fcu_request\<close> with the others, each behind a lock or cache of its own. A request here is a
  program counter, and one step is one access to the shared state or one exchange with a node; the two futures of
  a \<^verbatim>\<open>tokio::join!\<close> take their steps in any order (the flag of \<open>rq_step\<close> says which one is polled). The log of a
  request records what it saw: the modes it read, the answers it got.

  Uninterrupted, a request is the handler of the server theory, which the last section shows; what holds in every
  interleaving is in the theory on the running server.
\<close>

section \<open>Program counters\<close>

datatype observation =
    SawMode execution_mode
  | L2GotPayload payload_id payload_version "op_execution_payload_envelope client_result"
  | L2Validated new_payload "payload_status client_result"
  | L2Updated forkchoice_state "op_payload_attributes option" "forkchoice_updated client_result"
  | L2GotBlock block_number_or_tag bool "block client_result"
  | BuilderGotPayload payload_id payload_version "op_execution_payload_envelope client_result"
  | BuilderUpdated forkchoice_state "op_payload_attributes option" "forkchoice_updated client_result"
  | Recalled payload_id forkchoice_state "op_payload_attributes option"

text \<open>The builder's branch of \<^verbatim>\<open>get_payload\<close>, with \<^verbatim>\<open>calculate_external_state_root\<close>.\<close>

datatype bf_pc =
    BfLookup
  | BfAsk
  | BfValidate op_execution_payload_envelope
  | BfRecall op_execution_payload_envelope
  | BfRecompute forkchoice_state "op_payload_attributes option" op_execution_payload_envelope
  | BfFetch payload_id
  | BfEnded "builder_payload_result rpc_outcome"

datatype get_pc =
    GetEntry payload_id payload_version
  | GetL2Only payload_id payload_version
  | GetSettle payload_id payload_version "op_execution_payload_envelope client_result"
  | GetJoin payload_id payload_version "op_execution_payload_envelope client_result option" bf_pc
  | GetChoose payload_id payload_version op_execution_payload_envelope "op_execution_payload_envelope option" bool
  | GetDegrade payload_id payload_version op_execution_payload_envelope
  | GetReturned payload_id payload_version "op_execution_payload_envelope rpc_outcome"

datatype fcu_pc =
    FcuEntry forkchoice_state "op_payload_attributes option"
  | FcuHealth forkchoice_state "op_payload_attributes option"
  | FcuForward forkchoice_state "op_payload_attributes option"
  | FcuNoPool forkchoice_state op_payload_attributes
  | FcuBoth forkchoice_state op_payload_attributes
      "forkchoice_updated client_result option" "forkchoice_updated client_result option"
  | FcuPlain forkchoice_state
  | FcuStoreId payload_id forkchoice_state "op_payload_attributes option" bool bool forkchoice_updated
  | FcuListId payload_id forkchoice_state "op_payload_attributes option" bool forkchoice_updated
  | FcuRemember payload_id forkchoice_state "op_payload_attributes option" forkchoice_updated
  | FcuReturned forkchoice_state "op_payload_attributes option" "forkchoice_updated rpc_outcome"

datatype new_pc =
    NewEntry new_payload
  | NewForget new_payload "payload_id list"
  | NewMode new_payload
  | NewHealth new_payload
  | NewSend new_payload
  | NewReturned new_payload "payload_status rpc_outcome"

datatype block_pc =
    BlockEntry block_number_or_tag bool
  | BlockReturned block_number_or_tag bool "block rpc_outcome"

datatype rq_pc = RqGet get_pc | RqFcu fcu_pc | RqNew new_pc | RqBlock block_pc

section \<open>Steps\<close>

text \<open>The two halves of \<^verbatim>\<open>PayloadTraceContext::store\<close> and one removal of \<^verbatim>\<open>remove_by_parent_hash\<close>.\<close>

definition store_id ::
  "cache_policy \<Rightarrow> payload_id \<Rightarrow> bool \<Rightarrow> trace_id option \<Rightarrow> payload_trace_context \<Rightarrow> payload_trace_context" where
  "store_id ev pid has tid ctx =
     ctx\<lparr>ctx_payload_id := evict_ids ev ((ctx_payload_id ctx)
           (pid \<mapsto> \<lparr>builder_has_payload = has, pt_trace_id = tid\<rparr>))\<rparr>"

definition list_id :: "cache_policy \<Rightarrow> payload_id \<Rightarrow> b256 \<Rightarrow> payload_trace_context \<Rightarrow> payload_trace_context" where
  "list_id ev pid parent ctx =
     (let hashes = block_hash_to_payload_ids ctx
      in ctx\<lparr>block_hash_to_payload_ids := evict_hashes ev (hashes(parent \<mapsto>
           (case hashes parent of Some e \<Rightarrow> e @ [pid] | None \<Rightarrow> [pid])))\<rparr>)"

definition unlist :: "b256 \<Rightarrow> payload_trace_context \<Rightarrow> payload_id list \<times> payload_trace_context" where
  "unlist h ctx =
     (case block_hash_to_payload_ids ctx h of
        None \<Rightarrow> ([], ctx)
      | Some pids \<Rightarrow> (pids, ctx\<lparr>block_hash_to_payload_ids := (block_hash_to_payload_ids ctx)(h := None)\<rparr>))"

definition forget_id :: "payload_id \<Rightarrow> payload_trace_context \<Rightarrow> payload_trace_context" where
  "forget_id pid ctx = ctx\<lparr>ctx_payload_id := (ctx_payload_id ctx)(pid := None)\<rparr>"

definition rb_trace ::
  "(payload_trace_context \<Rightarrow> payload_trace_context) \<Rightarrow> ('l, 'b) rollup_boost_server
     \<Rightarrow> ('l, 'b) rollup_boost_server" where
  "rb_trace f s = s\<lparr>rb_payload_trace_context := f (rb_payload_trace_context s)\<rparr>"

text \<open>One exchange with a node: the answer is logged and the node may have changed.\<close>

definition l2_get ::
  "('l, 'b) engine_env \<Rightarrow> payload_id \<Rightarrow> payload_version \<Rightarrow> ('l, 'b) rollup_boost_server
     \<Rightarrow> op_execution_payload_envelope client_result \<times> observation \<times> ('l, 'b) rollup_boost_server" where
  "l2_get env pid v s =
     (let (r, l) = ea_get_payload (env_l2 env) pid v (rb_l2_client s)
      in (r, L2GotPayload pid v r, s\<lparr>rb_l2_client := l\<rparr>))"

definition l2_new ::
  "('l, 'b) engine_env \<Rightarrow> new_payload \<Rightarrow> ('l, 'b) rollup_boost_server
     \<Rightarrow> payload_status client_result \<times> observation \<times> ('l, 'b) rollup_boost_server" where
  "l2_new env np s =
     (let (r, l) = ea_new_payload (env_l2 env) np (rb_l2_client s)
      in (r, L2Validated np r, s\<lparr>rb_l2_client := l\<rparr>))"

definition l2_fcu ::
  "('l, 'b) engine_env \<Rightarrow> forkchoice_state \<Rightarrow> op_payload_attributes option \<Rightarrow> ('l, 'b) rollup_boost_server
     \<Rightarrow> forkchoice_updated client_result \<times> observation \<times> ('l, 'b) rollup_boost_server" where
  "l2_fcu env fcs attrs s =
     (let (r, l) = ea_fork_choice_updated_v3 (env_l2 env) fcs attrs (rb_l2_client s)
      in (r, L2Updated fcs attrs r, s\<lparr>rb_l2_client := l\<rparr>))"

definition bld_get ::
  "('l, 'b) engine_env \<Rightarrow> payload_id \<Rightarrow> payload_version \<Rightarrow> ('l, 'b) rollup_boost_server
     \<Rightarrow> op_execution_payload_envelope client_result \<times> observation \<times> ('l, 'b) rollup_boost_server" where
  "bld_get env pid v s =
     (let (r, b) = ea_get_payload (env_builder env) pid v (rb_builder_client s)
      in (r, BuilderGotPayload pid v r, s\<lparr>rb_builder_client := b\<rparr>))"

definition bld_fcu ::
  "('l, 'b) engine_env \<Rightarrow> forkchoice_state \<Rightarrow> op_payload_attributes option \<Rightarrow> ('l, 'b) rollup_boost_server
     \<Rightarrow> forkchoice_updated client_result \<times> observation \<times> ('l, 'b) rollup_boost_server" where
  "bld_fcu env fcs attrs s =
     (let (r, b) = ea_fork_choice_updated_v3 (env_builder env) fcs attrs (rb_builder_client s)
      in (r, BuilderUpdated fcs attrs r, s\<lparr>rb_builder_client := b\<rparr>))"

definition no_builder_payload :: "bool \<Rightarrow> builder_payload_result rpc_outcome" where
  "no_builder_payload failed = RpcOk \<lparr>bpr_payload = None, bpr_builder_api_failed = failed\<rparr>"

definition builder_payload_found :: "op_execution_payload_envelope \<Rightarrow> builder_payload_result rpc_outcome" where
  "builder_payload_found p = RpcOk \<lparr>bpr_payload = Some p, bpr_builder_api_failed = False\<rparr>"

fun bf_step ::
  "('l, 'b) engine_env \<Rightarrow> payload_id \<Rightarrow> payload_version
     \<Rightarrow> bf_pc \<times> observation list \<times> ('l, 'b) rollup_boost_server
     \<Rightarrow> bf_pc \<times> observation list \<times> ('l, 'b) rollup_boost_server" where
  "bf_step env pid v (BfLookup, log, s) =
     (if has_builder_payload (rb_payload_trace_context s) pid then (BfAsk, log, s)
      else (BfEnded (no_builder_payload True), log, s))"
| "bf_step env pid v (BfAsk, log, s) =
     (case bld_get env pid v s of
        (Inl e, obs, s1) \<Rightarrow> (BfEnded (no_builder_payload True), log @ [obs], s1)
      | (Inr payload, obs, s1) \<Rightarrow>
          (if rb_external_state_root s1 then BfRecall payload else BfValidate payload, log @ [obs], s1))"
| "bf_step env pid v (BfValidate payload, log, s) =
     (case l2_new env (new_payload_from_envelope payload) s of
        (Inl e, obs, s1) \<Rightarrow> (BfEnded (RpcErr (error_object_from e)), log @ [obs], s1)
      | (Inr _, obs, s1) \<Rightarrow> (BfEnded (builder_payload_found payload), log @ [obs], s1))"
| "bf_step env pid v (BfRecall payload, log, s) =
     (case rb_payload_to_fcu_request s pid of
        None \<Rightarrow> (BfEnded RpcPanic, log, s)
      | Some (fcs, attrs) \<Rightarrow>
          (BfRecompute fcs attrs payload, log @ [Recalled pid fcs attrs],
           s\<lparr>rb_payload_to_fcu_request := (rb_payload_to_fcu_request s)(pid := None)\<rparr>))"
| "bf_step env pid v (BfRecompute fcs attrs payload, log, s) =
     (case l2_fcu env fcs (Some (external_payload_attrs attrs payload)) s of
        (Inl e, obs, s1) \<Rightarrow> (BfEnded (RpcErr (error_object_from e)), log @ [obs], s1)
      | (Inr l2_result, obs, s1) \<Rightarrow>
          (case fu_payload_id l2_result of
             None \<Rightarrow> BfEnded (no_builder_payload False)
           | Some new_payload_id \<Rightarrow> BfFetch new_payload_id, log @ [obs], s1))"
| "bf_step env pid v (BfFetch new_payload_id, log, s) =
     (case l2_get env new_payload_id v s of
        (Inl e, obs, s1) \<Rightarrow> (BfEnded (no_builder_payload False), log @ [obs], s1)
      | (Inr payload, obs, s1) \<Rightarrow> (BfEnded (builder_payload_found payload), log @ [obs], s1))"
| "bf_step env pid v (BfEnded r, log, s) = (BfEnded r, log, s)"

text \<open>The \<^verbatim>\<open>join!\<close> of \<^verbatim>\<open>get_payload\<close>; a panic in a branch is one of the whole task.\<close>

definition branch_polled ::
  "payload_id \<Rightarrow> payload_version \<Rightarrow> op_execution_payload_envelope client_result option \<Rightarrow> bf_pc \<Rightarrow> get_pc" where
  "branch_polled pid v l2 bf = (if bf = BfEnded RpcPanic then GetReturned pid v RpcPanic else GetJoin pid v l2 bf)"

definition get_join_step ::
  "('l, 'b) engine_env \<Rightarrow> bool \<Rightarrow> payload_id \<Rightarrow> payload_version
     \<Rightarrow> op_execution_payload_envelope client_result option \<Rightarrow> bf_pc \<Rightarrow> observation list
     \<Rightarrow> ('l, 'b) rollup_boost_server
     \<Rightarrow> get_pc \<times> observation list \<times> ('l, 'b) rollup_boost_server" where
  "get_join_step env poll_l2 pid v l2 bf log s =
     (case (l2, bf) of
        (Some (Inl e), BfEnded _) \<Rightarrow>
          (GetReturned pid v (RpcErr (error_object_from e)), log, rb_set_health ServiceUnavailable s)
      | (Some (Inr l2_payload), BfEnded r) \<Rightarrow>
          (GetChoose pid v l2_payload (offer r) (api_failed r), log, rb_set_health Healthy s)
      | _ \<Rightarrow>
          if poll_l2 then
            (case l2 of
               Some _ \<Rightarrow> (GetJoin pid v l2 bf, log, s)
             | None \<Rightarrow> (let (r, obs, s1) = l2_get env pid v s in (GetJoin pid v (Some r) bf, log @ [obs], s1)))
          else
            apfst (branch_polled pid v l2) (bf_step env pid v (bf, log, s)))"

fun get_step ::
  "('l, 'b) engine_env \<Rightarrow> bool \<Rightarrow> get_pc \<times> observation list \<times> ('l, 'b) rollup_boost_server
     \<Rightarrow> get_pc \<times> observation list \<times> ('l, 'b) rollup_boost_server" where
  "get_step env poll_l2 (GetEntry pid v, log, s) =
     (if is_disabled (rb_execution_mode s) then GetL2Only pid v else GetJoin pid v None BfLookup,
      log @ [SawMode (rb_execution_mode s)], s)"
| "get_step env poll_l2 (GetL2Only pid v, log, s) =
     (let (r, obs, s1) = l2_get env pid v s in (GetSettle pid v r, log @ [obs], s1))"
| "get_step env poll_l2 (GetSettle pid v (Inr payload), log, s) =
     (GetReturned pid v (RpcOk payload), log, rb_count_block L2 (rb_set_health Healthy s))"
| "get_step env poll_l2 (GetSettle pid v (Inl e), log, s) =
     (GetReturned pid v (RpcErr (error_object_from e)), log, rb_set_health ServiceUnavailable s)"
| "get_step env poll_l2 (GetJoin pid v l2 bf, log, s) = get_join_step env poll_l2 pid v l2 bf log s"
| "get_step env poll_l2 (GetChoose pid v l2_payload (Some builder_payload) failed, log, s) =
     (let ((payload, context), s1) = choose_payload l2_payload (Some builder_payload) failed s
      in (GetReturned pid v (RpcOk payload), log @ [SawMode (rb_execution_mode s)], rb_count_block context s1))"
| "get_step env poll_l2 (GetChoose pid v l2_payload None failed, log, s) =
     (if is_enabled (rb_execution_mode s) \<and> failed
      then (GetDegrade pid v l2_payload, log @ [SawMode (rb_execution_mode s)], s)
      else (GetReturned pid v (RpcOk l2_payload), log @ [SawMode (rb_execution_mode s)], rb_count_block L2 s))"
| "get_step env poll_l2 (GetDegrade pid v l2_payload, log, s) =
     (GetReturned pid v (RpcOk l2_payload), log, rb_count_block L2 (rb_set_health PartialContent s))"
| "get_step env poll_l2 (pc, log, s) = (pc, log, s)"

text \<open>
  \<^verbatim>\<open>fork_choice_updated_v3\<close>. \<open>FcuStoreId\<close> and \<open>FcuListId\<close> are the two cache writes of \<^verbatim>\<open>store\<close>; the flag after the
  attributes says whether the update is then remembered (it is not when the transaction pool is disabled).
\<close>

fun fcu_step ::
  "('l, 'b) engine_env \<Rightarrow> bool \<Rightarrow> fcu_pc \<times> observation list \<times> ('l, 'b) rollup_boost_server
     \<Rightarrow> fcu_pc \<times> observation list \<times> ('l, 'b) rollup_boost_server" where
  "fcu_step env poll_l2 (FcuEntry fcs attrs, log, s) =
     (if is_disabled (rb_execution_mode s) then FcuForward fcs attrs else FcuHealth fcs attrs,
      log @ [SawMode (rb_execution_mode s)], s)"
| "fcu_step env poll_l2 (FcuHealth fcs attrs, log, s) =
     (if should_skip_unhealthy_builder s then (FcuForward fcs attrs, log, s)
      else (case attrs of
              Some a \<Rightarrow>
                (if (case opa_no_tx_pool a of Some no_tx_pool \<Rightarrow> no_tx_pool | None \<Rightarrow> False)
                 then FcuNoPool fcs a else FcuBoth fcs a None None, log, s)
            | None \<Rightarrow> (FcuPlain fcs, log, rb_spawn (SpawnForkChoiceUpdated fcs None) s)))"
| "fcu_step env poll_l2 (FcuForward fcs attrs, log, s) =
     (let (r, obs, s1) = l2_fcu env fcs attrs s in (FcuReturned fcs attrs (outcome_of r), log @ [obs], s1))"
| "fcu_step env poll_l2 (FcuNoPool fcs a, log, s) =
     (case l2_fcu env fcs (Some a) s of
        (Inl e, obs, s1) \<Rightarrow> (FcuReturned fcs (Some a) (RpcErr (error_object_from e)), log @ [obs], s1)
      | (Inr l2_response, obs, s1) \<Rightarrow>
          (case fu_payload_id l2_response of
             Some pid \<Rightarrow> FcuStoreId pid fcs (Some a) False False l2_response
           | None \<Rightarrow> FcuReturned fcs (Some a) (RpcOk l2_response), log @ [obs], s1))"
| "fcu_step env poll_l2 (FcuBoth fcs a (Some l2) (Some bld), log, s) =
     (case l2 of
        Inl e \<Rightarrow> (FcuReturned fcs (Some a) (RpcErr (error_object_from e)), log, s)
      | Inr l2_response \<Rightarrow>
          (case fu_payload_id l2_response of
             Some pid \<Rightarrow> FcuStoreId pid fcs (Some a) (\<not> isl bld) True l2_response
           | None \<Rightarrow> FcuReturned fcs (Some a) (RpcOk l2_response), log, s))"
| "fcu_step env poll_l2 (FcuBoth fcs a l2 bld, log, s) =
     (if poll_l2 then
        (case l2 of
           Some _ \<Rightarrow> (FcuBoth fcs a l2 bld, log, s)
         | None \<Rightarrow> (let (r, obs, s1) = l2_fcu env fcs (Some a) s in (FcuBoth fcs a (Some r) bld, log @ [obs], s1)))
      else
        (case bld of
           Some _ \<Rightarrow> (FcuBoth fcs a l2 bld, log, s)
         | None \<Rightarrow> (let (r, obs, s1) = bld_fcu env fcs (Some a) s in (FcuBoth fcs a l2 (Some r), log @ [obs], s1))))"
| "fcu_step env poll_l2 (FcuPlain fcs, log, s) =
     (case l2_fcu env fcs None s of
        (Inl e, obs, s1) \<Rightarrow> (FcuReturned fcs None (RpcErr (error_object_from e)), log @ [obs], s1)
      | (Inr l2_response, obs, s1) \<Rightarrow>
          (case fu_payload_id l2_response of
             Some pid \<Rightarrow> FcuRemember pid fcs None l2_response
           | None \<Rightarrow> FcuReturned fcs None (RpcOk l2_response), log @ [obs], s1))"
| "fcu_step env poll_l2 (FcuStoreId pid fcs attrs has remember l2_response, log, s) =
     (FcuListId pid fcs attrs remember l2_response, log,
      rb_trace (store_id (env_cache env) pid has (env_span env)) s)"
| "fcu_step env poll_l2 (FcuListId pid fcs attrs remember l2_response, log, s) =
     (if remember then FcuRemember pid fcs attrs l2_response else FcuReturned fcs attrs (RpcOk l2_response), log,
      rb_trace (list_id (env_cache env) pid (fcs_head_block_hash fcs)) s)"
| "fcu_step env poll_l2 (FcuRemember pid fcs attrs l2_response, log, s) =
     (FcuReturned fcs attrs (RpcOk l2_response), log, rb_remember_fcu pid fcs attrs s)"
| "fcu_step env poll_l2 (pc, log, s) = (pc, log, s)"

text \<open>\<^verbatim>\<open>new_payload\<close> and \<^verbatim>\<open>get_block_by_number\<close>.\<close>

fun new_step ::
  "('l, 'b) engine_env \<Rightarrow> new_pc \<times> observation list \<times> ('l, 'b) rollup_boost_server
     \<Rightarrow> new_pc \<times> observation list \<times> ('l, 'b) rollup_boost_server" where
  "new_step env (NewEntry np, log, s) =
     (let (pids, ctx) = unlist (ep_parent_hash (execution_payload_from_new_payload np)) (rb_payload_trace_context s)
      in (NewForget np pids, log, s\<lparr>rb_payload_trace_context := ctx\<rparr>))"
| "new_step env (NewForget np (pid # pids), log, s) = (NewForget np pids, log, rb_trace (forget_id pid) s)"
| "new_step env (NewForget np [], log, s) = (NewMode np, log, s)"
| "new_step env (NewMode np, log, s) =
     (if is_disabled (rb_execution_mode s) then NewSend np else NewHealth np, log @ [SawMode (rb_execution_mode s)], s)"
| "new_step env (NewHealth np, log, s) =
     (NewSend np, log, if should_skip_unhealthy_builder s then s else rb_spawn (SpawnNewPayload np) s)"
| "new_step env (NewSend np, log, s) =
     (let (r, obs, s1) = l2_new env np s in (NewReturned np (outcome_of r), log @ [obs], s1))"
| "new_step env (NewReturned np r, log, s) = (NewReturned np r, log, s)"

fun block_step ::
  "('l, 'b) engine_env \<Rightarrow> block_pc \<times> observation list \<times> ('l, 'b) rollup_boost_server
     \<Rightarrow> block_pc \<times> observation list \<times> ('l, 'b) rollup_boost_server" where
  "block_step env (BlockEntry number full, log, s) =
     (let (r, l) = ea_get_block_by_number (env_l2 env) number full (rb_l2_client s)
      in (BlockReturned number full (outcome_of r), log @ [L2GotBlock number full r], s\<lparr>rb_l2_client := l\<rparr>))"
| "block_step env (BlockReturned number full r, log, s) = (BlockReturned number full r, log, s)"

fun rq_step ::
  "('l, 'b) engine_env \<Rightarrow> bool \<Rightarrow> rq_pc \<times> observation list \<times> ('l, 'b) rollup_boost_server
     \<Rightarrow> rq_pc \<times> observation list \<times> ('l, 'b) rollup_boost_server" where
  "rq_step env poll_l2 (RqGet pc, x) = apfst RqGet (get_step env poll_l2 (pc, x))"
| "rq_step env poll_l2 (RqFcu pc, x) = apfst RqFcu (fcu_step env poll_l2 (pc, x))"
| "rq_step env poll_l2 (RqNew pc, x) = apfst RqNew (new_step env (pc, x))"
| "rq_step env poll_l2 (RqBlock pc, x) = apfst RqBlock (block_step env (pc, x))"

section \<open>The running server\<close>

text \<open>
  A task has a log of its own. \<open>Proceed i poll_l2\<close> is a step of task \<open>i\<close>; besides, the debug API changes the mode,
  the health loop runs, detached tasks run and the nodes change by themselves.
\<close>

datatype request =
    ForkChoiceUpdatedV3 forkchoice_state "op_payload_attributes option"
  | GetPayloadRequest payload_id payload_version
  | NewPayloadRequest new_payload
  | GetBlockRequest block_number_or_tag bool

fun request_entry :: "request \<Rightarrow> rq_pc" where
  "request_entry (ForkChoiceUpdatedV3 fcs attrs) = RqFcu (FcuEntry fcs attrs)"
| "request_entry (GetPayloadRequest pid v) = RqGet (GetEntry pid v)"
| "request_entry (NewPayloadRequest np) = RqNew (NewEntry np)"
| "request_entry (GetBlockRequest number full) = RqBlock (BlockEntry number full)"

record ('l, 'b) sv_state =
  sv_server :: "('l, 'b) rollup_boost_server"
  sv_tasks :: "(rq_pc \<times> observation list) list"

datatype ('l, 'b) sv_action =
    Arrive request
  | Proceed nat bool
  | ChangeMode execution_mode
  | CheckHealth u64 nat nat monotonic_timestamp
  | RunDetached
  | NodesChange 'l 'b

fun sv_exec ::
  "('l, 'b) engine_env \<Rightarrow> ('l, 'b) sv_action \<Rightarrow> ('l, 'b) sv_state \<Rightarrow> ('l, 'b) sv_state" where
  "sv_exec env (Arrive rq) c = c\<lparr>sv_tasks := sv_tasks c @ [(request_entry rq, [])]\<rparr>"
| "sv_exec env (Proceed i poll_l2) c =
     (if i < length (sv_tasks c)
      then (let (pc, log) = sv_tasks c ! i;
                (pc1, log1, s1) = rq_step env poll_l2 (pc, log, sv_server c)
            in c\<lparr>sv_server := s1, sv_tasks := (sv_tasks c)[i := (pc1, log1)]\<rparr>)
      else c)"
| "sv_exec env (ChangeMode mode) c = c\<lparr>sv_server := set_execution_mode mode (sv_server c)\<rparr>"
| "sv_exec env (CheckHealth max_unsafe now1 now2 ts) c =
     c\<lparr>sv_server := snd (server_health_check env max_unsafe now1 now2 ts (sv_server c))\<rparr>"
| "sv_exec env RunDetached c = c\<lparr>sv_server := run_spawned env (sv_server c)\<rparr>"
| "sv_exec env (NodesChange l b) c =
     c\<lparr>sv_server := (sv_server c)\<lparr>rb_l2_client := l, rb_builder_client := b\<rparr>\<rparr>"

inductive sv_step :: "('l, 'b) engine_env \<Rightarrow> ('l, 'b) sv_state \<Rightarrow> ('l, 'b) sv_state \<Rightarrow> bool" for env where
  sv_action: "sv_step env c (sv_exec env a c)"

definition sv_init :: "('l, 'b) sv_state \<Rightarrow> bool" where
  "sv_init c \<longleftrightarrow> sv_tasks c = [] \<and>
     (\<exists>l b mode policy probes ext ignore.
        sv_server c = rollup_boost_server_new l b mode policy probes ext ignore)"

lemma sv_reach_run: "sv_init c \<Longrightarrow> reach sv_init (sv_step env) (fold (sv_exec env) as c)"
  by (induction as rule: rev_induct) (auto intro: reach_init reach_step sv_action)

section \<open>Uninterrupted requests\<close>

lemma store_halves: "list_id ev pid h (store_id ev pid has tid ctx) = store ev pid h has tid ctx"
  by (simp add: list_id_def store_id_def store_def Let_def)

lemma remove_steps:
  "remove_by_parent_hash h ctx = (let (pids, ctx1) = unlist h ctx in fold forget_id pids ctx1)"
proof -
  have "fold forget_id pids ctx = ctx\<lparr>ctx_payload_id := fold (\<lambda>pid m. m(pid := None)) pids (ctx_payload_id ctx)\<rparr>"
    for pids and ctx :: payload_trace_context
    by (induction pids arbitrary: ctx) (simp_all add: forget_id_def)
  then show ?thesis by (auto simp: remove_by_parent_hash_def unlist_def split: option.split)
qed

fun request_result ::
  "('l, 'b) engine_env \<Rightarrow> request \<Rightarrow> ('l, 'b) rollup_boost_server \<Rightarrow> rq_pc \<times> ('l, 'b) rollup_boost_server" where
  "request_result env (ForkChoiceUpdatedV3 fcs attrs) s =
     apfst (RqFcu \<circ> FcuReturned fcs attrs) (fork_choice_updated_v3 env fcs attrs s)"
| "request_result env (GetPayloadRequest pid v) s = apfst (RqGet \<circ> GetReturned pid v) (get_payload env pid v s)"
| "request_result env (NewPayloadRequest np) s = apfst (RqNew \<circ> NewReturned np) (server_new_payload env np s)"
| "request_result env (GetBlockRequest number full) s =
     apfst (RqBlock \<circ> BlockReturned number full) (server_get_block_by_number env number full s)"

lemma bf_steps:
  obtains log' where "(bf_step env pid v ^^ 5) (BfLookup, log, s) =
    (BfEnded (fst (builder_fut env pid v s)), log', snd (builder_fut env pid v s))"
proof -
  have "\<exists>log'. (bf_step env pid v ^^ 5) (BfLookup, log, s) =
    (BfEnded (fst (builder_fut env pid v s)), log', snd (builder_fut env pid v s))"
    by (auto simp: eval_nat_numeral builder_fut_def calculate_external_state_root_def bld_get_def l2_new_def l2_fcu_def
        l2_get_def no_builder_payload_def builder_payload_found_def Let_def
        split: prod.split sum.split option.split)
  with that show thesis by blast
qed

text \<open>Polling only the builder's branch of the \<^verbatim>\<open>join!\<close> runs that branch.\<close>

lemma get_join_builder:
  "bf \<notin> range BfEnded \<Longrightarrow> get_step env False (GetJoin pid v l2 bf, log, s) =
     apfst (branch_polled pid v l2) (bf_step env pid v (bf, log, s))"
  by (cases bf; cases l2) (simp_all add: get_join_step_def del: bf_step.simps split: sum.split)

lemma join_run:
  assumes "(bf_step env pid v ^^ n) (bf, log, s) = (BfEnded r, log', s')" "bf \<notin> range BfEnded"
  shows "\<exists>polls. fold (get_step env) polls (GetJoin pid v l2 bf, log, s) =
    (branch_polled pid v l2 (BfEnded r), log', s')"
  using assms
proof (induction n arbitrary: bf log s)
  case (Suc n)
  obtain bf1 log1 s1 where st: "bf_step env pid v (bf, log, s) = (bf1, log1, s1)" by (metis surj_pair)
  from Suc.prems(1) have run: "(bf_step env pid v ^^ n) (bf1, log1, s1) = (BfEnded r, log', s')"
    by (simp only: funpow_Suc_right comp_def st)
  note poll = get_join_builder [OF Suc.prems(2), of env pid v l2 log s, unfolded st]
  show ?case
  proof (cases "bf1 \<in> range BfEnded")
    case True
    then obtain r1 where bf1: "bf1 = BfEnded r1" by blast
    have "(bf_step env pid v ^^ n) (bf1, log1, s1) = (bf1, log1, s1)" by (rule funpow_fixpoint) (simp add: bf1)
    with run bf1 have "r1 = r" "log1 = log'" "s1 = s'" by auto
    with poll bf1 show ?thesis
      by (intro exI [where x = "[False]"]) simp
  next
    case False
    with Suc.IH [OF run] obtain polls where
      "fold (get_step env) polls (GetJoin pid v l2 bf1, log1, s1) =
        (branch_polled pid v l2 (BfEnded r), log', s')" by blast
    moreover from poll False have "get_step env False (GetJoin pid v l2 bf, log, s) = (GetJoin pid v l2 bf1, log1, s1)"
      by (auto simp: branch_polled_def)
    ultimately show ?thesis by (intro exI [where x = "False # polls"]) simp
  qed
qed simp

lemma settle_run:
  assumes "r \<noteq> RpcPanic"
  shows "\<exists>polls log'. fold (get_step env) polls (GetJoin pid v (Some l2) (BfEnded r), log, s) =
    (GetReturned pid v (fst (select_payload l2 r s)), log', snd (select_payload l2 r s))"
proof (cases l2)
  case (Inl e)
  then show ?thesis
    by (intro exI [where x = "[True]"]) (simp add: get_join_step_def)
next
  case (Inr p)
  show ?thesis
  proof (cases "offer r")
    case None
    then show ?thesis
      using assms Inr
      by (intro exI [where x = "[True, True, True]"])
        (cases r, auto simp: get_join_step_def select_payload_def choose_payload_def rb_set_health_def)
  next
    case (Some b)
    then show ?thesis
      using assms Inr
      by (intro exI [where x = "[True, True]"])
        (cases r, auto simp: get_join_step_def select_payload_def split: prod.split)
  qed
qed

lemma get_run:
  "\<exists>polls log'. fold (get_step env) polls (GetEntry pid v, log, s) =
    (GetReturned pid v (fst (get_payload env pid v s)), log', snd (get_payload env pid v s))"
proof (cases "rb_execution_mode s = Disabled")
  case True
  then show ?thesis
    by (intro exI [where x = "[True, True, True]"])
      (auto simp: get_payload_def get_payload_disabled_def l2_get_def split: prod.split sum.split)
next
  case False
  obtain l2 l where l2: "ea_get_payload (env_l2 env) pid v (rb_l2_client s) = (l2, l)" by fastforce
  obtain r t where r: "builder_fut env pid v (s\<lparr>rb_l2_client := l\<rparr>) = (r, t)" by fastforce
  let ?log = "log @ [SawMode (rb_execution_mode s), L2GotPayload pid v l2]"
  have "fold (get_step env) [True, True] (GetEntry pid v, log, s) =
      (GetJoin pid v (Some l2) BfLookup, ?log, s\<lparr>rb_l2_client := l\<rparr>)"
    using False l2 by (simp add: get_join_step_def l2_get_def)
  moreover obtain log1 where "(bf_step env pid v ^^ 5) (BfLookup, ?log, s\<lparr>rb_l2_client := l\<rparr>) = (BfEnded r, log1, t)"
    using bf_steps [of env pid v ?log "s\<lparr>rb_l2_client := l\<rparr>"] r by auto
  from join_run [OF this, of "Some l2"] obtain polls where
    "fold (get_step env) polls (GetJoin pid v (Some l2) BfLookup, ?log, s\<lparr>rb_l2_client := l\<rparr>) =
       (branch_polled pid v (Some l2) (BfEnded r), log1, t)" by auto
  ultimately have joined: "fold (get_step env) ([True, True] @ polls) (GetEntry pid v, log, s) =
       (branch_polled pid v (Some l2) (BfEnded r), log1, t)"
    by (simp only: fold_append comp_def)
  show ?thesis
  proof (cases "r = RpcPanic")
    case True
    with joined show ?thesis
      by (simp only: get_payload_enabled [OF False l2 r] branch_polled_def simp_thms if_True fst_conv snd_conv) blast
  next
    case ok: False
    obtain polls2 log2 where "fold (get_step env) polls2 (GetJoin pid v (Some l2) (BfEnded r), log1, t) =
        (GetReturned pid v (fst (select_payload l2 r t)), log2, snd (select_payload l2 r t))"
      using settle_run [OF ok] by blast
    moreover have "branch_polled pid v (Some l2) (BfEnded r) = GetJoin pid v (Some l2) (BfEnded r)"
      using ok by (simp add: branch_polled_def)
    ultimately have "fold (get_step env) (([True, True] @ polls) @ polls2) (GetEntry pid v, log, s) =
        (GetReturned pid v (fst (select_payload l2 r t)), log2, snd (select_payload l2 r t))"
      using joined by (simp only: fold_append comp_def)
    with ok show ?thesis
      by (simp only: get_payload_enabled [OF False l2 r] if_False) blast
  qed
qed

lemma rb_store_halves:
  "rb_trace (list_id (env_cache env) pid (fcs_head_block_hash fcs))
     (rb_trace (store_id (env_cache env) pid has (env_span env)) s) = rb_store env pid fcs has s"
  by (simp add: rb_trace_def rb_store_def store_halves)

lemma fcu_run:
  "\<exists>polls log'. fold (fcu_step env) polls (FcuEntry fcs attrs, log, s) =
    (FcuReturned fcs attrs (fst (fork_choice_updated_v3 env fcs attrs s)), log',
     snd (fork_choice_updated_v3 env fcs attrs s))"
proof -
  consider (forwarded) "rb_execution_mode s = Disabled \<or> should_skip_unhealthy_builder s"
    | (plain) "rb_execution_mode s \<noteq> Disabled" "\<not> should_skip_unhealthy_builder s" "attrs = None"
    | (building) a where "rb_execution_mode s \<noteq> Disabled" "\<not> should_skip_unhealthy_builder s" "attrs = Some a"
    by (cases attrs) auto
  then show ?thesis
  proof cases
    case forwarded
    then show ?thesis
      by (intro exI [where x = "[True, True, True]"])
        (auto simp: fork_choice_updated_v3_def fcu_l2_only_def l2_fcu_def split: prod.split)
  next
    case plain
    then show ?thesis
      by (intro exI [where x = "[True, True, True, True]"])
        (auto simp: fcu_defs l2_fcu_def split: prod.split sum.split option.split)
  next
    case building
    then show ?thesis
      by (intro exI [where x = "[True, True, True, False, True, True, True, True]"])
        (auto simp: fcu_defs l2_fcu_def bld_fcu_def rb_store_halves
          split: prod.split sum.split option.split)
  qed
qed

lemma forget_run:
  "(new_step env ^^ length pids) (NewForget np pids, log, s) =
     (NewForget np [], log, rb_trace (fold forget_id pids) s)"
  by (induction pids arbitrary: s) (simp_all add: funpow_swap1 rb_trace_def)

lemma new_run:
  "\<exists>n log'. (new_step env ^^ n) (NewEntry np, log, s) =
    (NewReturned np (fst (server_new_payload env np s)), log', snd (server_new_payload env np s))"
proof -
  let ?h = "ep_parent_hash (execution_payload_from_new_payload np)"
  obtain pids ctx where u: "unlist ?h (rb_payload_trace_context s) = (pids, ctx)" by fastforce
  let ?s = "s\<lparr>rb_payload_trace_context := remove_by_parent_hash ?h (rb_payload_trace_context s)\<rparr>"
  have "(new_step env ^^ (length pids + 1)) (NewEntry np, log, s) = (NewForget np [], log, ?s)"
    using forget_run [of pids env np log "s\<lparr>rb_payload_trace_context := ctx\<rparr>"] u
    by (simp add: funpow_swap1 remove_steps rb_trace_def)
  moreover have "\<exists>log'. (new_step env ^^ 4) (NewForget np [], log, ?s) =
      (NewReturned np (fst (server_new_payload env np s)), log', snd (server_new_payload env np s))"
    by (auto simp: eval_nat_numeral server_new_payload_def l2_new_def split: prod.split)
  ultimately have "\<exists>log'. (new_step env ^^ (4 + (length pids + 1))) (NewEntry np, log, s) =
      (NewReturned np (fst (server_new_payload env np s)), log', snd (server_new_payload env np s))"
    by (simp only: funpow_add comp_def)
  then show ?thesis by blast
qed

lemma rq_step_fold:
  "fold (rq_step env) polls (RqGet pc, x) = apfst RqGet (fold (get_step env) polls (pc, x))"
  "fold (rq_step env) polls (RqFcu pc', x) = apfst RqFcu (fold (fcu_step env) polls (pc', x))"
  "fold (rq_step env) (replicate n True) (RqNew pc'', x) = apfst RqNew ((new_step env ^^ n) (pc'', x))"
proof -
  show "fold (rq_step env) polls (RqGet pc, x) = apfst RqGet (fold (get_step env) polls (pc, x))"
  proof (induction polls arbitrary: pc x)
    case (Cons p polls)
    then show ?case by (cases "get_step env p (pc, x)") simp
  qed simp
  show "fold (rq_step env) polls (RqFcu pc', x) = apfst RqFcu (fold (fcu_step env) polls (pc', x))"
  proof (induction polls arbitrary: pc' x)
    case (Cons p polls)
    then show ?case by (cases "fcu_step env p (pc', x)") simp
  qed simp
  show "fold (rq_step env) (replicate n True) (RqNew pc'', x) = apfst RqNew ((new_step env ^^ n) (pc'', x))"
  proof (induction n arbitrary: pc'' x)
    case (Suc n)
    then show ?case by (cases "new_step env (pc'', x)") (simp add: funpow_swap1)
  qed simp
qed


end
