(* ===== verification/Server_Async.thy ===== *)
theory Server_Async
  imports Server_Tasks
begin

text \<open>
  What the running server answers, for every interleaving of its tasks with mode changes, health checks, detached
  tasks and changes of the nodes: the block returned is the L2 client's or one it approved within the same request,
  every other response is the L2 client's, and each returned block is counted once. \<open>task_ok\<close> says what a task
  knows at each program counter; it only depends on the task and its log, so that the steps of the others keep it.
\<close>

section \<open>What a task knows\<close>

text \<open>The L2 client approved of a block for this id, within what the log records (compare \<open>vetted\<close>).\<close>

definition approved ::
  "engine_lib \<Rightarrow> bool \<Rightarrow> payload_id \<Rightarrow> payload_version \<Rightarrow> observation list \<Rightarrow> op_execution_payload_envelope \<Rightarrow> bool" where
  "approved lib ext pid v log p \<longleftrightarrow>
     (\<exists>b. BuilderGotPayload pid v (Inr b) \<in> set log \<and>
        (if ext then
           \<exists>fcs attrs fu id. Recalled pid fcs attrs \<in> set log \<and>
             L2Updated fcs (Some (external_payload_attrs attrs b)) (Inr fu) \<in> set log \<and>
             \<not> lib_is_invalid lib (ps_status (fu_payload_status fu)) \<and>
             fu_payload_id fu = Some id \<and> L2GotPayload id v (Inr p) \<in> set log
         else p = b \<and>
           (\<exists>st. L2Validated (new_payload_from_envelope b) (Inr st) \<in> set log \<and>
              \<not> lib_is_invalid lib (ps_status st))))"

text \<open>The outcome is what the node answered in a recorded exchange.\<close>

definition answered_by :: "('a client_result \<Rightarrow> observation) \<Rightarrow> observation list \<Rightarrow> 'a rpc_outcome \<Rightarrow> bool" where
  "answered_by exchange log out \<longleftrightarrow> (\<exists>r. exchange r \<in> set log \<and> out = outcome_of r)"

lemma answered_byI [intro!]:
  "exchange (Inl e) \<in> set log \<Longrightarrow> answered_by exchange log (RpcErr (error_object_from e))"
  "exchange (Inr a) \<in> set log \<Longrightarrow> answered_by exchange log (RpcOk a)"
  "exchange r \<in> set log \<Longrightarrow> answered_by exchange log (outcome_of r)"
  unfolding answered_by_def by force+

text \<open>A recorded answer is one the node gives in some state.\<close>

fun truthful :: "('l, 'b) engine_env \<Rightarrow> observation \<Rightarrow> bool" where
  "truthful env (L2GotPayload pid v r) \<longleftrightarrow> (\<exists>w. r = fst (ea_get_payload (env_l2 env) pid v w))"
| "truthful env (L2Validated np r) \<longleftrightarrow> (\<exists>w. r = fst (ea_new_payload (env_l2 env) np w))"
| "truthful env (L2Updated fcs attrs r) \<longleftrightarrow> (\<exists>w. r = fst (ea_fork_choice_updated_v3 (env_l2 env) fcs attrs w))"
| "truthful env (L2GotBlock number full r) \<longleftrightarrow> (\<exists>w. r = fst (ea_get_block_by_number (env_l2 env) number full w))"
| "truthful env (BuilderGotPayload pid v r) \<longleftrightarrow> (\<exists>w. r = fst (ea_get_payload (env_builder env) pid v w))"
| "truthful env (BuilderUpdated fcs attrs r) \<longleftrightarrow>
     (\<exists>w. r = fst (ea_fork_choice_updated_v3 (env_builder env) fcs attrs w))"
| "truthful env (SawMode m) \<longleftrightarrow> True"
| "truthful env (Recalled pid fcs attrs) \<longleftrightarrow> True"

definition starts_enabled :: "observation list \<Rightarrow> bool" where
  "starts_enabled log \<longleftrightarrow> (\<exists>m rest. log = SawMode m # rest \<and> m \<noteq> Disabled)"

definition ends_wet :: "observation list \<Rightarrow> bool" where
  "ends_wet log \<longleftrightarrow> (\<exists>m rest. log = rest @ [SawMode m] \<and> m \<noteq> DryRun)"

fun asks_builder :: "observation \<Rightarrow> bool" where
  "asks_builder (BuilderGotPayload pid v r) \<longleftrightarrow> True"
| "asks_builder (BuilderUpdated fcs attrs r) \<longleftrightarrow> True"
| "asks_builder obs \<longleftrightarrow> False"

definition quiet :: "observation list \<Rightarrow> bool" where
  "quiet log \<longleftrightarrow> starts_enabled log \<or> \<not> list_ex asks_builder log"

lemma starts_enabled_append [simp]: "starts_enabled log \<Longrightarrow> starts_enabled (log @ obs)"
  by (auto simp: starts_enabled_def)

lemma quiet_enabled [simp]: "starts_enabled log \<Longrightarrow> quiet log"
  by (simp add: quiet_def)

lemma quiet_append [simp]: "quiet log \<Longrightarrow> \<not> asks_builder obs \<Longrightarrow> quiet (log @ [obs])"
  by (auto simp: quiet_def)

lemma quiet_Nil [simp]: "quiet []"
  by (simp add: quiet_def)

lemma approved_append [intro]: "approved lib ext pid v log p \<Longrightarrow> approved lib ext pid v (log @ obs) p"
  unfolding approved_def by (cases ext; simp; blast)

fun bf_ok :: "engine_lib \<Rightarrow> bool \<Rightarrow> payload_id \<Rightarrow> payload_version \<Rightarrow> observation list \<Rightarrow> bf_pc \<Rightarrow> bool" where
  "bf_ok lib ext pid v log BfLookup \<longleftrightarrow> True"
| "bf_ok lib ext pid v log BfAsk \<longleftrightarrow> True"
| "bf_ok lib ext pid v log (BfValidate b) \<longleftrightarrow> \<not> ext \<and> BuilderGotPayload pid v (Inr b) \<in> set log"
| "bf_ok lib ext pid v log (BfRecall b) \<longleftrightarrow> ext \<and> BuilderGotPayload pid v (Inr b) \<in> set log"
| "bf_ok lib ext pid v log (BfRecompute fcs attrs b) \<longleftrightarrow>
     ext \<and> BuilderGotPayload pid v (Inr b) \<in> set log \<and> Recalled pid fcs attrs \<in> set log"
| "bf_ok lib ext pid v log (BfFetch new_id) \<longleftrightarrow>
     ext \<and> (\<exists>b fcs attrs fu. BuilderGotPayload pid v (Inr b) \<in> set log \<and> Recalled pid fcs attrs \<in> set log \<and>
       L2Updated fcs (Some (external_payload_attrs attrs b)) (Inr fu) \<in> set log \<and>
       \<not> lib_is_invalid lib (ps_status (fu_payload_status fu)) \<and> fu_payload_id fu = Some new_id)"
| "bf_ok lib ext pid v log (BfEnded r) \<longleftrightarrow>
     (r = RpcPanic \<longrightarrow> ext) \<and> (\<forall>p. offer r = Some p \<longrightarrow> approved lib ext pid v log p)"

fun get_ok :: "engine_lib \<Rightarrow> bool \<Rightarrow> observation list \<Rightarrow> get_pc \<Rightarrow> bool" where
  "get_ok lib ext log (GetEntry pid v) \<longleftrightarrow> log = []"
| "get_ok lib ext log (GetL2Only pid v) \<longleftrightarrow> quiet log"
| "get_ok lib ext log (GetSettle pid v r) \<longleftrightarrow> quiet log \<and> L2GotPayload pid v r \<in> set log"
| "get_ok lib ext log (GetJoin pid v l2 bf) \<longleftrightarrow>
     starts_enabled log \<and> (\<forall>r. l2 = Some r \<longrightarrow> L2GotPayload pid v r \<in> set log) \<and> bf_ok lib ext pid v log bf"
| "get_ok lib ext log (GetChoose pid v p bp failed) \<longleftrightarrow>
     starts_enabled log \<and> L2GotPayload pid v (Inr p) \<in> set log \<and>
     (\<forall>q. bp = Some q \<longrightarrow> approved lib ext pid v log q)"
| "get_ok lib ext log (GetDegrade pid v p) \<longleftrightarrow> quiet log \<and> L2GotPayload pid v (Inr p) \<in> set log"
| "get_ok lib ext log (GetReturned pid v (RpcOk p)) \<longleftrightarrow> quiet log \<and>
     (L2GotPayload pid v (Inr p) \<in> set log \<or>
      starts_enabled log \<and> ends_wet log \<and> approved lib ext pid v log p)"
| "get_ok lib ext log (GetReturned pid v (RpcErr e)) \<longleftrightarrow> quiet log \<and>
     answered_by (L2GotPayload pid v) log (RpcErr e)"
| "get_ok lib ext log (GetReturned pid v RpcPanic) \<longleftrightarrow> quiet log \<and> ext"

fun fcu_ok :: "observation list \<Rightarrow> fcu_pc \<Rightarrow> bool" where
  "fcu_ok log (FcuEntry fcs attrs) \<longleftrightarrow> log = []"
| "fcu_ok log (FcuHealth fcs attrs) \<longleftrightarrow> starts_enabled log"
| "fcu_ok log (FcuBoth fcs a l2 bld) \<longleftrightarrow>
     starts_enabled log \<and> (\<forall>r. l2 = Some r \<longrightarrow> L2Updated fcs (Some a) r \<in> set log)"
| "fcu_ok log (FcuStoreId pid fcs attrs has remember resp) \<longleftrightarrow>
     quiet log \<and> L2Updated fcs attrs (Inr resp) \<in> set log"
| "fcu_ok log (FcuListId pid fcs attrs remember resp) \<longleftrightarrow> quiet log \<and> L2Updated fcs attrs (Inr resp) \<in> set log"
| "fcu_ok log (FcuRemember pid fcs attrs resp) \<longleftrightarrow> quiet log \<and> L2Updated fcs attrs (Inr resp) \<in> set log"
| "fcu_ok log (FcuReturned fcs attrs out) \<longleftrightarrow>
     quiet log \<and> answered_by (L2Updated fcs attrs) log out"
| "fcu_ok log pc \<longleftrightarrow> quiet log"

fun new_ok :: "observation list \<Rightarrow> new_pc \<Rightarrow> bool" where
  "new_ok log (NewReturned np out) \<longleftrightarrow> quiet log \<and> answered_by (L2Validated np) log out"
| "new_ok log pc \<longleftrightarrow> quiet log"

fun block_ok :: "observation list \<Rightarrow> block_pc \<Rightarrow> bool" where
  "block_ok log (BlockEntry number full) \<longleftrightarrow> quiet log"
| "block_ok log (BlockReturned number full out) \<longleftrightarrow>
     quiet log \<and> answered_by (L2GotBlock number full) log out"

fun task_ok :: "engine_lib \<Rightarrow> bool \<Rightarrow> rq_pc \<times> observation list \<Rightarrow> bool" where
  "task_ok lib ext (RqGet pc, log) \<longleftrightarrow> get_ok lib ext log pc"
| "task_ok lib ext (RqFcu pc, log) \<longleftrightarrow> fcu_ok log pc"
| "task_ok lib ext (RqNew pc, log) \<longleftrightarrow> new_ok log pc"
| "task_ok lib ext (RqBlock pc, log) \<longleftrightarrow> block_ok log pc"

lemma bf_ok_append: "bf_ok lib ext pid v log bf \<Longrightarrow> bf_ok lib ext pid v (log @ obs) bf"
  by (cases bf) auto

lemmas exchange_defs = l2_get_def l2_new_def l2_fcu_def bld_get_def bld_fcu_def

text \<open>The builder's branch keeps its log; the contract of the L2 client makes its approvals real.\<close>

context engine_api_ext
begin

lemma bf_step_ok:
  assumes l2: "env_l2 env = api" and ext: "rb_external_state_root s = ext"
    and ok: "bf_ok lib ext pid v log bf"
    and step: "bf_step env pid v (bf, log, s) = (bf', log', s')"
  shows "bf_ok lib ext pid v log' bf'"
proof (cases bf)
  case (BfValidate b)
  have "\<not> lib_is_invalid lib (ps_status st)"
    if "ea_new_payload (env_l2 env) np w = (Inr st, w')" for np w st w'
    using that l2 new_payload_not_invalid by metis
  with BfValidate ok step show ?thesis
    by (auto simp: exchange_defs builder_payload_found_def approved_def split: prod.splits sum.splits) blast
next
  case (BfRecompute fcs attrs b)
  have "\<not> lib_is_invalid lib (ps_status (fu_payload_status fu))"
    if "ea_fork_choice_updated_v3 (env_l2 env) fcs a w = (Inr fu, w')" for fcs a w fu w'
    using that l2 fork_choice_not_invalid by metis
  with BfRecompute ok step show ?thesis
    by (auto simp: exchange_defs no_builder_payload_def split: prod.splits sum.splits option.splits) blast
next
  case (BfFetch new_id)
  with ok step show ?thesis
    by (auto simp: exchange_defs no_builder_payload_def builder_payload_found_def approved_def
        split: prod.splits sum.splits) blast+
qed (use assms in \<open>auto simp: exchange_defs no_builder_payload_def builder_payload_found_def
    split: prod.splits sum.splits option.splits if_splits\<close>)

end

text \<open>Every step only adds true records to the log.\<close>

definition adds_truth :: "('l, 'b) engine_env \<Rightarrow> observation list \<Rightarrow> observation list \<Rightarrow> bool" where
  "adds_truth env log log' \<longleftrightarrow> (\<exists>new. log' = log @ new \<and> list_all (truthful env) new)"

lemma adds_truth_refl [simp]: "adds_truth env log log"
  by (simp add: adds_truth_def)

lemma adds_truth_snoc [simp]: "adds_truth env log (log @ [obs]) \<longleftrightarrow> truthful env obs"
  by (simp add: adds_truth_def)

lemma truthful_answers [intro]:
  "ea_get_payload (env_l2 env) pid v w = (r, w') \<Longrightarrow> truthful env (L2GotPayload pid v r)"
  "ea_new_payload (env_l2 env) np w = (r1, w') \<Longrightarrow> truthful env (L2Validated np r1)"
  "ea_fork_choice_updated_v3 (env_l2 env) fcs attrs w = (r2, w') \<Longrightarrow> truthful env (L2Updated fcs attrs r2)"
  "ea_get_block_by_number (env_l2 env) number full w = (r3, w') \<Longrightarrow> truthful env (L2GotBlock number full r3)"
  "ea_get_payload (env_builder env) pid v b = (r, b') \<Longrightarrow> truthful env (BuilderGotPayload pid v r)"
  "ea_fork_choice_updated_v3 (env_builder env) fcs attrs b = (r2, b') \<Longrightarrow> truthful env (BuilderUpdated fcs attrs r2)"
  by (simp, metis fst_conv)+

declare truthful.simps(1-6) [simp del]

lemma bf_step_log:
  "bf_step env pid v (bf, log, s) = (bf', log', s') \<Longrightarrow> adds_truth env log log'"
  by (cases bf) (auto simp: exchange_defs split: prod.splits sum.splits option.splits if_splits)

lemma get_join_open:
  "r = None \<or> bf \<notin> range BfEnded \<Longrightarrow> get_join_step env poll pid v r bf log s =
     (if poll then
        (case r of
           Some _ \<Rightarrow> (GetJoin pid v r bf, log, s)
         | None \<Rightarrow> (let (r, obs, s1) = l2_get env pid v s in (GetJoin pid v (Some r) bf, log @ [obs], s1)))
      else apfst (branch_polled pid v r) (bf_step env pid v (bf, log, s)))"
  by (cases r; cases bf) (auto simp: get_join_step_def simp del: bf_step.simps split: sum.split)

lemma ends_wet_snoc [simp]: "ends_wet (log @ [SawMode m]) \<longleftrightarrow> m \<noteq> DryRun"
  by (auto simp: ends_wet_def)

lemma choose_payload_Some:
  assumes "choose_payload p (Some b) failed s = ((q, src), t)"
  shows "q = p \<or> q = b \<and> rb_execution_mode s \<noteq> DryRun" "t = s"
  using assms
  by (auto simp: choose_payload_def split: if_splits option.splits dest!: select_blockD(2))
    (metis payload_source.exhaust select_blockD)

context engine_api_ext
begin

lemma get_join_ok:
  assumes l2: "env_l2 env = api" and ext: "rb_external_state_root s = ext"
    and ok: "get_ok lib ext log (GetJoin pid v r bf)"
    and step: "get_join_step env poll pid v r bf log s = (pc', log', s')"
  shows "get_ok lib ext log' pc'"
proof -
  have polled: "get_ok lib ext log' pc'"
    if "apfst (branch_polled pid v r) (bf_step env pid v (bf, log, s)) = (pc', log', s')"
  proof -
    obtain bf1 log1 s1 where b: "bf_step env pid v (bf, log, s) = (bf1, log1, s1)" by (metis surj_pair)
    obtain new where "log1 = log @ new" using bf_step_log [OF b] unfolding adds_truth_def by blast
    with that b ok bf_step_ok [OF l2 ext _ b] show ?thesis
      by (auto simp: branch_polled_def split: if_splits)
  qed
  show ?thesis
  proof (cases "r = None \<or> bf \<notin> range BfEnded")
    case True
    then show ?thesis
      using step ok polled bf_ok_append [of lib ext pid v log bf]
      by (auto simp: get_join_open l2_get_def simp del: bf_ok.simps split: if_splits prod.splits option.splits)
  next
    case False
    with step ok show ?thesis
      by (auto simp: get_join_step_def split: sum.splits)
  qed
qed

lemma get_step_ok:
  assumes "env_l2 env = api" "rb_external_state_root s = ext" "get_ok lib ext log pc"
    and "get_step env poll (pc, log, s) = (pc', log', s')"
  shows "get_ok lib ext log' pc'"
proof (cases pc)
  case (GetEntry pid v)
  with assms show ?thesis by (auto simp: starts_enabled_def quiet_def split: if_splits)
next
  case (GetSettle pid v r)
  with assms show ?thesis by (cases r) auto
next
  case (GetJoin pid v r bf)
  with assms get_join_ok show ?thesis by simp
next
  case (GetChoose pid v p bp failed)
  show ?thesis
  proof (cases bp)
    case (Some b)
    obtain q src t where c: "choose_payload p (Some b) failed s = ((q, src), t)" by (metis surj_pair)
    with GetChoose Some assms choose_payload_Some(1) [OF c]
      approved_append [of lib ext pid v log b "[SawMode (rb_execution_mode s)]"] show ?thesis by auto
  qed (use GetChoose assms in \<open>auto split: if_splits\<close>)
qed (use assms in \<open>auto simp: exchange_defs split: prod.splits\<close>)

end

lemma fcu_step_ok:
  assumes "fcu_ok log pc" "fcu_step env poll (pc, log, s) = (pc', log', s')"
  shows "fcu_ok log' pc'"
proof (cases pc)
  case (FcuEntry fcs attrs)
  with assms show ?thesis by (auto simp: starts_enabled_def quiet_def split: if_splits)
next
  case (FcuBoth fcs a l2 bld)
  with assms show ?thesis
    by (cases l2; cases bld) (auto simp: exchange_defs
        split: prod.splits sum.splits option.splits if_splits)
qed (use assms in \<open>auto simp: exchange_defs
    split: prod.splits sum.splits option.splits if_splits\<close>)

lemma new_step_ok:
  assumes "new_ok log pc" "new_step env (pc, log, s) = (pc', log', s')"
  shows "new_ok log' pc'"
proof (cases pc)
  case (NewForget np pids)
  with assms show ?thesis by (cases pids) auto
qed (use assms in \<open>auto simp: exchange_defs split: prod.splits if_splits\<close>)

lemma block_step_ok:
  "block_ok log pc \<Longrightarrow> block_step env (pc, log, s) = (pc', log', s') \<Longrightarrow> block_ok log' pc'"
  by (cases pc) (auto split: prod.splits)

lemma get_step_log:
  assumes "get_step env poll (pc, log, s) = (pc', log', s')"
  shows "adds_truth env log log'"
proof (cases pc)
  case (GetSettle pid v r)
  with assms show ?thesis by (cases r) auto
next
  case (GetJoin pid v r bf)
  obtain bf1 log1 s1 where b: "bf_step env pid v (bf, log, s) = (bf1, log1, s1)" by (metis surj_pair)
  show ?thesis
  proof (cases "r = None \<or> bf \<notin> range BfEnded")
    case True
    then show ?thesis
      using assms GetJoin bf_step_log [OF b]
      by (auto simp: get_join_open l2_get_def b split: if_splits prod.splits option.splits)
  qed (use assms GetJoin in \<open>auto simp: get_join_step_def split: sum.splits\<close>)
next
  case (GetChoose pid v p bp failed)
  with assms show ?thesis by (cases bp) (auto split: if_splits prod.splits)
qed (use assms in \<open>auto simp: exchange_defs split: prod.splits\<close>)

lemma fcu_step_log:
  assumes "fcu_step env poll (pc, log, s) = (pc', log', s')"
  shows "adds_truth env log log'"
proof (cases pc)
  case (FcuBoth fcs a l2 bld)
  with assms show ?thesis
    by (cases l2; cases bld) (auto simp: exchange_defs split: prod.splits sum.splits option.splits if_splits)
qed (use assms in \<open>auto simp: exchange_defs split: prod.splits sum.splits option.splits if_splits\<close>)

lemma new_step_log:
  assumes "new_step env (pc, log, s) = (pc', log', s')"
  shows "adds_truth env log log'"
proof (cases pc)
  case (NewForget np pids)
  with assms show ?thesis by (cases pids) auto
qed (use assms in \<open>auto simp: exchange_defs split: prod.splits if_splits\<close>)

lemma rq_stepE:
  assumes "rq_step env poll (pc, log, s) = (pc', log', s')"
  obtains (get) p p' where "pc = RqGet p" "pc' = RqGet p'" "get_step env poll (p, log, s) = (p', log', s')"
  | (fcu) p p' where "pc = RqFcu p" "pc' = RqFcu p'" "fcu_step env poll (p, log, s) = (p', log', s')"
  | (new) p p' where "pc = RqNew p" "pc' = RqNew p'" "new_step env (p, log, s) = (p', log', s')"
  | (block) p p' where "pc = RqBlock p" "pc' = RqBlock p'" "block_step env (p, log, s) = (p', log', s')"
  using assms by (cases pc) (auto simp: apfst_def map_prod_def split: prod.splits)

lemma block_step_log: "block_step env (pc, log, s) = (pc', log', s') \<Longrightarrow> adds_truth env log log'"
  by (cases pc) (auto split: prod.splits)

lemma rq_step_log: "rq_step env poll (pc, log, s) = (pc', log', s') \<Longrightarrow> adds_truth env log log'"
  by (erule rq_stepE) (auto dest: get_step_log fcu_step_log new_step_log block_step_log)

lemma task_ok_quiet: "task_ok lib ext (pc, log) \<Longrightarrow> quiet log"
proof (cases pc)
  case (RqGet p)
  then show "task_ok lib ext (pc, log) \<Longrightarrow> quiet log" by (cases "(lib, ext, log, p)" rule: get_ok.cases) auto
next
  case (RqFcu p)
  then show "task_ok lib ext (pc, log) \<Longrightarrow> quiet log" by (cases p) auto
next
  case (RqNew p)
  then show "task_ok lib ext (pc, log) \<Longrightarrow> quiet log" by (cases p) auto
next
  case (RqBlock p)
  then show "task_ok lib ext (pc, log) \<Longrightarrow> quiet log" by (cases p) auto
qed

section \<open>Every interleaving\<close>

definition blocks :: "('l, 'b) rollup_boost_server \<Rightarrow> nat" where
  "blocks s = rb_blocks_created s L2 + rb_blocks_created s Builder"

fun returns_block :: "rq_pc \<Rightarrow> bool" where
  "returns_block (RqGet (GetReturned pid v (RpcOk p))) \<longleftrightarrow> True"
| "returns_block pc \<longleftrightarrow> False"

definition sv_inv :: "engine_lib \<Rightarrow> ('l, 'b) engine_env \<Rightarrow> ('l, 'b) sv_state \<Rightarrow> bool" where
  "sv_inv lib env c \<longleftrightarrow>
     (\<forall>t \<in> set (sv_tasks c). task_ok lib (rb_external_state_root (sv_server c)) t \<and> list_all (truthful env) (snd t)) \<and>
     blocks (sv_server c) = length (filter (returns_block \<circ> fst) (sv_tasks c))"

lemma blocks_simps [simp]:
  "blocks (rb_set_health h s) = blocks s"
  "blocks (rb_trace f s) = blocks s"
  "blocks (rb_spawn t s) = blocks s"
  "blocks (rb_remember_fcu pid fcs attrs s) = blocks s"
  "blocks (s\<lparr>rb_l2_client := l\<rparr>) = blocks s"
  "blocks (s\<lparr>rb_builder_client := b\<rparr>) = blocks s"
  "blocks (s\<lparr>rb_payload_trace_context := ctx\<rparr>) = blocks s"
  "blocks (s\<lparr>rb_payload_to_fcu_request := m\<rparr>) = blocks s"
  by (simp_all add: blocks_def rb_trace_def rb_spawn_def rb_remember_fcu_def)

lemma blocks_count_block [simp]: "blocks (rb_count_block src s) = Suc (blocks s)"
  by (cases src) (simp_all add: blocks_def rb_count_block_def)

lemma ext_simps [simp]:
  "rb_external_state_root (rb_trace f s) = rb_external_state_root s"
  "rb_external_state_root (rb_spawn t s) = rb_external_state_root s"
  by (simp_all add: rb_trace_def rb_spawn_def)

lemma bf_step_frame:
  "bf_step env pid v (bf, log, s) = (bf', log', s') \<Longrightarrow>
     rb_external_state_root s' = rb_external_state_root s \<and> blocks s' = blocks s"
  by (cases bf) (auto simp: exchange_defs split: prod.splits sum.splits option.splits if_splits)

lemma get_step_frame:
  assumes "get_step env poll (pc, log, s) = (pc', log', s')"
  shows "rb_external_state_root s' = rb_external_state_root s \<and>
    blocks s' + of_bool (returns_block (RqGet pc)) = blocks s + of_bool (returns_block (RqGet pc'))"
proof (cases pc)
  case (GetJoin pid v r bf)
  obtain bf1 log1 s1 where b: "bf_step env pid v (bf, log, s) = (bf1, log1, s1)" by (metis surj_pair)
  show ?thesis
  proof (cases "r = None \<or> bf \<notin> range BfEnded")
    case True
    then show ?thesis
      using assms GetJoin bf_step_frame [OF b]
      by (auto simp: get_join_open l2_get_def b branch_polled_def split: if_splits prod.splits option.splits)
  qed (use assms GetJoin in \<open>auto simp: get_join_step_def split: sum.splits\<close>)
next
  case (GetSettle pid v r)
  with assms show ?thesis by (cases r) auto
next
  case (GetChoose pid v p bp failed)
  show ?thesis
  proof (cases bp)
    case (Some b)
    obtain q src t where c: "choose_payload p (Some b) failed s = ((q, src), t)" by (metis surj_pair)
    with GetChoose Some assms choose_payload_Some(2) [OF c] show ?thesis by auto
  qed (use GetChoose assms in \<open>auto split: if_splits\<close>)
next
  case (GetReturned pid v r)
  with assms show ?thesis by simp
qed (use assms in \<open>auto simp: exchange_defs split: prod.splits if_splits\<close>)

lemma fcu_step_frame:
  assumes "fcu_step env poll (pc, log, s) = (pc', log', s')"
  shows "rb_external_state_root s' = rb_external_state_root s \<and> blocks s' = blocks s"
proof (cases pc)
  case (FcuBoth fcs a l2 bld)
  with assms show ?thesis
    by (cases l2; cases bld) (auto simp: exchange_defs split: prod.splits sum.splits option.splits if_splits)
qed (use assms in \<open>auto simp: exchange_defs split: prod.splits sum.splits option.splits if_splits\<close>)

lemma new_step_frame:
  assumes "new_step env (pc, log, s) = (pc', log', s')"
  shows "rb_external_state_root s' = rb_external_state_root s \<and> blocks s' = blocks s"
proof (cases pc)
  case (NewForget np pids)
  with assms show ?thesis by (cases pids) auto
qed (use assms in \<open>auto simp: exchange_defs split: prod.splits if_splits\<close>)

lemma block_step_frame:
  "block_step env (pc, log, s) = (pc', log', s') \<Longrightarrow>
     rb_external_state_root s' = rb_external_state_root s \<and> blocks s' = blocks s"
  by (cases pc) (auto split: prod.splits)

lemma rq_step_frame:
  assumes "rq_step env poll (pc, log, s) = (pc', log', s')"
  shows "rb_external_state_root s' = rb_external_state_root s"
    and "blocks s' + of_bool (returns_block pc) = blocks s + of_bool (returns_block pc')"
  using assms
  by (rule rq_stepE; auto dest: get_step_frame fcu_step_frame new_step_frame block_step_frame)+

lemma filter_update_length:
  assumes "i < length xs"
  shows "length (filter P (xs[i := y])) + of_bool (P (xs ! i)) = length (filter P xs) + of_bool (P y)"
proof -
  have "length (filter P xs) =
      length (filter P (take i xs)) + of_bool (P (xs ! i)) + length (filter P (drop (Suc i) xs))"
    using arg_cong [OF id_take_nth_drop [OF assms], of "\<lambda>xs. length (filter P xs)"] by simp
  then show ?thesis by (simp add: upd_conv_take_nth_drop assms)
qed

lemma rb_ext_other [simp]:
  "rb_external_state_root (set_execution_mode m s) = rb_external_state_root s"
  "rb_external_state_root (run_spawned env s) = rb_external_state_root s"
  "rb_external_state_root (snd (server_health_check env max_unsafe now1 now2 ts s)) = rb_external_state_root s"
  "blocks (set_execution_mode m s) = blocks s"
  "blocks (run_spawned env s) = blocks s"
  "blocks (snd (server_health_check env max_unsafe now1 now2 ts s)) = blocks s"
  by (auto simp: set_execution_mode_def server_health_check_def blocks_def Let_def split: list.split)

context engine_api_ext
begin

lemma rq_step_ok:
  assumes "env_l2 env = api" "task_ok lib (rb_external_state_root s) (pc, log)"
    and "rq_step env poll (pc, log, s) = (pc', log', s')"
  shows "task_ok lib (rb_external_state_root s) (pc', log')"
  using assms(3)
proof (cases rule: rq_stepE)
  case (get p p')
  with assms get_step_ok [OF assms(1) refl _ get(3)] show ?thesis by simp
qed (use assms in \<open>auto dest: fcu_step_ok new_step_ok block_step_ok\<close>)

lemma sv_inv_exec:
  assumes "env_l2 env = api" and inv: "sv_inv lib env c"
  shows "sv_inv lib env (sv_exec env a c)"
proof (cases a)
  case (Arrive rq)
  with inv show ?thesis by (cases rq) (auto simp: sv_inv_def)
next
  case (Proceed i poll)
  show ?thesis
  proof (cases "i < length (sv_tasks c)")
    case True
    obtain pc log where t: "sv_tasks c ! i = (pc, log)" by fastforce
    obtain pc' log' s' where st: "rq_step env poll (pc, log, sv_server c) = (pc', log', s')" by (metis surj_pair)
    have old: "task_ok lib (rb_external_state_root (sv_server c)) (pc, log)" "list_all (truthful env) log"
      using inv True t nth_mem [OF True] unfolding sv_inv_def by auto
    note ok = rq_step_ok [OF assms(1) old(1) st] and frame = rq_step_frame [OF st]
    have "list_all (truthful env) log'" using old(2) rq_step_log [OF st] by (auto simp: adds_truth_def)
    moreover have "blocks s' = length (filter (returns_block \<circ> fst) ((sv_tasks c)[i := (pc', log')]))"
      using frame(2) inv filter_update_length [OF True, of "returns_block \<circ> fst" "(pc', log')"] t
      by (simp add: sv_inv_def)
    ultimately show ?thesis
      using ok inv True frame(1)
      by (auto simp: Proceed t st sv_inv_def dest!: set_update_subset_insert [THEN subsetD])
  qed (use inv Proceed in simp)
qed (use inv in \<open>simp_all add: sv_inv_def del: run_spawned.simps\<close>)

end

interpretation serving: invariant_system sv_init
  "sv_step (env\<lparr>env_l2 := rpc_client_api lib tr\<rparr>)" "sv_inv lib (env\<lparr>env_l2 := rpc_client_api lib tr\<rparr>)"
  for env lib tr
proof unfold_locales
  fix c :: "('a, 'b) sv_state"
  assume "sv_init c"
  then show "sv_inv lib (env\<lparr>env_l2 := rpc_client_api lib tr\<rparr>) c"
    by (auto simp: sv_init_def sv_inv_def rollup_boost_server_new_def blocks_def)
next
  fix c d :: "('a, 'b) sv_state"
  let ?env = "env\<lparr>env_l2 := rpc_client_api lib tr\<rparr>"
  assume "sv_step ?env c d" "sv_inv lib ?env c"
  then show "sv_inv lib ?env d" using rpc.sv_inv_exec [of ?env lib tr c] by (auto elim!: sv_step.cases)
qed

text \<open>
  C2: the safety of the running server. In every state that concurrent requests, mode changes, health checks,
  detached tasks and changes of the nodes can reach in any interleaving, with a JSON-RPC L2 client: a block
  returned by a \<^verbatim>\<open>getPayload\<close> task is the L2 client's own answer to this task for this id, or the mode was not
  disabled when the task began and not dry-run when it chose, and the builder gave this task a block that the L2
  client, asked by this task, found not invalid or rebuilt itself; an error of \<^verbatim>\<open>getPayload\<close> and every response of the other
  methods is the L2 client's answer to this task for the same request; a task that began in disabled mode has never
  asked the builder; what the tasks record as answers are answers of the nodes; and \<^verbatim>\<open>rpc.blocks_created\<close> counts
  every returned block exactly once.
\<close>

theorem concurrent_responses_are_l2s_or_approved:
  assumes "env_l2 env = rpc_client_api lib tr" and "reach sv_init (sv_step env) c"
  shows "(\<forall>(pc, log) \<in> set (sv_tasks c). list_all (truthful env) log \<and> quiet log \<and>
     (case pc of
        RqGet (GetReturned pid v (RpcOk p)) \<Rightarrow>
          L2GotPayload pid v (Inr p) \<in> set log \<or>
          starts_enabled log \<and> ends_wet log \<and> approved lib (rb_external_state_root (sv_server c)) pid v log p
      | RqGet (GetReturned pid v (RpcErr e)) \<Rightarrow> answered_by (L2GotPayload pid v) log (RpcErr e)
      | RqGet (GetReturned pid v RpcPanic) \<Rightarrow> rb_external_state_root (sv_server c)
      | RqFcu (FcuReturned fcs attrs out) \<Rightarrow> answered_by (L2Updated fcs attrs) log out
      | RqNew (NewReturned np out) \<Rightarrow> answered_by (L2Validated np) log out
      | RqBlock (BlockReturned number full out) \<Rightarrow> answered_by (L2GotBlock number full) log out
      | _ \<Rightarrow> True)) \<and>
     rb_blocks_created (sv_server c) L2 + rb_blocks_created (sv_server c) Builder =
       length (filter (returns_block \<circ> fst) (sv_tasks c))"
proof -
  have "env\<lparr>env_l2 := rpc_client_api lib tr\<rparr> = env" using assms(1) by simp
  with assms(2) have inv: "sv_inv lib env c" using serving.reach_inv [of lib tr env c] by simp
  have "case pc of
        RqGet (GetReturned pid v (RpcOk p)) \<Rightarrow>
          L2GotPayload pid v (Inr p) \<in> set log \<or>
          starts_enabled log \<and> ends_wet log \<and> approved lib ext pid v log p
      | RqGet (GetReturned pid v (RpcErr e)) \<Rightarrow> answered_by (L2GotPayload pid v) log (RpcErr e)
      | RqGet (GetReturned pid v RpcPanic) \<Rightarrow> ext
      | RqFcu (FcuReturned fcs attrs out) \<Rightarrow> answered_by (L2Updated fcs attrs) log out
      | RqNew (NewReturned np out) \<Rightarrow> answered_by (L2Validated np) log out
      | RqBlock (BlockReturned number full out) \<Rightarrow> answered_by (L2GotBlock number full) log out
      | _ \<Rightarrow> True" if "task_ok lib ext (pc, log)" for ext pc log
    using that by (auto split: rq_pc.split get_pc.split fcu_pc.split new_pc.split block_pc.split rpc_outcome.split)
  with inv task_ok_quiet show ?thesis unfolding sv_inv_def blocks_def by fastforce
qed

text \<open>
  A run for the witnesses: an update and a \<^verbatim>\<open>getPayload\<close> whose two branches alternate, while the mode is switched to
  disabled after the \<^verbatim>\<open>getPayload\<close> has begun.
\<close>

definition sample_actions :: "(unit, unit) sv_action list" where
  "sample_actions =
     [Arrive (ForkChoiceUpdatedV3 sample_fcs (Some (sample_attrs None))), Proceed 0 True, Proceed 0 True,
      Proceed 0 False, Proceed 0 True, Proceed 0 True, Proceed 0 True, Proceed 0 True, Proceed 0 True,
      Arrive (GetPayloadRequest 5 PV3), Proceed 1 True, Proceed 1 False, Proceed 1 False, ChangeMode Disabled,
      Proceed 1 True, Proceed 1 False, Proceed 1 True, Proceed 1 True]"

definition sample_run :: "bool \<Rightarrow> (unit, unit) sv_state" where
  "sample_run external =
     fold (sv_exec sample_mux) sample_actions \<lparr>sv_server = sample_server Enabled external False, sv_tasks = []\<rparr>"

lemma sample_run_reach: "reach sv_init (sv_step sample_mux) (sample_run external)"
  unfolding sample_run_def
  by (rule sv_reach_run) (simp add: sv_init_def sample_server_def, blast)

theorem concurrent_responses_are_l2s_or_approved_witness:
  "fst (sv_tasks (sample_run False) ! 1) = RqGet (GetReturned 5 PV3 (RpcOk (sample_env 50 9 [[1]]))) \<and>
   approved sample_lib False 5 PV3 (snd (sv_tasks (sample_run False) ! 1)) (sample_env 50 9 [[1]]) \<and>
   rb_blocks_created (sv_server (sample_run False)) L2 + rb_blocks_created (sv_server (sample_run False)) Builder = 1"
proof -
  let ?c = "sample_run False"
  let ?tr = "sample_transport (Inr (sample_fcu (Some 5))) (Inr (sample_env_v3 100 8 []))
           (Inr (sample_status Valid)) (Inl (JsOther ''no block''))"
  have l2: "env_l2 sample_mux = rpc_client_api sample_lib ?tr" by (simp add: sample_mux_def)
  note facts = concurrent_responses_are_l2s_or_approved [OF l2 sample_run_reach [of False]]
  have pcs: "map fst (sv_tasks ?c) =
      [RqFcu (FcuReturned sample_fcs (Some (sample_attrs None)) (RpcOk (sample_fcu (Some 5)))),
       RqGet (GetReturned 5 PV3 (RpcOk (sample_env 50 9 [[1]])))]" by code_simp
  then obtain log0 log where tasks: "sv_tasks ?c =
      [(RqFcu (FcuReturned sample_fcs (Some (sample_attrs None)) (RpcOk (sample_fcu (Some 5)))), log0),
       (RqGet (GetReturned 5 PV3 (RpcOk (sample_env 50 9 [[1]]))), log)]" by (auto simp: map_eq_Cons_conv)
  have "L2GotPayload 5 PV3 (Inr (sample_env 50 9 [[1]])) \<notin> set (snd (sv_tasks ?c ! 1))"
    "\<not> rb_external_state_root (sv_server ?c)" by code_simp+
  with facts show ?thesis by (simp add: tasks)
qed

end
