(* ===== verification/Server_Panics.thy ===== *)
theory Server_Panics
  imports Server_Async
begin

text \<open>
  The one panic of the server (\<^verbatim>\<open>unwrap\<close> in \<^verbatim>\<open>calculate_external_state_root\<close>) under every interleaving: it needs a
  second fetch of the same payload or an update for it that is just being recorded. The entries that a fetch takes
  out of \<^verbatim>\<open>payload_to_fcu_request\<close> are never removed otherwise, and the last section shows that they pile up.
\<close>

section \<open>When a getPayload panics\<close>

text \<open>
  An update has recorded the builder's payload and is about to remember the request for it; a \<^verbatim>\<open>getPayload\<close> has seen
  that the builder has the payload and has not yet taken the remembered request.
\<close>

fun recording :: "payload_id \<Rightarrow> rq_pc \<Rightarrow> bool" where
  "recording pid (RqFcu (FcuListId pid' fcs attrs remember resp)) \<longleftrightarrow> pid' = pid \<and> remember"
| "recording pid (RqFcu (FcuRemember pid' fcs attrs resp)) \<longleftrightarrow> pid' = pid"
| "recording pid pc \<longleftrightarrow> False"

fun expecting :: "payload_id \<Rightarrow> rq_pc \<Rightarrow> bool" where
  "expecting pid (RqGet (GetJoin pid' v l2 BfAsk)) \<longleftrightarrow> pid' = pid"
| "expecting pid (RqGet (GetJoin pid' v l2 (BfRecall b))) \<longleftrightarrow> pid' = pid"
| "expecting pid pc \<longleftrightarrow> False"

fun recalls :: "payload_id \<Rightarrow> observation \<Rightarrow> bool" where
  "recalls pid (Recalled pid' fcs attrs) \<longleftrightarrow> pid' = pid"
| "recalls pid obs \<longleftrightarrow> False"

text \<open>
  An update recorded with the builder's payload is also remembered; requests are only recalled with an external
  state root; a panicked branch is not polled again.
\<close>

fun sane :: "bool \<Rightarrow> rq_pc \<Rightarrow> bool" where
  "sane ext (RqFcu (FcuStoreId pid fcs attrs has remember resp)) \<longleftrightarrow> has \<longrightarrow> remember"
| "sane ext (RqGet (GetJoin pid v l2 (BfRecall b))) \<longleftrightarrow> ext"
| "sane ext (RqGet (GetJoin pid v l2 (BfEnded RpcPanic))) \<longleftrightarrow> False"
| "sane ext pc \<longleftrightarrow> True"

definition taken_or_recording :: "payload_id \<Rightarrow> (rq_pc \<times> observation list) list \<Rightarrow> bool" where
  "taken_or_recording pid tasks \<longleftrightarrow> (\<exists>t \<in> set tasks. recording pid (fst t) \<or> list_ex (recalls pid) (snd t))"

definition panic_inv :: "('l, 'b) sv_state \<Rightarrow> bool" where
  "panic_inv c \<longleftrightarrow>
     (\<forall>t \<in> set (sv_tasks c). sane (rb_external_state_root (sv_server c)) (fst t)) \<and>
     (rb_external_state_root (sv_server c) \<longrightarrow>
       (\<forall>pid. has_builder_payload (rb_payload_trace_context (sv_server c)) pid \<or>
          (\<exists>t \<in> set (sv_tasks c). expecting pid (fst t)) \<longrightarrow>
          rb_payload_to_fcu_request (sv_server c) pid \<noteq> None \<or> taken_or_recording pid (sv_tasks c)))"

lemma has_builder_steps [simp]:
  "has_builder_payload (list_id ev pid' h ctx) pid = has_builder_payload ctx pid"
  "has_builder_payload (forget_id pid' ctx) pid \<longleftrightarrow> pid \<noteq> pid' \<and> has_builder_payload ctx pid"
  by (auto simp: has_builder_payload_def list_id_def forget_id_def Let_def split: option.split)

lemma has_builder_unlist:
  "unlist h ctx = (pids, ctx') \<Longrightarrow> has_builder_payload ctx' pid = has_builder_payload ctx pid"
  by (auto simp: has_builder_payload_def unlist_def split: option.splits)

lemma has_builder_store_id:
  assumes "only_evicts ev" "has_builder_payload (store_id ev pid' has tid ctx) pid"
  shows "if pid = pid' then has else has_builder_payload ctx pid"
proof -
  have "has_builder_payload (store ev pid' h has tid ctx) pid" for h
    using assms(2) by (simp add: store_halves [symmetric])
  from has_builder_payload_storeD [OF assms(1) this] show ?thesis .
qed

text \<open>What one step does to the payload of the builder, to the remembered requests and to the counters.\<close>

lemma bf_step_panic_frame:
  assumes "bf_step env pid' v (bf, log, s) = (bf', log', s')"
  shows "rb_payload_trace_context s' = rb_payload_trace_context s"
    and "rb_payload_to_fcu_request s pid \<noteq> None \<Longrightarrow>
      rb_payload_to_fcu_request s' pid \<noteq> None \<or> list_ex (recalls pid) log'"
    and "expecting pid (RqGet (GetJoin pid' v l2 bf')) \<Longrightarrow>
      expecting pid (RqGet (GetJoin pid' v l2 bf)) \<or> has_builder_payload (rb_payload_trace_context s) pid"
    and "bf' = BfEnded RpcPanic \<Longrightarrow> bf \<noteq> bf' \<Longrightarrow>
      (\<exists>b. bf = BfRecall b) \<and> rb_payload_to_fcu_request s pid' = None"
    and "bf' = BfRecall b \<Longrightarrow> rb_external_state_root s"
  using assms
  by (cases bf; auto simp: exchange_defs no_builder_payload_def builder_payload_found_def
      split: prod.splits sum.splits option.splits if_splits)+

definition panic_frame ::
  "payload_id \<Rightarrow> rq_pc \<Rightarrow> ('l, 'b) rollup_boost_server \<Rightarrow> rq_pc \<Rightarrow> observation list
     \<Rightarrow> ('l, 'b) rollup_boost_server \<Rightarrow> bool" where
  "panic_frame pid pc s pc' log' s' \<longleftrightarrow>
     sane (rb_external_state_root s) pc' \<and>
     (rb_payload_to_fcu_request s pid \<noteq> None \<longrightarrow>
        rb_payload_to_fcu_request s' pid \<noteq> None \<or> list_ex (recalls pid) log') \<and>
     (rb_external_state_root s \<longrightarrow> recording pid pc \<longrightarrow>
        recording pid pc' \<or> rb_payload_to_fcu_request s' pid \<noteq> None) \<and>
     (has_builder_payload (rb_payload_trace_context s') pid \<longrightarrow>
        has_builder_payload (rb_payload_trace_context s) pid \<or> recording pid pc') \<and>
     (expecting pid pc' \<longrightarrow> expecting pid pc \<or> has_builder_payload (rb_payload_trace_context s) pid) \<and>
     (\<forall>v. pc' = RqGet (GetReturned pid v RpcPanic) \<longrightarrow> pc \<noteq> pc' \<longrightarrow>
        (\<exists>v l2 b. pc = RqGet (GetJoin pid v l2 (BfRecall b))) \<and> rb_payload_to_fcu_request s pid = None)"

lemma rb_other_sel [simp]:
  "rb_payload_trace_context (rb_spawn t s) = rb_payload_trace_context s"
  "rb_payload_to_fcu_request (rb_spawn t s) = rb_payload_to_fcu_request s"
  "rb_payload_to_fcu_request (rb_trace f s) = rb_payload_to_fcu_request s"
  "rb_payload_trace_context (rb_trace f s) = f (rb_payload_trace_context s)"
  by (simp_all add: rb_spawn_def rb_trace_def)

lemma get_step_panic_frame:
  assumes "get_step env poll (pc, log, s) = (pc', log', s')" "sane (rb_external_state_root s) (RqGet pc)"
  shows "panic_frame pid (RqGet pc) s (RqGet pc') log' s'"
proof (cases pc)
  case (GetJoin pid' v r bf)
  obtain bf1 log1 s1 where b: "bf_step env pid' v (bf, log, s) = (bf1, log1, s1)" by (metis surj_pair)
  note frame = bf_step_panic_frame [OF b]
  have sane: "sane ext (RqGet (GetJoin pid' v r' bf2)) \<longleftrightarrow> bf2 \<noteq> BfEnded RpcPanic \<and> ((\<exists>b. bf2 = BfRecall b) \<longrightarrow> ext)"
    for ext r' bf2
    by (cases "(ext, RqGet (GetJoin pid' v r' bf2))" rule: sane.cases) auto
  show ?thesis
  proof (cases "r = None \<or> bf \<notin> range BfEnded")
    case True
    have re: "expecting pid (RqGet (GetJoin pid' v r bf)) = expecting pid (RqGet (GetJoin pid' v r' bf))" for r'
      by (cases bf) simp_all
    show ?thesis
    proof (cases poll)
      case poll: True
      with True assms GetJoin re show ?thesis
        by (auto simp: panic_frame_def get_join_open l2_get_def sane split: prod.splits option.splits)
    next
      case poll: False
      have "bf1 = BfEnded RpcPanic \<Longrightarrow> bf \<noteq> bf1" using GetJoin assms(2) sane by auto
      with poll True assms GetJoin frame(1) frame(2) [of pid] frame(3) [of pid r] frame(4,5) show ?thesis
        by (auto simp: panic_frame_def get_join_open b branch_polled_def sane split: if_splits)
    qed
  qed (use assms GetJoin in \<open>auto simp: get_join_step_def panic_frame_def split: sum.splits\<close>)
next
  case (GetSettle pid' v r)
  with assms show ?thesis by (cases r) (auto simp: panic_frame_def)
next
  case (GetChoose pid' v p bp failed)
  show ?thesis
  proof (cases bp)
    case (Some b)
    obtain q src t where c: "choose_payload p (Some b) failed s = ((q, src), t)" by (metis surj_pair)
    with GetChoose Some assms choose_payload_Some(2) [OF c] show ?thesis by (auto simp: panic_frame_def)
  qed (use GetChoose assms in \<open>auto simp: panic_frame_def split: if_splits\<close>)
qed (use assms in \<open>auto simp: panic_frame_def exchange_defs split: prod.splits if_splits\<close>)

lemma fcu_step_panic_frame:
  assumes "fcu_step env poll (pc, log, s) = (pc', log', s')" "only_evicts (env_cache env)"
    "sane (rb_external_state_root s) (RqFcu pc)"
  shows "panic_frame pid (RqFcu pc) s (RqFcu pc') log' s'"
proof (cases pc)
  case (FcuBoth fcs a l2 bld)
  with assms show ?thesis
    by (cases l2; cases bld)
      (auto simp: panic_frame_def exchange_defs split: prod.splits sum.splits option.splits if_splits)
next
  case (FcuStoreId pid' fcs attrs has remember resp)
  with assms show ?thesis
    by (auto simp: panic_frame_def dest!: has_builder_store_id [OF assms(2)] split: if_splits)
next
  case (FcuRemember pid' fcs attrs resp)
  with assms show ?thesis by (auto simp: panic_frame_def rb_remember_fcu_def split: if_splits)
qed (use assms in \<open>auto simp: panic_frame_def exchange_defs split: prod.splits sum.splits option.splits if_splits\<close>)

lemma new_step_panic_frame:
  assumes "new_step env (pc, log, s) = (pc', log', s')"
  shows "panic_frame pid (RqNew pc) s (RqNew pc') log' s'"
proof (cases pc)
  case (NewEntry np)
  obtain pids ctx where u: "unlist (ep_parent_hash (execution_payload_from_new_payload np)) (rb_payload_trace_context s) =
    (pids, ctx)" by fastforce
  with NewEntry assms has_builder_unlist [OF u, of pid] show ?thesis by (auto simp: panic_frame_def)
next
  case (NewForget np pids)
  with assms show ?thesis by (cases pids) (auto simp: panic_frame_def)
qed (use assms in \<open>auto simp: panic_frame_def exchange_defs split: prod.splits if_splits\<close>)

lemma rq_step_panic_frame:
  assumes "rq_step env poll (pc, log, s) = (pc', log', s')" "only_evicts (env_cache env)"
    "sane (rb_external_state_root s) pc"
  shows "panic_frame pid pc s pc' log' s'"
  using assms(1)
proof (cases rule: rq_stepE)
  case (block p p')
  then show ?thesis by (cases p) (auto simp: panic_frame_def split: prod.splits)
qed (use assms in \<open>auto intro: get_step_panic_frame fcu_step_panic_frame new_step_panic_frame\<close>)

lemma task_updated: "t \<in> set (ts[i := x]) \<Longrightarrow> t = x \<or> t \<in> set ts"
  using set_update_subset_insert by fastforce

lemma taken_or_recording_update:
  assumes "i < length tasks" "tasks ! i = (pc, log)" "taken_or_recording pid tasks"
  shows "recording pid pc \<or> taken_or_recording pid (tasks[i := (pc', log @ new)])"
proof -
  from assms(3) obtain j where j: "j < length tasks"
    "recording pid (fst (tasks ! j)) \<or> list_ex (recalls pid) (snd (tasks ! j))"
    unfolding taken_or_recording_def by (metis in_set_conv_nth)
  let ?ts = "tasks[i := (pc', log @ new)]"
  have "?ts ! j \<in> set ?ts" using j(1) by simp
  moreover have "recording pid pc \<or> recording pid (fst (?ts ! j)) \<or> list_ex (recalls pid) (snd (?ts ! j))"
    using j assms(1,2) by (cases "j = i") auto
  ultimately show ?thesis unfolding taken_or_recording_def by blast
qed

lemma rb_other_frame [simp]:
  "rb_payload_trace_context (set_execution_mode m s) = rb_payload_trace_context s"
  "rb_payload_trace_context (run_spawned env s) = rb_payload_trace_context s"
  "rb_payload_trace_context (snd (server_health_check env max_unsafe now1 now2 ts s)) = rb_payload_trace_context s"
  "rb_payload_to_fcu_request (set_execution_mode m s) = rb_payload_to_fcu_request s"
  "rb_payload_to_fcu_request (run_spawned env s) = rb_payload_to_fcu_request s"
  "rb_payload_to_fcu_request (snd (server_health_check env max_unsafe now1 now2 ts s)) = rb_payload_to_fcu_request s"
  by (auto simp: set_execution_mode_def server_health_check_def Let_def split: list.split)

lemma panic_inv_task:
  assumes ev: "only_evicts (env_cache env)" and inv: "panic_inv c" and i: "i < length (sv_tasks c)"
    and t: "sv_tasks c ! i = (pc, log)" and st: "rq_step env poll (pc, log, sv_server c) = (pc', log', s')"
  shows "panic_inv (c\<lparr>sv_server := s', sv_tasks := (sv_tasks c)[i := (pc', log')]\<rparr>)"
proof -
  let ?s = "sv_server c" and ?ts = "sv_tasks c" and ?ts' = "(sv_tasks c)[i := (pc', log')]"
  obtain new where new: "log' = log @ new" using rq_step_log [OF st] by (auto simp: adds_truth_def)
  have mem: "(pc, log) \<in> set ?ts" and mem': "(pc', log') \<in> set ?ts'"
    using i t nth_mem [OF i] set_update_memI [OF i] by simp_all
  have sane: "\<forall>t \<in> set ?ts. sane (rb_external_state_root ?s) (fst t)" using inv by (simp add: panic_inv_def)
  with rq_step_panic_frame [OF st ev] mem have fr: "panic_frame pid pc ?s pc' log' s'" for pid by force
  have kept: "rb_payload_to_fcu_request s' pid \<noteq> None \<or> taken_or_recording pid ?ts'"
    if "rb_external_state_root ?s" "rb_payload_to_fcu_request ?s pid \<noteq> None \<or> taken_or_recording pid ?ts" for pid
  proof -
    have "taken_or_recording pid ?ts'" if "recording pid pc' \<or> list_ex (recalls pid) log'"
      using that mem' unfolding taken_or_recording_def by force
    moreover have "taken_or_recording pid ?ts \<Longrightarrow> recording pid pc \<or> taken_or_recording pid ?ts'"
      using taken_or_recording_update [OF i t] unfolding new .
    ultimately show ?thesis using that fr [of pid] unfolding panic_frame_def by meson
  qed
  have "rb_payload_to_fcu_request s' pid \<noteq> None \<or> taken_or_recording pid ?ts'"
    if ext: "rb_external_state_root ?s" and
      has: "has_builder_payload (rb_payload_trace_context s') pid \<or> (\<exists>t \<in> set ?ts'. expecting pid (fst t))" for pid
  proof (cases "recording pid pc'")
    case True
    with mem' show ?thesis unfolding taken_or_recording_def by force
  next
    case False
    have "expecting pid pc' \<or> (\<exists>t \<in> set ?ts. expecting pid (fst t))" if "\<exists>t \<in> set ?ts'. expecting pid (fst t)"
      using that task_updated [of _ ?ts i] by fastforce
    moreover have "expecting pid pc \<Longrightarrow> \<exists>t \<in> set ?ts. expecting pid (fst t)" using mem by force
    ultimately have "has_builder_payload (rb_payload_trace_context ?s) pid \<or> (\<exists>t \<in> set ?ts. expecting pid (fst t))"
      using has False fr [of pid] unfolding panic_frame_def by blast
    with inv ext have "rb_payload_to_fcu_request ?s pid \<noteq> None \<or> taken_or_recording pid ?ts"
      unfolding panic_inv_def by blast
    with kept ext show ?thesis by blast
  qed
  moreover have "\<forall>t \<in> set ?ts'. sane (rb_external_state_root s') (fst t)"
    using sane fr rq_step_frame(1) [OF st] task_updated [of _ ?ts i] unfolding panic_frame_def by fastforce
  ultimately show ?thesis using rq_step_frame(1) [OF st] by (simp add: panic_inv_def)
qed

lemma panic_inv_exec:
  assumes "only_evicts (env_cache env)" and inv: "panic_inv c"
  shows "panic_inv (sv_exec env a c)"
proof (cases a)
  case (Arrive rq)
  with inv show ?thesis by (cases rq) (auto simp: panic_inv_def taken_or_recording_def)
next
  case (Proceed i poll)
  with inv panic_inv_task [OF assms] show ?thesis by (auto split: prod.split)
qed (use inv in \<open>simp_all add: panic_inv_def del: run_spawned.simps\<close>)

interpretation panics: invariant_system sv_init "sv_step env"
  "\<lambda>c. only_evicts (env_cache env) \<longrightarrow> panic_inv c" for env :: "('l, 'b) engine_env"
proof unfold_locales
  show "only_evicts (env_cache env) \<longrightarrow> panic_inv c" if "sv_init c" for c :: "('l, 'b) sv_state"
    using that by (auto simp: sv_init_def panic_inv_def rollup_boost_server_new_def)
qed (auto elim!: sv_step.cases intro: panic_inv_exec)

text \<open>
  C5: what makes a \<^verbatim>\<open>getPayload\<close> panic. In every state reachable by any interleaving, with caches that only ever
  evict: a step makes the \<^verbatim>\<open>getPayload\<close> task for an id panic only if an external state root is configured, no request
  is remembered for the id, and some \<^verbatim>\<open>getPayload\<close> task has already taken the request remembered for the id, or an
  update for the same id is just between recording the builder's payload and remembering the request. So
  concurrent requests for other ids, blocks, modes and health checks never cause a panic.
\<close>

theorem panic_needs_a_second_fetch_or_update:
  assumes "reach sv_init (sv_step env) c" "only_evicts (env_cache env)"
    and "i < length (sv_tasks c)" "fst (sv_tasks c ! i) \<noteq> RqGet (GetReturned pid v RpcPanic)"
    and "fst (sv_tasks (sv_exec env (Proceed i poll) c) ! i) = RqGet (GetReturned pid v RpcPanic)"
  shows "rb_external_state_root (sv_server c) \<and> rb_payload_to_fcu_request (sv_server c) pid = None \<and>
    (\<exists>t \<in> set (sv_tasks c). recording pid (fst t) \<or> list_ex (recalls pid) (snd t))"
proof -
  obtain pc log where t: "sv_tasks c ! i = (pc, log)" by fastforce
  obtain pc' log' s' where st: "rq_step env poll (pc, log, sv_server c) = (pc', log', s')" by (metis surj_pair)
  have pc': "pc' = RqGet (GetReturned pid v RpcPanic)" "pc \<noteq> pc'" using assms(3-5) by (simp_all add: t st)
  have mem: "(pc, log) \<in> set (sv_tasks c)" using assms(3) t nth_mem by metis
  have inv: "panic_inv c" using panics.reach_inv [OF assms(1)] assms(2) by simp
  then have sane: "sane (rb_external_state_root (sv_server c)) pc" using mem by (force simp: panic_inv_def)
  from rq_step_panic_frame [OF st assms(2) this, of pid] pc' obtain v' l2 b where
    pc: "pc = RqGet (GetJoin pid v' l2 (BfRecall b))" "rb_payload_to_fcu_request (sv_server c) pid = None"
    by (auto simp: panic_frame_def)
  with sane have "rb_external_state_root (sv_server c)" by simp
  with inv mem pc show ?thesis by (fastforce simp: panic_inv_def taken_or_recording_def)
qed

text \<open>Two concurrent \<^verbatim>\<open>getPayload\<close> calls for the same id with an external state root.\<close>

definition double_fetch :: "(unit, unit) sv_state" where
  "double_fetch =
     fold (sv_exec sample_mux)
       [Arrive (ForkChoiceUpdatedV3 sample_fcs (Some (sample_attrs None))), Proceed 0 True, Proceed 0 True,
        Proceed 0 False, Proceed 0 True, Proceed 0 True, Proceed 0 True, Proceed 0 True, Proceed 0 True,
        Arrive (GetPayloadRequest 5 PV3), Arrive (GetPayloadRequest 5 PV3), Proceed 1 True, Proceed 2 True,
        Proceed 1 False, Proceed 1 False, Proceed 2 False, Proceed 2 False, Proceed 1 False]
       \<lparr>sv_server = sample_server Enabled True False, sv_tasks = []\<rparr>"

theorem panic_needs_a_second_fetch_or_update_witness:
  "fst (sv_tasks (sv_exec sample_mux (Proceed 2 False) double_fetch) ! 2) = RqGet (GetReturned 5 PV3 RpcPanic) \<and>
   rb_payload_to_fcu_request (sv_server double_fetch) 5 = None \<and>
   list_ex (\<lambda>t. recording 5 (fst t) \<or> list_ex (recalls 5) (snd t)) (sv_tasks double_fetch)"
proof -
  have "reach sv_init (sv_step sample_mux) double_fetch"
    unfolding double_fetch_def by (rule sv_reach_run) (simp add: sv_init_def sample_server_def, blast)
  moreover have "only_evicts (env_cache sample_mux)" by (simp add: sample_mux_def only_evicts_def keep_all_def)
  moreover have "2 < length (sv_tasks double_fetch)"
    "fst (sv_tasks double_fetch ! 2) \<noteq> RqGet (GetReturned 5 PV3 RpcPanic)"
    and p: "fst (sv_tasks (sv_exec sample_mux (Proceed 2 False) double_fetch) ! 2) = RqGet (GetReturned 5 PV3 RpcPanic)"
    by code_simp+
  ultimately have "rb_external_state_root (sv_server double_fetch) \<and> rb_payload_to_fcu_request (sv_server double_fetch) 5 = None \<and>
    (\<exists>t \<in> set (sv_tasks double_fetch). recording 5 (fst t) \<or> list_ex (recalls 5) (snd t))"
    by (rule panic_needs_a_second_fetch_or_update)
  with p show ?thesis by (simp add: list_ex_iff)
qed

section \<open>Remembered requests accumulate\<close>

text \<open>
  An L2 client that gives every update with attributes a fresh payload id. In a round an update starts a payload
  and the block is then imported without a \<^verbatim>\<open>getPayload\<close> (another sequencer built it).
\<close>

definition fresh_ids_api :: "nat engine_api" where
  "fresh_ids_api =
     \<lparr>ea_fork_choice_updated_v3 = (\<lambda>_ _ n. (Inr (sample_fcu (Some (of_nat n))), Suc n)),
      ea_new_payload = (\<lambda>_ n. (Inr (sample_status Valid), n)),
      ea_get_payload = (\<lambda>_ _ n. (Inl (Io ''no payload''), n)),
      ea_get_block_by_number = (\<lambda>_ _ n. (Inl (Io ''no block''), n))\<rparr>"

definition fresh_ids_env :: "(nat, unit) engine_env" where
  "fresh_ids_env =
     \<lparr>env_l2 = fresh_ids_api,
      env_builder = sample_api (Inr (sample_fcu (Some 5))) (Inr (sample_status Valid)) (Inr (sample_env 50 9 [[1]])),
      env_cache = keep_all, env_span = None\<rparr>"

definition import_round :: "(nat, unit) rollup_boost_server \<Rightarrow> (nat, unit) rollup_boost_server" where
  "import_round s =
     snd (server_new_payload fresh_ids_env (new_payload_from_envelope (sample_env 100 8 []))
       (snd (fork_choice_updated_v3 fresh_ids_env sample_fcs (Some (sample_attrs None)) s)))"

lemma import_round:
  assumes "rb_execution_mode s = Enabled" "rb_external_state_root s" "\<not> rb_ignore_unhealthy_builders s"
    and "rb_payload_trace_context s = payload_trace_context_new"
  shows "rb_execution_mode (import_round s) = Enabled" "rb_external_state_root (import_round s)"
    "\<not> rb_ignore_unhealthy_builders (import_round s)"
    "rb_payload_trace_context (import_round s) = payload_trace_context_new"
    "rb_l2_client (import_round s) = Suc (rb_l2_client s)"
    "rb_payload_to_fcu_request (import_round s) =
       (rb_payload_to_fcu_request s)(of_nat (rb_l2_client s) \<mapsto> (sample_fcs, Some (sample_attrs None)))"
  using assms
  by (simp_all add: import_round_def server_new_payload_def fcu_defs should_skip_unhealthy_builder_def rb_store_def
      rb_remember_fcu_def fresh_ids_env_def fresh_ids_api_def sample_defs store_def remove_by_parent_hash_def
      payload_trace_context_new_def keep_all_def ep_parent_hash_def Let_def)

lemma import_round_dom:
  assumes "rb_execution_mode s = Enabled" "rb_external_state_root s" "\<not> rb_ignore_unhealthy_builders s"
    and "rb_payload_trace_context s = payload_trace_context_new"
  shows "dom (rb_payload_to_fcu_request (import_round s)) =
    insert (of_nat (rb_l2_client s)) (dom (rb_payload_to_fcu_request s))"
  by (subst import_round(6) [OF assms]) (rule trans, rule dom_fun_upd, simp)

text \<open>
  C23: \<^verbatim>\<open>payload_to_fcu_request\<close> has no bound. With an external state root, for every number of updates there is a
  session of that many rounds, each with an update and the import of a block, in the default mode with a healthy
  builder, after which every one of the requests is still remembered although the trace context is empty again,
  so that no \<^verbatim>\<open>getPayload\<close> for these ids will take one out.
\<close>

theorem remembered_requests_accumulate:
  assumes "n < 2 ^ 64"
  shows "\<exists>s. reach session_init (session_step fresh_ids_env) (s, {}) \<and>
    card (dom (rb_payload_to_fcu_request s)) = n \<and> rb_external_state_root s \<and>
    rb_payload_trace_context s = payload_trace_context_new \<and>
    (\<forall>pid v. rb_payload_to_fcu_request (snd (get_payload fresh_ids_env pid v s)) = rb_payload_to_fcu_request s)"
proof -
  let ?s = "(import_round ^^ n) (rollup_boost_server_new 0 () Enabled None probes_default True False)"
  have "reach session_init (session_step fresh_ids_env) ((import_round ^^ k) (rollup_boost_server_new 0 () Enabled None probes_default True False), {})" for k
  proof (induction k)
    case 0
    show ?case by (rule reach_init) (simp add: session_init_def, blast)
  next
    case (Suc k)
    from reach_step [OF reach_step [OF this step_fcu] step_new_payload] show ?case
      by (simp add: import_round_def)
  qed
  moreover have "k \<le> n \<Longrightarrow> rb_execution_mode ((import_round ^^ k) s0) = Enabled \<and> rb_external_state_root ((import_round ^^ k) s0) \<and>
      \<not> rb_ignore_unhealthy_builders ((import_round ^^ k) s0) \<and>
      rb_payload_trace_context ((import_round ^^ k) s0) = payload_trace_context_new \<and> rb_l2_client ((import_round ^^ k) s0) = k \<and>
      dom (rb_payload_to_fcu_request ((import_round ^^ k) s0)) = of_nat ` {..<k}"
    if "s0 = rollup_boost_server_new 0 () Enabled None probes_default True False" for k s0
  proof (induction k)
    case 0
    show ?case by (simp add: that rollup_boost_server_new_def)
  next
    case (Suc k)
    then show ?case by (simp add: import_round(1-5) import_round_dom lessThan_Suc)
  qed
  from this [OF refl, of n] have "rb_external_state_root ?s" "rb_payload_trace_context ?s = payload_trace_context_new"
    "dom (rb_payload_to_fcu_request ?s) = of_nat ` {..<n}" "rb_execution_mode ?s = Enabled" by simp_all
  moreover from this(2,4) have "rb_payload_to_fcu_request (snd (get_payload fresh_ids_env pid v ?s)) = rb_payload_to_fcu_request ?s" for pid v
    by (simp add: get_payload_def builder_fut_def fresh_ids_env_def fresh_ids_api_def)
  moreover have "card ((of_nat :: nat \<Rightarrow> payload_id) ` {..<n}) = n"
  proof -
    have "inj_on (of_nat :: nat \<Rightarrow> payload_id) {..<n}"
    proof (rule inj_onI)
      fix x y assume x: "x \<in> {..<n}" "y \<in> {..<n}" and eq: "(of_nat x :: payload_id) = of_nat y"
      have "unat (of_nat z :: payload_id) = z" if "z \<in> {..<n}" for z
        by (rule of_nat_inverse [OF refl]) (use that assms in simp)
      with x eq show "x = y" by metis
    qed
    then show ?thesis by (simp add: card_image)
  qed
  ultimately show ?thesis by (intro exI [where x = ?s]) simp
qed

theorem remembered_requests_accumulate_witness:
  "\<exists>s. reach session_init (session_step fresh_ids_env) (s, {}) \<and>
    card (dom (rb_payload_to_fcu_request s)) = 1000000 \<and> rb_payload_trace_context s = payload_trace_context_new"
  using remembered_requests_accumulate [of 1000000] by auto

end
