(* ===== verification/Server_Progress.thy ===== *)
theory Server_Progress
  imports Server_Async
begin

text \<open>
  Every request of the running server ends: \<open>rq_left\<close> is what a task has left to do, every poll of a task leaves it
  where it was or shortens it, and one of the two futures can always be polled with effect.
\<close>

section \<open>Every request ends\<close>

fun bf_left :: "bf_pc \<Rightarrow> nat" where
  "bf_left BfLookup = 6"
| "bf_left BfAsk = 5"
| "bf_left (BfRecall b) = 4"
| "bf_left (BfRecompute fcs attrs b) = 3"
| "bf_left (BfValidate b) = 3"
| "bf_left (BfFetch new_id) = 2"
| "bf_left (BfEnded r) = 0"

fun get_left :: "get_pc \<Rightarrow> nat" where
  "get_left (GetEntry pid v) = 20"
| "get_left (GetL2Only pid v) = 3"
| "get_left (GetSettle pid v r) = 2"
| "get_left (GetJoin pid v l2 bf) = 5 + (if l2 = None then 1 else 0) + bf_left bf"
| "get_left (GetChoose pid v p bp failed) = 2"
| "get_left (GetDegrade pid v p) = 1"
| "get_left (GetReturned pid v r) = 0"

fun fcu_left :: "fcu_pc \<Rightarrow> nat" where
  "fcu_left (FcuEntry fcs attrs) = 12"
| "fcu_left (FcuHealth fcs attrs) = 11"
| "fcu_left (FcuForward fcs attrs) = 1"
| "fcu_left (FcuNoPool fcs a) = 5"
| "fcu_left (FcuBoth fcs a l2 bld) = 6 + (if l2 = None then 1 else 0) + (if bld = None then 1 else 0)"
| "fcu_left (FcuPlain fcs) = 5"
| "fcu_left (FcuStoreId pid fcs attrs has remember resp) = 4"
| "fcu_left (FcuListId pid fcs attrs remember resp) = 3"
| "fcu_left (FcuRemember pid fcs attrs resp) = 2"
| "fcu_left (FcuReturned fcs attrs r) = 0"

fun new_left :: "new_pc \<Rightarrow> nat \<times> nat" where
  "new_left (NewEntry np) = (5, 0)"
| "new_left (NewForget np pids) = (4, length pids)"
| "new_left (NewMode np) = (3, 0)"
| "new_left (NewHealth np) = (2, 0)"
| "new_left (NewSend np) = (1, 0)"
| "new_left (NewReturned np r) = (0, 0)"

fun rq_left :: "rq_pc \<Rightarrow> nat \<times> nat" where
  "rq_left (RqGet pc) = (get_left pc, 0)"
| "rq_left (RqFcu pc) = (fcu_left pc, 0)"
| "rq_left (RqNew pc) = new_left pc"
| "rq_left (RqBlock (BlockEntry number full)) = (1, 0)"
| "rq_left (RqBlock (BlockReturned number full r)) = (0, 0)"

definition shorter :: "((nat \<times> nat) \<times> nat \<times> nat) set" where
  "shorter = less_than <*lex*> less_than"

lemma wf_shorter: "wf shorter"
  unfolding shorter_def by (rule wf_lex_prod) (rule wf_less_than)+

definition finished :: "rq_pc \<Rightarrow> bool" where
  "finished pc \<longleftrightarrow> rq_left pc = (0, 0)"

text \<open>Which future has to be polled: the L2 client's while it has not answered, then the builder's branch.\<close>

fun next_poll :: "rq_pc \<Rightarrow> bool" where
  "next_poll (RqGet (GetJoin pid v l2 bf)) \<longleftrightarrow> l2 = None"
| "next_poll (RqFcu (FcuBoth fcs a l2 bld)) \<longleftrightarrow> l2 = None"
| "next_poll pc \<longleftrightarrow> True"

lemma bf_step_left:
  "bf_step env pid v (bf, log, s) = (bf', log', s') \<Longrightarrow> bf \<notin> range BfEnded \<Longrightarrow> bf_left bf' < bf_left bf"
  by (cases bf) (auto simp: exchange_defs split: prod.splits sum.splits option.splits if_splits)

lemma get_step_left:
  assumes "get_step env poll (pc, log, s) = (pc', log', s')"
  shows "pc' = pc \<or> get_left pc' < get_left pc"
    and "0 < get_left pc \<Longrightarrow> poll = next_poll (RqGet pc) \<Longrightarrow> get_left pc' < get_left pc"
proof -
  have "(pc' = pc \<or> get_left pc' < get_left pc) \<and>
    (0 < get_left pc \<longrightarrow> poll = next_poll (RqGet pc) \<longrightarrow> get_left pc' < get_left pc)"
  proof (cases pc)
    case (GetJoin pid v r bf)
    obtain bf1 log1 s1 where b: "bf_step env pid v (bf, log, s) = (bf1, log1, s1)" by (metis surj_pair)
    show ?thesis
    proof (cases "r = None \<or> bf \<notin> range BfEnded")
      case True
      then show ?thesis
        using assms GetJoin bf_step_left [OF b] b
        by (cases "bf \<in> range BfEnded")
          (auto simp: get_join_open l2_get_def branch_polled_def split: if_splits prod.splits option.splits)
    qed (use assms GetJoin in \<open>auto simp: get_join_step_def split: sum.splits\<close>)
  next
    case (GetSettle pid v r)
    with assms show ?thesis by (cases r) auto
  next
    case (GetChoose pid v p bp failed)
    with assms show ?thesis by (cases bp) (auto split: if_splits prod.splits)
  qed (use assms in \<open>auto simp: exchange_defs split: prod.splits if_splits\<close>)
  then show "pc' = pc \<or> get_left pc' < get_left pc"
    and "0 < get_left pc \<Longrightarrow> poll = next_poll (RqGet pc) \<Longrightarrow> get_left pc' < get_left pc" by blast+
qed

lemma fcu_step_left:
  assumes "fcu_step env poll (pc, log, s) = (pc', log', s')"
  shows "(pc' = pc \<or> fcu_left pc' < fcu_left pc) \<and>
    (0 < fcu_left pc \<longrightarrow> poll = next_poll (RqFcu pc) \<longrightarrow> fcu_left pc' < fcu_left pc)"
proof (cases pc)
  case (FcuBoth fcs a l2 bld)
  with assms show ?thesis
    by (cases l2; cases bld) (auto simp: exchange_defs split: prod.splits sum.splits option.splits if_splits)
qed (use assms in \<open>auto simp: exchange_defs split: prod.splits sum.splits option.splits if_splits\<close>)

lemma new_step_left:
  assumes "new_step env (pc, log, s) = (pc', log', s')"
  shows "pc' = pc \<and> new_left pc = (0, 0) \<or> (new_left pc', new_left pc) \<in> shorter"
proof (cases pc)
  case (NewForget np pids)
  with assms show ?thesis by (cases pids) (auto simp: shorter_def)
qed (use assms in \<open>auto simp: exchange_defs shorter_def split: prod.splits if_splits\<close>)

lemma rq_step_left:
  assumes "rq_step env poll (pc, log, s) = (pc', log', s')"
  shows "pc' = pc \<or> (rq_left pc', rq_left pc) \<in> shorter"
    and "\<not> finished pc \<Longrightarrow> poll = next_poll pc \<Longrightarrow> (rq_left pc', rq_left pc) \<in> shorter"
proof -
  have "(pc' = pc \<or> (rq_left pc', rq_left pc) \<in> shorter) \<and>
    (\<not> finished pc \<longrightarrow> poll = next_poll pc \<longrightarrow> (rq_left pc', rq_left pc) \<in> shorter)"
    using assms
  proof (cases rule: rq_stepE)
    case (get p p')
    with get_step_left [OF get(3)] show ?thesis by (auto simp: shorter_def finished_def)
  next
    case (fcu p p')
    with fcu_step_left [OF fcu(3)] show ?thesis by (auto simp: shorter_def finished_def)
  next
    case (new p p')
    with new_step_left [OF new(3)] show ?thesis by (auto simp: finished_def)
  next
    case (block p p')
    then show ?thesis by (cases p) (auto simp: shorter_def finished_def split: prod.splits)
  qed
  then show "pc' = pc \<or> (rq_left pc', rq_left pc) \<in> shorter"
    and "\<not> finished pc \<Longrightarrow> poll = next_poll pc \<Longrightarrow> (rq_left pc', rq_left pc) \<in> shorter" by blast+
qed

text \<open>An infinite run.\<close>

primrec sv_run :: "('l, 'b) engine_env \<Rightarrow> (nat \<Rightarrow> ('l, 'b) sv_action) \<Rightarrow> ('l, 'b) sv_state \<Rightarrow> nat \<Rightarrow> ('l, 'b) sv_state" where
  "sv_run env acts c 0 = c"
| "sv_run env acts c (Suc n) = sv_exec env (acts n) (sv_run env acts c n)"

definition task_pc :: "nat \<Rightarrow> ('l, 'b) sv_state \<Rightarrow> rq_pc" where
  "task_pc i c = fst (sv_tasks c ! i)"

lemma sv_exec_task:
  assumes "i < length (sv_tasks c)"
  shows "i < length (sv_tasks (sv_exec env a c))"
    and "task_pc i (sv_exec env a c) = task_pc i c \<or>
      (rq_left (task_pc i (sv_exec env a c)), rq_left (task_pc i c)) \<in> shorter"
    and "a = Proceed i (next_poll (task_pc i c)) \<Longrightarrow> \<not> finished (task_pc i c) \<Longrightarrow>
      (rq_left (task_pc i (sv_exec env a c)), rq_left (task_pc i c)) \<in> shorter"
proof -
  show "i < length (sv_tasks (sv_exec env a c))" using assms by (cases a) (auto split: prod.split)
  have step: "task_pc i (sv_exec env (Proceed i poll) c) =
      fst (rq_step env poll (task_pc i c, snd (sv_tasks c ! i), sv_server c))" for poll
    using assms by (auto simp: task_pc_def split: prod.split)
  have other: "task_pc i (sv_exec env (Proceed j poll) c) = task_pc i c" if "j \<noteq> i" for j poll
    using that by (auto simp: task_pc_def split: prod.split)
  let ?x = "\<lambda>poll. rq_step env poll (task_pc i c, snd (sv_tasks c ! i), sv_server c)"
  have x: "?x poll = (fst (?x poll), fst (snd (?x poll)), snd (snd (?x poll)))" for poll by simp
  note left = rq_step_left [OF x]
  show "task_pc i (sv_exec env a c) = task_pc i c \<or>
      (rq_left (task_pc i (sv_exec env a c)), rq_left (task_pc i c)) \<in> shorter"
  proof (cases a)
    case (Proceed j poll)
    with step [of poll] other [of j poll] left(1) [of poll] show ?thesis by (cases "j = i") auto
  qed (use assms in \<open>auto simp: task_pc_def nth_append\<close>)
  show "(rq_left (task_pc i (sv_exec env a c)), rq_left (task_pc i c)) \<in> shorter"
    if "a = Proceed i (next_poll (task_pc i c))" "\<not> finished (task_pc i c)"
    using that step [of "next_poll (task_pc i c)"] left(2) [of "next_poll (task_pc i c)"] by simp
qed

lemma sv_run_kept:
  assumes "i < length (sv_tasks (sv_run env acts c n))" "n \<le> m"
  shows "i < length (sv_tasks (sv_run env acts c m)) \<and>
    (task_pc i (sv_run env acts c m) = task_pc i (sv_run env acts c n) \<or>
     (\<exists>k. n < k \<and> k \<le> m \<and> (rq_left (task_pc i (sv_run env acts c k)), rq_left (task_pc i (sv_run env acts c n))) \<in> shorter))"
  using assms(2)
proof (induction m rule: dec_induct)
  case (step m)
  let ?r = "sv_run env acts c"
  have len: "i < length (sv_tasks (?r m))" using step.IH by blast
  note exec = sv_exec_task [OF len, where a = "acts m" and env = env]
  consider (same) "task_pc i (?r m) = task_pc i (?r n)"
    | (less) k where "n < k" "k \<le> m" "(rq_left (task_pc i (?r k)), rq_left (task_pc i (?r n))) \<in> shorter"
    using step.IH by blast
  then show ?case
  proof cases
    case same
    then show ?thesis using exec(1,2) step.hyps(1) by (auto intro!: exI [where x = "Suc m"])
  next
    case less
    then show ?thesis using exec(1) by (auto intro: exI [where x = k])
  qed
qed (use assms(1) in simp)

lemma fair_run_finishes:
  assumes fair: "\<And>n poll. \<exists>m \<ge> n. acts m = Proceed i poll"
    and "i < length (sv_tasks (sv_run env acts c n))"
  shows "\<exists>m \<ge> n. finished (task_pc i (sv_run env acts c m))"
  using assms(2)
proof (induction "rq_left (task_pc i (sv_run env acts c n))" arbitrary: n rule: wf_induct_rule [OF wf_shorter])
  case (1 n)
  let ?r = "sv_run env acts c"
  show ?case
  proof (cases "finished (task_pc i (?r n))")
    case False
    obtain m where m: "n \<le> m" "acts m = Proceed i (next_poll (task_pc i (?r n)))" using fair by blast
    have "\<exists>k > n. (rq_left (task_pc i (?r k)), rq_left (task_pc i (?r n))) \<in> shorter"
    proof (cases "task_pc i (?r m) = task_pc i (?r n)")
      case True
      have "i < length (sv_tasks (?r m))" using sv_run_kept [OF 1(2) m(1)] by blast
      from sv_exec_task(3) [OF this, where a = "acts m" and env = env] m True False
      have "(rq_left (task_pc i (?r (Suc m))), rq_left (task_pc i (?r n))) \<in> shorter" by simp
      with m(1) show ?thesis by (meson le_imp_less_Suc)
    qed (use sv_run_kept [OF 1(2) m(1)] in blast)
    then obtain k where k: "n < k" "(rq_left (task_pc i (?r k)), rq_left (task_pc i (?r n))) \<in> shorter" by blast
    moreover have "i < length (sv_tasks (?r k))" using sv_run_kept [OF 1(2), of k] k(1) by simp
    ultimately obtain j where "k \<le> j" "finished (task_pc i (?r j))" using 1(1) by blast
    with k(1) show ?thesis by (meson le_trans less_imp_le)
  qed blast
qed


definition sample_polls :: "nat \<Rightarrow> (unit, unit) sv_action" where
  "sample_polls n = Proceed 0 (even n)"


end
