(* ===== verification/Inbound.thy ===== *)
theory Inbound
  imports Samples
begin

text \<open>
  The flashblocks receiver (\<^verbatim>\<open>flashblocks/inbound.rs\<close>, with its configuration in \<^verbatim>\<open>flashblocks/args.rs\<close>): it
  keeps a websocket connection to the builder, forwards the flashblocks that arrive, sends pings, and
  reconnects with a growing delay when the connection fails or no ping is answered.

  A connection has two tasks, a reader and a pinger. It runs over the sequence of what their \<^verbatim>\<open>select!\<close>s
  receive, each event with its time in milliseconds of the monotonic clock; the connection is over when
  one of the two tasks has returned. The pinger is then cancelled; the reader is only detached, so it
  handles what still arrives. UUIDs, JSON, the \<^verbatim>\<open>lru\<close> and the \<^verbatim>\<open>backoff\<close> crates are parameters.
\<close>

section \<open>Configuration\<close>

record ws_config =
  wc_initial_reconnect_ms :: u64
  wc_max_reconnect_ms :: u64
  wc_connect_timeout_ms :: u64
  wc_ping_interval_ms :: u64
  wc_pong_timeout_ms :: u64

text \<open>\<^verbatim>\<open>Duration::from_millis\<close>; durations are milliseconds.\<close>

definition initial_interval :: "ws_config \<Rightarrow> nat" where
  "initial_interval cfg = unat (wc_initial_reconnect_ms cfg)"

definition max_interval :: "ws_config \<Rightarrow> nat" where
  "max_interval cfg = unat (wc_max_reconnect_ms cfg)"

definition ping_interval :: "ws_config \<Rightarrow> nat" where
  "ping_interval cfg = unat (wc_ping_interval_ms cfg)"

definition pong_interval :: "ws_config \<Rightarrow> nat" where
  "pong_interval cfg = unat (wc_pong_timeout_ms cfg)"

text \<open>What the code asks of \<^verbatim>\<open>ExponentialBackoffBuilder\<close>.\<close>

record backoff_settings =
  bs_initial_interval :: nat
  bs_max_interval :: nat
  bs_randomization_factor :: nat
  bs_max_elapsed_time :: "nat option"
  bs_multiplier :: nat

record 'b backoff_lib =
  bl_build :: "backoff_settings \<Rightarrow> 'b"
  bl_next_backoff :: "'b \<Rightarrow> nat option \<times> 'b"
  bl_reset :: "'b \<Rightarrow> 'b"
  bl_max_interval :: "'b \<Rightarrow> nat"

definition config_backoff :: "'b backoff_lib \<Rightarrow> ws_config \<Rightarrow> 'b" where
  "config_backoff bl cfg =
     bl_build bl \<lparr>bs_initial_interval = initial_interval cfg, bs_max_interval = max_interval cfg,
       bs_randomization_factor = 0, bs_max_elapsed_time = None, bs_multiplier = 2\<rparr>"

section \<open>The receiver\<close>

definition MAXIMUM_PINGS :: nat where
  "MAXIMUM_PINGS = 60"

datatype flashblocks_receiver_error =
    RxConnection string
  | RxPingFailed
  | RxPongTimeout
  | RxMessageMissing
  | RxConnectionError string
  | RxConnectionClosed
  | RxTaskPanic string
  | RxSendError flashblocks_payload_v1
  | RxMutexPoisoned

type_synonym uuid = "128 word"

record 'c rx_lib =
  rl_uuid_from_slice :: "bytes \<Rightarrow> uuid option"
  rl_from_json :: "bytes \<Rightarrow> string + flashblocks_payload_v1"
  rl_lru_new :: "nat \<Rightarrow> 'c"
  rl_lru_put :: "uuid \<Rightarrow> 'c \<Rightarrow> 'c"
  rl_lru_pop :: "uuid \<Rightarrow> 'c \<Rightarrow> bool \<times> 'c"

record ws_inbound_metrics =
  wi_reconnect_attempts :: nat
  wi_connection_status :: nat
  wi_messages_received :: nat

text \<open>
  \<open>rx_sent\<close> is what went into the channel to the flashblocks service, \<open>rx_channel_open\<close> whether the
  service still has its end of it.
\<close>

record receiver_service =
  rx_websocket_config :: ws_config
  rx_metrics :: ws_inbound_metrics
  rx_sent :: "flashblocks_payload_v1 list"
  rx_channel_open :: bool

definition receiver_new :: "ws_config \<Rightarrow> receiver_service" where
  "receiver_new cfg =
     \<lparr>rx_websocket_config = cfg,
      rx_metrics = \<lparr>wi_reconnect_attempts = 0, wi_connection_status = 0, wi_messages_received = 0\<rparr>,
      rx_sent = [], rx_channel_open = True\<rparr>"

definition rx_count ::
  "(ws_inbound_metrics \<Rightarrow> ws_inbound_metrics) \<Rightarrow> receiver_service \<Rightarrow> receiver_service" where
  "rx_count f s = s\<lparr>rx_metrics := f (rx_metrics s)\<rparr>"

section \<open>One connection\<close>

datatype rx_message = RxText bytes | RxBinary bytes | RxPing bytes | RxPong bytes | RxClose | RxFrame

text \<open>What \<^verbatim>\<open>read.next()\<close> gives; a tick of the pinger has the new UUID and whether the ping was sent.\<close>

datatype rx_read = ReadMsg rx_message | ReadErr string | ReadEnd

datatype rx_event = Read rx_read | PongTick | PingTick uuid bool

datatype task_state = Running | Failed flashblocks_receiver_error | Cancelled

record 'c rx_conn =
  cn_cache :: 'c
  cn_poisoned :: bool
  cn_due :: nat
  cn_reader :: task_state
  cn_pinger :: task_state

text \<open>\<open>cn_due\<close> is the next tick of the pong interval, whose first tick is taken before the loop.\<close>

definition conn_start :: "'c rx_lib \<Rightarrow> nat \<Rightarrow> nat \<Rightarrow> 'c rx_conn" where
  "conn_start lib pong_timeout now =
     \<lparr>cn_cache = rl_lru_new lib MAXIMUM_PINGS, cn_poisoned = False, cn_due = now + pong_timeout,
      cn_reader = Running, cn_pinger = Running\<rparr>"

text \<open>
  \<^verbatim>\<open>tokio::time::interval\<close> panics on a period of zero. The reader makes the pong interval in its own task, which then ends
  at once with a panic.
\<close>

definition conn_new :: "'c rx_lib \<Rightarrow> nat \<Rightarrow> nat \<Rightarrow> 'c rx_conn" where
  "conn_new lib pong_timeout now =
     (let c = conn_start lib pong_timeout now in
      if pong_timeout = 0 then c\<lparr>cn_reader := Failed (RxTaskPanic ''interval'')\<rparr> else c)"

definition read_text ::
  "'c rx_lib \<Rightarrow> bytes \<Rightarrow> 'c rx_conn \<Rightarrow> receiver_service \<Rightarrow> 'c rx_conn \<times> receiver_service" where
  "read_text lib text c s =
     (let s1 = rx_count (\<lambda>m. m\<lparr>wi_messages_received := wi_messages_received m + 1\<rparr>) s in
      case rl_from_json lib text of
        Inr flashblocks_msg \<Rightarrow>
          if rx_channel_open s1 then (c, s1\<lparr>rx_sent := rx_sent s1 @ [flashblocks_msg]\<rparr>)
          else (c\<lparr>cn_reader := Failed (RxSendError flashblocks_msg)\<rparr>, s1)
      | Inl e \<Rightarrow> (c, s1))"

definition read_pong :: "'c rx_lib \<Rightarrow> nat \<Rightarrow> nat \<Rightarrow> bytes \<Rightarrow> 'c rx_conn \<Rightarrow> 'c rx_conn" where
  "read_pong lib pong_timeout now data c =
     (case rl_uuid_from_slice lib data of
        None \<Rightarrow> c
      | Some uuid \<Rightarrow>
          if cn_poisoned c then c\<lparr>cn_reader := Failed RxMutexPoisoned\<rparr>
          else
            (let (present, cache) = rl_lru_pop lib uuid (cn_cache c); c1 = c\<lparr>cn_cache := cache\<rparr> in
             if present then c1\<lparr>cn_due := now + pong_timeout\<rparr> else c1))"

definition read_step ::
  "'c rx_lib \<Rightarrow> nat \<Rightarrow> nat \<Rightarrow> rx_read \<Rightarrow> 'c rx_conn \<Rightarrow> receiver_service \<Rightarrow> 'c rx_conn \<times> receiver_service" where
  "read_step lib pong_timeout now r c s =
     (case r of
        ReadMsg msg \<Rightarrow>
          (case msg of
             RxText text \<Rightarrow> read_text lib text c s
           | RxClose \<Rightarrow> (c\<lparr>cn_reader := Failed RxConnectionClosed\<rparr>, s)
           | RxPong data \<Rightarrow> (read_pong lib pong_timeout now data c, s)
           | RxPing _ \<Rightarrow> (c, s)
           | _ \<Rightarrow> (c, s))
      | ReadErr e \<Rightarrow> (c\<lparr>cn_reader := Failed (RxConnectionError e)\<rparr>, s)
      | ReadEnd \<Rightarrow> (c\<lparr>cn_reader := Failed RxMessageMissing\<rparr>, s))"

definition ping_step :: "'c rx_lib \<Rightarrow> uuid \<Rightarrow> bool \<Rightarrow> 'c rx_conn \<Rightarrow> 'c rx_conn" where
  "ping_step lib uuid sent c =
     (if \<not> sent then c\<lparr>cn_pinger := Failed RxPingFailed\<rparr>
      else if cn_poisoned c then c\<lparr>cn_pinger := Failed RxMutexPoisoned\<rparr>
      else c\<lparr>cn_cache := rl_lru_put lib uuid (cn_cache c)\<rparr>)"

text \<open>A task that has returned takes no more events; the pong interval only ticks when it is due.\<close>

fun conn_event ::
  "'c rx_lib \<Rightarrow> nat \<Rightarrow> nat \<times> rx_event \<Rightarrow> 'c rx_conn \<times> receiver_service \<Rightarrow> 'c rx_conn \<times> receiver_service" where
  "conn_event lib pong_timeout (now, Read r) (c, s) =
     (if cn_reader c = Running then read_step lib pong_timeout now r c s else (c, s))"
| "conn_event lib pong_timeout (now, PongTick) (c, s) =
     (if cn_reader c = Running \<and> cn_due c \<le> now then (c\<lparr>cn_reader := Failed RxPongTimeout\<rparr>, s) else (c, s))"
| "conn_event lib pong_timeout (now, PingTick uuid sent) (c, s) =
     (if cn_pinger c = Running then (ping_step lib uuid sent c, s) else (c, s))"

text \<open>The \<^verbatim>\<open>select!\<close> over the two tasks: the error of the one that returned.\<close>

definition conn_result :: "'c rx_conn \<Rightarrow> flashblocks_receiver_error option" where
  "conn_result c =
     (case cn_reader c of
        Failed e \<Rightarrow> Some e
      | _ \<Rightarrow> (case cn_pinger c of Failed e \<Rightarrow> Some e | _ \<Rightarrow> None))"

text \<open>
  \<open>None\<close> while the connection is open after the given events; else the error, the time it is over, and the
  state after the detached reader has handled the events that follow.
\<close>

fun conn_run ::
  "'c rx_lib \<Rightarrow> nat \<Rightarrow> (nat \<times> rx_event) list \<Rightarrow> 'c rx_conn \<times> receiver_service
     \<Rightarrow> (flashblocks_receiver_error \<times> nat) option \<times> receiver_service" where
  "conn_run lib pong_timeout [] cs = (None, snd cs)"
| "conn_run lib pong_timeout (e # es) cs =
     (let (c, s) = conn_event lib pong_timeout e cs in
      case conn_result c of
        None \<Rightarrow> conn_run lib pong_timeout es (c, s)
      | Some err \<Rightarrow>
          (Some (err, fst e), snd (fold (conn_event lib pong_timeout) es (c\<lparr>cn_pinger := Cancelled\<rparr>, s))))"

text \<open>
  A connection: the error of connecting (a timeout included), or the time it is up and what follows. When the reader has
  panicked, the function returns early, before it looks at the backoff.
\<close>

type_synonym rx_connection = "string + nat \<times> (nat \<times> rx_event) list"

definition rx_connect_and_handle ::
  "'c rx_lib \<Rightarrow> 'b backoff_lib \<Rightarrow> rx_connection \<Rightarrow> 'b \<Rightarrow> receiver_service
     \<Rightarrow> (flashblocks_receiver_error + unit) option \<times> 'b \<times> receiver_service" where
  "rx_connect_and_handle lib bl conn backoff s =
     (case conn of
        Inl e \<Rightarrow> (Some (Inl (RxConnection e)), backoff, s)
      | Inr (start, es) \<Rightarrow>
          (let s1 = rx_count (\<lambda>m. m\<lparr>wi_connection_status := 1\<rparr>) s;
               T = pong_interval (rx_websocket_config s1)
           in if T = 0 then (Some (Inl (RxTaskPanic ''interval'')), backoff, s1)
              else case conn_run lib T es (conn_start lib T start, s1) of
                (None, s2) \<Rightarrow> (None, backoff, s2)
              | (Some (err, now), s2) \<Rightarrow>
                  (Some (Inl err),
                   if bl_max_interval bl backoff \<le> now - start then bl_reset bl backoff else backoff, s2)))"

text \<open>
  \<open>run\<close> over the given connections, with the pauses it made. \<open>None\<close> is a panic, which ends the receiver: of \<^verbatim>\<open>expect\<close>,
  or, once a connection is up, of the interval for the pings when its period is zero.
\<close>

fun rx_loop ::
  "'c rx_lib \<Rightarrow> 'b backoff_lib \<Rightarrow> rx_connection list \<Rightarrow> 'b \<Rightarrow> receiver_service
     \<Rightarrow> (nat list \<times> receiver_service) option" where
  "rx_loop lib bl [] backoff s = Some ([], s)"
| "rx_loop lib bl (conn # conns) backoff s =
     (if ping_interval (rx_websocket_config s) = 0 \<and> \<not> isl conn then None
      else case rx_connect_and_handle lib bl conn backoff s of
        (None, b, s1) \<Rightarrow> Some ([], s1)
      | (Some (Inr _), b, s1) \<Rightarrow> rx_loop lib bl conns b s1
      | (Some (Inl e), b, s1) \<Rightarrow>
          (case bl_next_backoff bl b of
             (None, _) \<Rightarrow> None
           | (Some pause, b1) \<Rightarrow>
               map_option (\<lambda>(pauses, s2). (pause # pauses, s2))
                 (rx_loop lib bl conns b1
                   (rx_count (\<lambda>m. m\<lparr>wi_reconnect_attempts := wi_reconnect_attempts m + 1,
                                    wi_connection_status := 0\<rparr>) s1))))"

definition receiver_run ::
  "'c rx_lib \<Rightarrow> 'b backoff_lib \<Rightarrow> rx_connection list \<Rightarrow> receiver_service \<Rightarrow> (nat list \<times> receiver_service) option" where
  "receiver_run lib bl conns s = rx_loop lib bl conns (config_backoff bl (rx_websocket_config s)) s"

section \<open>Delivery\<close>

text \<open>The flashblocks among the events, the number of text messages, and the events that end the reader.\<close>

fun flashblocks_of :: "'c rx_lib \<Rightarrow> (nat \<times> rx_event) list \<Rightarrow> flashblocks_payload_v1 list" where
  "flashblocks_of lib [] = []"
| "flashblocks_of lib ((_, Read (ReadMsg (RxText text))) # es) =
     (case rl_from_json lib text of Inr fb \<Rightarrow> fb # flashblocks_of lib es | Inl _ \<Rightarrow> flashblocks_of lib es)"
| "flashblocks_of lib (_ # es) = flashblocks_of lib es"

fun is_text :: "nat \<times> rx_event \<Rightarrow> bool" where
  "is_text (_, Read (ReadMsg (RxText _))) = True"
| "is_text _ = False"

fun ends_reader :: "rx_event \<Rightarrow> bool" where
  "ends_reader (Read (ReadMsg RxClose)) = True"
| "ends_reader (Read (ReadErr _)) = True"
| "ends_reader (Read ReadEnd) = True"
| "ends_reader PongTick = True"
| "ends_reader _ = False"

lemma rx_count_sel [simp]:
  "rx_sent (rx_count f s) = rx_sent s" "rx_channel_open (rx_count f s) = rx_channel_open s"
  "rx_metrics (rx_count f s) = f (rx_metrics s)"
  "rx_websocket_config (rx_count f s) = rx_websocket_config s"
  by (simp_all add: rx_count_def)

lemmas conn_defs = read_step_def read_text_def read_pong_def ping_step_def Let_def

lemma conn_event_config [simp]:
  "rx_websocket_config (snd (conn_event lib T e cs)) = rx_websocket_config (snd cs)"
  "rx_channel_open (snd (conn_event lib T e cs)) = rx_channel_open (snd cs)"
  "wi_reconnect_attempts (rx_metrics (snd (conn_event lib T e cs))) = wi_reconnect_attempts (rx_metrics (snd cs))"
  by (cases "(lib, T, e, cs)" rule: conn_event.cases;
      simp add: conn_defs split: rx_read.split rx_message.split sum.split)+

lemma conn_event_poisoned: "\<not> cn_poisoned (fst cs) \<Longrightarrow> \<not> cn_poisoned (fst (conn_event lib T e cs))"
  by (cases "(lib, T, e, cs)" rule: conn_event.cases)
    (simp_all add: conn_defs split: rx_read.split rx_message.split sum.split option.split prod.split)

text \<open>A task that has returned stays so.\<close>

lemma conn_event_stays:
  "cn_reader (fst cs) \<noteq> Running \<Longrightarrow> cn_reader (fst (conn_event lib T e cs)) \<noteq> Running"
  "cn_pinger (fst cs) \<noteq> Running \<Longrightarrow> cn_pinger (fst (conn_event lib T e cs)) \<noteq> Running"
  by (cases "(lib, T, e, cs)" rule: conn_event.cases;
      simp add: conn_defs split: rx_read.split rx_message.split sum.split option.split prod.split)+

lemma fold_conn_stays:
  "cn_reader (fst (fold (conn_event lib T) es cs)) = Running \<Longrightarrow> cn_reader (fst cs) = Running"
  "cn_pinger (fst (fold (conn_event lib T) es cs)) = Running \<Longrightarrow> cn_pinger (fst cs) = Running"
proof (induction es arbitrary: cs)
  case (Cons e es)
  { case 1
    then show ?case
      using Cons.IH(1) [of "conn_event lib T e cs"] conn_event_stays(1) [of cs lib T e] by auto
  next
    case 2
    then show ?case
      using Cons.IH(2) [of "conn_event lib T e cs"] conn_event_stays(2) [of cs lib T e] by auto
  }
qed simp_all

text \<open>One event of a running reader: it delivers, or it ends the reader.\<close>

lemma conn_event_delivers:
  assumes "cn_reader (fst cs) = Running" "rx_channel_open (snd cs)" "\<not> cn_poisoned (fst cs)"
  shows "if cn_reader (fst (conn_event lib T e cs)) = Running
    then rx_sent (snd (conn_event lib T e cs)) = rx_sent (snd cs) @ flashblocks_of lib [e] \<and>
      wi_messages_received (rx_metrics (snd (conn_event lib T e cs))) =
        wi_messages_received (rx_metrics (snd cs)) + length (filter is_text [e])
    else snd (conn_event lib T e cs) = snd cs \<and> ends_reader (snd e)"
  using assms
  by (cases "(lib, T, e, cs)" rule: conn_event.cases)
    (simp_all add: conn_defs split: rx_read.split rx_message.split sum.split option.split prod.split)

lemma conn_event_dead:
  "cn_reader (fst cs) \<noteq> Running \<Longrightarrow> snd (conn_event lib T e cs) = snd cs"
  by (cases "(lib, T, e, cs)" rule: conn_event.cases) simp_all

lemma fold_conn_dead:
  "cn_reader (fst cs) \<noteq> Running \<Longrightarrow> snd (fold (conn_event lib T) es cs) = snd cs"
  by (induction es arbitrary: cs) (simp_all add: conn_event_dead conn_event_stays)

definition delivers ::
  "'c rx_lib \<Rightarrow> (nat \<times> rx_event) list \<Rightarrow> receiver_service \<Rightarrow> receiver_service \<Rightarrow> (nat \<times> rx_event) list
     \<Rightarrow> (nat \<times> rx_event) list \<Rightarrow> bool" where
  "delivers lib es s s' pre suf \<longleftrightarrow>
     es = pre @ suf \<and> rx_sent s' = rx_sent s @ flashblocks_of lib pre \<and>
     wi_messages_received (rx_metrics s') = wi_messages_received (rx_metrics s) + length (filter is_text pre) \<and>
     (suf = [] \<or> ends_reader (snd (hd suf)))"

lemma flashblocks_of_Cons: "flashblocks_of lib (e # es) = flashblocks_of lib [e] @ flashblocks_of lib es"
  by (cases "(lib, e # es)" rule: flashblocks_of.cases) (auto split: sum.splits)

lemma delivers_Cons:
  assumes "rx_sent s1 = rx_sent s @ flashblocks_of lib [e]"
    "wi_messages_received (rx_metrics s1) = wi_messages_received (rx_metrics s) + length (filter is_text [e])"
    "delivers lib es s1 s' pre suf"
  shows "delivers lib (e # es) s s' (e # pre) suf"
  using assms flashblocks_of_Cons [of lib e pre] by (auto simp: delivers_def)

lemma delivers_end: "ends_reader (snd e) \<Longrightarrow> delivers lib (e # es) s s [] (e # es)"
  by (simp add: delivers_def)

lemma fold_conn_delivers:
  assumes "cn_reader (fst cs) = Running" "rx_channel_open (snd cs)" "\<not> cn_poisoned (fst cs)"
  shows "\<exists>pre suf. delivers lib es (snd cs) (snd (fold (conn_event lib T) es cs)) pre suf"
  using assms
proof (induction es arbitrary: cs)
  case Nil
  show ?case by (simp add: delivers_def)
next
  case (Cons e es)
  let ?cs = "conn_event lib T e cs"
  note step = conn_event_delivers [OF Cons.prems, of lib T e]
  show ?case
  proof (cases "cn_reader (fst ?cs) = Running")
    case True
    with Cons.IH [of ?cs] Cons.prems obtain pre suf where
      "delivers lib es (snd ?cs) (snd (fold (conn_event lib T) es ?cs)) pre suf"
      by (auto simp: conn_event_poisoned)
    with step True have "delivers lib (e # es) (snd cs) (snd (fold (conn_event lib T) es ?cs)) (e # pre) suf"
      by (intro delivers_Cons) (simp_all only: if_True)
    then show ?thesis by auto
  next
    case False
    with step show ?thesis by (auto simp: fold_conn_dead intro: delivers_end)
  qed
qed

lemma conn_run_delivers:
  assumes "cn_reader (fst cs) = Running" "rx_channel_open (snd cs)" "\<not> cn_poisoned (fst cs)"
    "conn_run lib T es cs = (r, s')"
  shows "\<exists>pre suf. delivers lib es (snd cs) s' pre suf \<and> (r = None \<longrightarrow> suf = [])"
  using assms
proof (induction es arbitrary: cs)
  case Nil
  then show ?case by (auto simp: delivers_def)
next
  case (Cons e es)
  obtain c s where cs: "conn_event lib T e cs = (c, s)" by (metis surj_pair)
  note step = conn_event_delivers [OF Cons.prems(1-3), of lib T e, unfolded cs fst_conv snd_conv]
  have ok: "rx_channel_open s" "\<not> cn_poisoned c"
    using conn_event_config(2) [of lib T e cs] conn_event_poisoned [of cs lib T e] Cons.prems cs by simp_all
  show ?case
  proof (cases "conn_result c")
    case None
    then have run: "cn_reader c \<noteq> Failed x" for x by (auto simp: conn_result_def)
    show ?thesis
    proof (cases "cn_reader c = Running")
      case True
      with Cons.IH [of "(c, s)"] Cons.prems cs None ok obtain pre suf where
        ih: "delivers lib es s s' pre suf" "r = None \<longrightarrow> suf = []" by auto
      have "delivers lib (e # es) (snd cs) s' (e # pre) suf"
        using step True by (intro delivers_Cons [OF _ _ ih(1)]) (simp_all only: if_True)
      with ih(2) show ?thesis by auto
    next
      case False
      with run have "cn_reader c = Cancelled" by (cases "cn_reader c") auto
      then show ?thesis using Cons.prems(1) cs
        by (cases "(lib, T, e, cs)" rule: conn_event.cases)
          (auto simp: conn_defs split: rx_read.splits rx_message.splits sum.splits option.splits prod.splits if_splits)
    qed
  next
    case (Some err)
    then have s': "s' = snd (fold (conn_event lib T) es (c\<lparr>cn_pinger := Cancelled\<rparr>, s))" "r \<noteq> None"
      using Cons.prems(4) cs by auto
    show ?thesis
    proof (cases "cn_reader c = Running")
      case True
      with fold_conn_delivers [of "(c\<lparr>cn_pinger := Cancelled\<rparr>, s)" lib es T] ok obtain pre suf where
        "delivers lib es s s' pre suf" by (auto simp: s')
      with step True have "delivers lib (e # es) (snd cs) s' (e # pre) suf"
        by (intro delivers_Cons) (simp_all only: if_True)
      with s' show ?thesis by auto
    next
      case False
      then have "s' = s" by (simp add: s' fold_conn_dead)
      with step False s' show ?thesis by (auto intro: delivers_end)
    qed
  qed
qed


section \<open>Keep-alive\<close>

text \<open>
  The documented behaviour of \<^verbatim>\<open>LruCache\<close>: a capacity, and the keys by recency of use; inserting puts a key
  first and drops what exceeds the capacity, \<^verbatim>\<open>pop\<close> removes a key and says whether it was there.
\<close>

definition lru_laws :: "'c rx_lib \<Rightarrow> ('c \<Rightarrow> nat) \<Rightarrow> ('c \<Rightarrow> uuid list) \<Rightarrow> bool" where
  "lru_laws lib capacity contents \<longleftrightarrow>
     (\<forall>n. capacity (rl_lru_new lib n) = n \<and> contents (rl_lru_new lib n) = []) \<and>
     (\<forall>u c. capacity (rl_lru_put lib u c) = capacity c \<and>
        contents (rl_lru_put lib u c) = take (capacity c) (u # removeAll u (contents c))) \<and>
     (\<forall>u c. fst (rl_lru_pop lib u c) = (u \<in> set (contents c)) \<and>
        capacity (snd (rl_lru_pop lib u c)) = capacity c \<and>
        contents (snd (rl_lru_pop lib u c)) = removeAll u (contents c))"

fun ping_of :: "nat \<times> rx_event \<Rightarrow> uuid option" where
  "ping_of (_, PingTick u sent) = (if sent then Some u else None)"
| "ping_of _ = None"

fun pong_of :: "'c rx_lib \<Rightarrow> nat \<times> rx_event \<Rightarrow> uuid option" where
  "pong_of lib (_, Read (ReadMsg (RxPong d))) = rl_uuid_from_slice lib d"
| "pong_of lib _ = None"

definition conn_live :: "'c rx_conn \<Rightarrow> bool" where
  "conn_live c \<longleftrightarrow> cn_reader c = Running \<and> cn_pinger c = Running \<and> \<not> cn_poisoned c"

text \<open>What one event does to the cache and the deadline of a connection that stays up.\<close>

lemma conn_event_cache:
  assumes "lru_laws lib capacity contents" "conn_live c" "conn_live (fst (conn_event lib T e (c, s)))"
  shows "capacity (cn_cache (fst (conn_event lib T e (c, s)))) = capacity (cn_cache c) \<and>
    contents (cn_cache (fst (conn_event lib T e (c, s)))) =
      (case ping_of e of
         Some u \<Rightarrow> take (capacity (cn_cache c)) (u # removeAll u (contents (cn_cache c)))
       | None \<Rightarrow> (case pong_of lib e of
           Some u \<Rightarrow> removeAll u (contents (cn_cache c)) | None \<Rightarrow> contents (cn_cache c))) \<and>
    cn_due (fst (conn_event lib T e (c, s))) =
      (case pong_of lib e of
         Some u \<Rightarrow> if u \<in> set (contents (cn_cache c)) then fst e + T else cn_due c
       | None \<Rightarrow> cn_due c)"
proof -
  have pop: "fst (rl_lru_pop lib u k) = (u \<in> set (contents k))"
    "capacity (snd (rl_lru_pop lib u k)) = capacity k"
    "contents (snd (rl_lru_pop lib u k)) = removeAll u (contents k)"
    "capacity (rl_lru_put lib u k) = capacity k"
    "contents (rl_lru_put lib u k) = take (capacity k) (u # removeAll u (contents k))" for u k
    using assms(1) by (simp_all add: lru_laws_def)
  show ?thesis
    using assms(2,3)
    by (cases "(lib, T, e, (c, s))" rule: conn_event.cases)
      (simp_all add: conn_defs conn_live_def pop case_prod_beta
        split: rx_read.split_asm rx_message.split_asm sum.split_asm option.split_asm if_split_asm
          rx_read.split rx_message.split sum.split option.split)
qed

lemma ping_not_pong: "ping_of e = Some u \<Longrightarrow> pong_of lib e = None"
  by (cases e rule: ping_of.cases) (auto split: if_splits)

definition conn_after ::
  "'c rx_lib \<Rightarrow> nat \<Rightarrow> nat \<Rightarrow> receiver_service \<Rightarrow> (nat \<times> rx_event) list \<Rightarrow> 'c rx_conn" where
  "conn_after lib T start s es = fst (fold (conn_event lib T) es (conn_start lib T start, s))"

lemma conn_live_fold:
  assumes "conn_live (fst (fold (conn_event lib T) es cs))"
  shows "cn_reader (fst cs) = Running" "cn_pinger (fst cs) = Running"
  using assms fold_conn_stays [of lib T es cs] by (simp_all add: conn_live_def)

lemma fold_conn_unpoisoned:
  "\<not> cn_poisoned (fst cs) \<Longrightarrow> \<not> cn_poisoned (fst (fold (conn_event lib T) es cs))"
  by (induction es arbitrary: cs) (simp_all add: conn_event_poisoned)

text \<open>The connection after one more event, when it is still up.\<close>

lemma conn_after_snoc:
  assumes "lru_laws lib capacity contents" "conn_live (conn_after lib T start s (es @ [e]))"
  defines "c \<equiv> conn_after lib T start s es" and "c' \<equiv> conn_after lib T start s (es @ [e])"
  shows "conn_live c \<and> capacity (cn_cache c') = capacity (cn_cache c) \<and>
    contents (cn_cache c') =
      (case ping_of e of
         Some u \<Rightarrow> take (capacity (cn_cache c)) (u # removeAll u (contents (cn_cache c)))
       | None \<Rightarrow> (case pong_of lib e of
           Some u \<Rightarrow> removeAll u (contents (cn_cache c)) | None \<Rightarrow> contents (cn_cache c))) \<and>
    cn_due c' =
      (case pong_of lib e of
         Some u \<Rightarrow> if u \<in> set (contents (cn_cache c)) then fst e + T else cn_due c
       | None \<Rightarrow> cn_due c)"
proof -
  obtain c0 s0 where cs: "fold (conn_event lib T) es (conn_start lib T start, s) = (c0, s0)" by (metis surj_pair)
  then have c: "c = c0" "c' = fst (conn_event lib T e (c0, s0))"
    by (simp_all add: c_def c'_def conn_after_def)
  have "\<not> cn_poisoned c0"
    using fold_conn_unpoisoned [of "(conn_start lib T start, s)" lib T es] cs by (simp add: conn_start_def)
  moreover have "conn_live (fst (fold (conn_event lib T) [e] (c0, s0)))"
    using assms(2) cs by (simp add: conn_after_def)
  ultimately have "conn_live c0"
    using conn_live_fold [of lib T "[e]" "(c0, s0)"] by (simp add: conn_live_def)
  moreover from this have "conn_live (fst (conn_event lib T e (c0, s0)))"
    using assms(2) c(2) by (simp add: c'_def)
  ultimately show ?thesis
    unfolding c using conn_event_cache [OF assms(1)] by blast
qed

lemma conn_after_capacity:
  assumes "lru_laws lib capacity contents" "conn_live (conn_after lib T start s es)"
  shows "capacity (cn_cache (conn_after lib T start s es)) = MAXIMUM_PINGS"
  using assms(2)
proof (induction es rule: rev_induct)
  case Nil
  then show ?case using assms(1) by (simp add: conn_after_def conn_start_def lru_laws_def)
next
  case (snoc e es)
  with conn_after_snoc [OF assms(1) snoc.prems] show ?case by simp
qed

text \<open>Every UUID in the cache was sent in a ping and not answered since.\<close>

lemma cache_holds_pings:
  assumes "lru_laws lib capacity contents" "conn_live (conn_after lib T start s es)"
    "u \<in> set (contents (cn_cache (conn_after lib T start s es)))"
  shows "\<exists>es1 ping es2. es = es1 @ ping # es2 \<and> ping_of ping = Some u \<and> (\<forall>e \<in> set es2. pong_of lib e \<noteq> Some u)"
  using assms(2,3)
proof (induction es rule: rev_induct)
  case Nil
  then show ?case using assms(1) by (simp add: conn_after_def conn_start_def lru_laws_def)
next
  case (snoc e es)
  note step = conn_after_snoc [OF assms(1) snoc.prems(1)]
  show ?case
  proof (cases "ping_of e = Some u")
    case True
    then show ?thesis by (intro exI [of _ es] exI [of _ e] exI [of _ "[]"]) simp
  next
    case False
    have "u \<in> set (contents (cn_cache (conn_after lib T start s es))) \<and> pong_of lib e \<noteq> Some u"
      using step snoc.prems(2) False ping_not_pong [of e _ lib]
      by (auto split: option.splits dest: in_set_takeD)
    with snoc.IH step obtain es1 ping es2 where
      "es = es1 @ ping # es2" "ping_of ping = Some u" "\<forall>e \<in> set (es2 @ [e]). pong_of lib e \<noteq> Some u" by auto
    then show ?thesis by (intro exI [of _ es1] exI [of _ ping] exI [of _ "es2 @ [e]"]) simp
  qed
qed

lemma take_removeAll_position:
  assumes "v \<noteq> u" "length ys < m"
  shows "\<exists>ys' zs'. take m (removeAll v (ys @ u # zs)) = ys' @ u # zs' \<and> length ys' \<le> length ys"
proof -
  have len: "length (removeAll v ys) \<le> length ys" by (rule length_removeAll_less_eq)
  with assms(2) obtain k where "m = length (removeAll v ys) + Suc k"
    by (metis add_Suc_right le_less_trans less_imp_Suc_add)
  with assms(1) len show ?thesis
    by (intro exI [of _ "removeAll v ys"] exI [of _ "take k (removeAll v zs)"]) simp
qed

text \<open>A ping stays in the cache until it is answered or enough later pings push it out.\<close>

lemma ping_stays_cached:
  assumes "lru_laws lib capacity contents" "conn_live (conn_after lib T start s (es1 @ ping # es2))"
    "ping_of ping = Some u" "\<forall>e \<in> set es2. pong_of lib e \<noteq> Some u"
    "length (filter (\<lambda>e. ping_of e \<noteq> None) es2) < MAXIMUM_PINGS"
  shows "\<exists>ys zs. contents (cn_cache (conn_after lib T start s (es1 @ ping # es2))) = ys @ u # zs \<and>
    length ys \<le> length (filter (\<lambda>e. ping_of e \<noteq> None) es2)"
  using assms(2,4,5)
proof (induction es2 rule: rev_induct)
  case Nil
  then have live: "conn_live (conn_after lib T start s (es1 @ [ping]))" by simp
  note step = conn_after_snoc [OF assms(1) live]
  have "capacity (cn_cache (conn_after lib T start s es1)) = Suc 59"
    using conn_after_capacity [OF assms(1)] step by (simp add: MAXIMUM_PINGS_def)
  with step assms(3) show ?case by auto
next
  case (snoc e es2)
  have live: "conn_live (conn_after lib T start s ((es1 @ ping # es2) @ [e]))" using snoc.prems(1) by simp
  note step = conn_after_snoc [OF assms(1) live]
  let ?n = "length (filter (\<lambda>e. ping_of e \<noteq> None) es2)"
  have cap: "capacity (cn_cache (conn_after lib T start s (es1 @ ping # es2))) = MAXIMUM_PINGS"
    using conn_after_capacity [OF assms(1)] step by blast
  obtain ys zs where c: "contents (cn_cache (conn_after lib T start s (es1 @ ping # es2))) = ys @ u # zs"
    "length ys \<le> ?n"
    using snoc step by (auto split: if_splits)
  show ?case
  proof (cases "ping_of e")
    case None
    with step c snoc.prems(2) show ?thesis
      by (cases "pong_of lib e") (auto intro: order_trans [OF length_removeAll_less_eq])
  next
    case (Some v)
    then have n: "?n < 59" using snoc.prems(3) by (simp add: MAXIMUM_PINGS_def)
    have new: "contents (cn_cache (conn_after lib T start s (es1 @ ping # es2 @ [e]))) =
        v # take 59 (removeAll v (ys @ u # zs))"
      using step Some cap c by (simp add: MAXIMUM_PINGS_def)
    show ?thesis
    proof (cases "v = u")
      case True
      have "contents (cn_cache (conn_after lib T start s (es1 @ ping # es2 @ [e]))) =
          [] @ u # take 59 (removeAll v ys @ removeAll v zs)"
        unfolding new by (simp only: removeAll_append removeAll.simps append.simps refl if_True True)
      then show ?thesis by (metis list.size(3) zero_le)
    next
      case False
      have "length ys < 59" using c(2) n by linarith
      from take_removeAll_position [OF False this] obtain ys' zs' where
        pos: "take 59 (removeAll v (ys @ u # zs)) = ys' @ u # zs'" "length ys' \<le> length ys" by blast
      have "contents (cn_cache (conn_after lib T start s (es1 @ ping # es2 @ [e]))) = (v # ys') @ u # zs'"
        unfolding new pos(1) by simp
      moreover have "length (v # ys') \<le> length (filter (\<lambda>e. ping_of e \<noteq> None) (es2 @ [e]))"
        using Some pos(2) c(2) by simp
      ultimately show ?thesis by blast
    qed
  qed
qed

text \<open>At time \<open>t\<close> a pong came with the identifier of an earlier ping that had not been answered since.\<close>

definition answered_at :: "'c rx_lib \<Rightarrow> (nat \<times> rx_event) list \<Rightarrow> nat \<Rightarrow> bool" where
  "answered_at lib es t \<longleftrightarrow>
     (\<exists>es1 ping es2 d u es3. es = es1 @ ping # es2 @ (t, Read (ReadMsg (RxPong d))) # es3 \<and>
        ping_of ping = Some u \<and> rl_uuid_from_slice lib d = Some u \<and>
        (\<forall>e \<in> set es2. pong_of lib e \<noteq> Some u))"

lemma answered_at_snoc: "answered_at lib es t \<Longrightarrow> answered_at lib (es @ [e]) t"
  unfolding answered_at_def by (metis (no_types, lifting) append.assoc append_Cons)

lemma due_from_answer:
  assumes "lru_laws lib capacity contents" "conn_live (conn_after lib T start s es)"
  shows "cn_due (conn_after lib T start s es) = start + T \<or>
    (\<exists>t. answered_at lib es t \<and> cn_due (conn_after lib T start s es) = t + T)"
  using assms(2)
proof (induction es rule: rev_induct)
  case Nil
  show ?case by (simp add: conn_after_def conn_start_def)
next
  case (snoc e es)
  note step = conn_after_snoc [OF assms(1) snoc.prems]
  let ?c = "conn_after lib T start s es"
  show ?case
  proof (cases "\<exists>u. pong_of lib e = Some u \<and> u \<in> set (contents (cn_cache ?c))")
    case True
    then obtain u where u: "pong_of lib e = Some u" "u \<in> set (contents (cn_cache ?c))" by blast
    then obtain t d where e: "e = (t, Read (ReadMsg (RxPong d)))" "rl_uuid_from_slice lib d = Some u"
      by (cases "(lib, e)" rule: pong_of.cases) auto
    from cache_holds_pings [OF assms(1) _ u(2)] step obtain es1 ping es2 where
      "es = es1 @ ping # es2" "ping_of ping = Some u" "\<forall>e \<in> set es2. pong_of lib e \<noteq> Some u" by blast
    then have "answered_at lib (es @ [e]) t" using e unfolding answered_at_def by fastforce
    moreover have "cn_due (conn_after lib T start s (es @ [e])) = t + T" using step u e by simp
    ultimately show ?thesis by blast
  next
    case False
    then have "cn_due (conn_after lib T start s (es @ [e])) = cn_due ?c"
      using step by (auto split: option.splits)
    with snoc.IH step show ?thesis using answered_at_snoc by fastforce
  qed
qed

text \<open>
  C28: exactly answered pings keep a connection alive. While a connection is up, the time at which it would be
  given up is the pong timeout after its start, or after a pong that repeats the identifier of a ping
  sent before on this connection and not answered since: forged and repeated pongs count for nothing.
  And every such pong moves it, as long as fewer than 60 further pings were sent since the one it answers.
\<close>

theorem only_answered_pings_keep_alive:
  assumes "lru_laws lib capacity contents"
    and "c = fst (fold (conn_event lib T) es (conn_start lib T start, s))"
    and "cn_reader c = Running" "cn_pinger c = Running"
  shows "(cn_due c = start + T \<or> (\<exists>t. answered_at lib es t \<and> cn_due c = t + T)) \<and>
    (\<forall>es1 ping es2 t d u. es = es1 @ ping # es2 @ [(t, Read (ReadMsg (RxPong d)))] \<longrightarrow>
       ping_of ping = Some u \<longrightarrow> rl_uuid_from_slice lib d = Some u \<longrightarrow>
       (\<forall>e \<in> set es2. pong_of lib e \<noteq> Some u) \<longrightarrow>
       length (filter (\<lambda>e. ping_of e \<noteq> None) es2) < 60 \<longrightarrow> cn_due c = t + T)"
    (is "?from \<and> ?reset")
proof
  have live: "conn_live (conn_after lib T start s es)"
    using assms(2-) fold_conn_unpoisoned [of "(conn_start lib T start, s)" lib T es]
    by (simp add: conn_live_def conn_after_def conn_start_def)
  have c: "c = conn_after lib T start s es" by (simp add: assms(2) conn_after_def)
  show ?from unfolding c using due_from_answer [OF assms(1) live] .
  show ?reset
  proof (intro allI impI)
    fix es1 ping es2 d u and t :: nat
    let ?e = "(t, Read (ReadMsg (RxPong d)))"
    assume es: "es = es1 @ ping # es2 @ [?e]" and u: "ping_of ping = Some u" "rl_uuid_from_slice lib d = Some u"
      "\<forall>e \<in> set es2. pong_of lib e \<noteq> Some u" "length (filter (\<lambda>e. ping_of e \<noteq> None) es2) < 60"
    have live': "conn_live (conn_after lib T start s ((es1 @ ping # es2) @ [?e]))" using live es by simp
    note step = conn_after_snoc [OF assms(1) live']
    from ping_stays_cached [OF assms(1) _ u(1,3)] step u(4)
    have "u \<in> set (contents (cn_cache (conn_after lib T start s (es1 @ ping # es2))))"
      by (fastforce simp: MAXIMUM_PINGS_def)
    with step u(2) show "cn_due c = t + T" by (simp add: c es)
  qed
qed

section \<open>Reconnecting\<close>

text \<open>
  The documented behaviour of \<^verbatim>\<open>ExponentialBackoff\<close>: it keeps its settings and a current interval, which starts
  at the initial one; without randomisation and time limit the next pause is the current interval, which
  is then multiplied up to the maximum.
\<close>

definition backoff_laws :: "'b backoff_lib \<Rightarrow> ('b \<Rightarrow> backoff_settings) \<Rightarrow> ('b \<Rightarrow> nat) \<Rightarrow> bool" where
  "backoff_laws bl settings current \<longleftrightarrow>
     (\<forall>st. settings (bl_build bl st) = st \<and> current (bl_build bl st) = bs_initial_interval st) \<and>
     (\<forall>b. bl_max_interval bl b = bs_max_interval (settings b)) \<and>
     (\<forall>b. settings (bl_reset bl b) = settings b \<and>
        current (bl_reset bl b) = bs_initial_interval (settings b)) \<and>
     (\<forall>b. settings (snd (bl_next_backoff bl b)) = settings b) \<and>
     (\<forall>b. bs_randomization_factor (settings b) = 0 \<longrightarrow> bs_max_elapsed_time (settings b) = None \<longrightarrow>
        fst (bl_next_backoff bl b) = Some (current b) \<and>
        current (snd (bl_next_backoff bl b)) =
          min (bs_multiplier (settings b) * current b) (bs_max_interval (settings b)))"

text \<open>
  A connection that could not be made, or that the other side ended before the maximal interval was over.
\<close>

definition short_lived :: "nat \<Rightarrow> rx_connection \<Rightarrow> bool" where
  "short_lived maxi conn =
     (case conn of
        Inl _ \<Rightarrow> True
      | Inr (start, es) \<Rightarrow>
          (\<forall>e \<in> set es. start \<le> fst e \<and> fst e < start + maxi) \<and> (\<exists>e \<in> set es. ends_reader (snd e) \<and> snd e \<noteq> PongTick))"

lemma conn_event_not_cancelled:
  "cn_reader (fst cs) = Running \<Longrightarrow> cn_reader (fst (conn_event lib T e cs)) \<noteq> Cancelled"
  by (cases "(lib, T, e, cs)" rule: conn_event.cases)
    (simp_all add: conn_defs split: rx_read.split rx_message.split sum.split option.split prod.split)

lemma conn_event_ends:
  "cn_reader (fst cs) = Running \<Longrightarrow> ends_reader (snd e) \<Longrightarrow> snd e \<noteq> PongTick \<Longrightarrow>
     conn_result (fst (conn_event lib T e cs)) \<noteq> None"
  by (cases "(lib, T, e, cs)" rule: conn_event.cases)
    (auto simp: conn_defs conn_result_def split: rx_read.splits rx_message.splits)

lemma conn_run_ends:
  assumes "cn_reader (fst cs) = Running" "e \<in> set es" "ends_reader (snd e)" "snd e \<noteq> PongTick"
  shows "\<exists>err now s'. conn_run lib T es cs = (Some (err, now), s') \<and> now \<in> fst ` set es"
  using assms(1,2)
proof (induction es arbitrary: cs)
  case (Cons e1 es)
  obtain c s where cs: "conn_event lib T e1 cs = (c, s)" by (metis surj_pair)
  show ?case
  proof (cases "conn_result c")
    case None
    then have "e1 \<noteq> e" using conn_event_ends [of cs e lib T] Cons.prems(1) assms(3,4) cs by auto
    moreover have "cn_reader c = Running"
      using None conn_event_not_cancelled [of cs lib T e1] Cons.prems(1) cs
      by (cases "cn_reader c") (auto simp: conn_result_def)
    ultimately show ?thesis using Cons.IH [of "(c, s)"] Cons.prems(2) None cs by auto
  qed (simp add: cs)
qed simp

lemma fold_conn_metrics:
  "wi_reconnect_attempts (rx_metrics (snd (fold (conn_event lib T) es cs))) =
     wi_reconnect_attempts (rx_metrics (snd cs))"
  "rx_websocket_config (snd (fold (conn_event lib T) es cs)) = rx_websocket_config (snd cs)"
  by (induction es arbitrary: cs) simp_all

lemma conn_run_metrics:
  "wi_reconnect_attempts (rx_metrics (snd (conn_run lib T es cs))) = wi_reconnect_attempts (rx_metrics (snd cs)) \<and>
   rx_websocket_config (snd (conn_run lib T es cs)) = rx_websocket_config (snd cs)"
proof (induction es arbitrary: cs)
  case (Cons e es)
  obtain c s where cs: "conn_event lib T e cs = (c, s)" by (metis surj_pair)
  have "wi_reconnect_attempts (rx_metrics s) = wi_reconnect_attempts (rx_metrics (snd cs))"
    "rx_websocket_config s = rx_websocket_config (snd cs)"
    using conn_event_config [of lib T e cs] cs by simp_all
  with Cons.IH [of "(c, s)"] show ?case
    by (auto simp: cs fold_conn_metrics split: option.split)
qed simp

lemma short_lived_connection:
  assumes "short_lived (bl_max_interval bl b) conn"
  shows "\<exists>err s'. rx_connect_and_handle lib bl conn b s = (Some (Inl err), b, s') \<and>
    wi_reconnect_attempts (rx_metrics s') = wi_reconnect_attempts (rx_metrics s) \<and>
    rx_websocket_config s' = rx_websocket_config s"
proof (cases conn)
  case (Inr p)
  then obtain start es where conn: "conn = Inr (start, es)" by (cases p) auto
  define T where "T = pong_interval (rx_websocket_config s)"
  define cs where "cs = (conn_start lib T start, rx_count (\<lambda>m. m\<lparr>wi_connection_status := 1\<rparr>) s)"
  from assms conn obtain e where "e \<in> set es" "ends_reader (snd e)" "snd e \<noteq> PongTick"
    and soon: "\<forall>e \<in> set es. start \<le> fst e \<and> fst e < start + bl_max_interval bl b" by (auto simp: short_lived_def)
  from conn_run_ends [OF _ this(1-3), of cs lib T] obtain err now s' where
    run: "conn_run lib T es cs = (Some (err, now), s')" "now \<in> fst ` set es"
    by (auto simp: cs_def conn_start_def)
  moreover from this soon have "\<not> bl_max_interval bl b \<le> now - start" by force
  moreover note conn_run_metrics [of lib T es cs]
  ultimately show ?thesis
    by (auto simp: rx_connect_and_handle_def conn T_def cs_def Let_def)
qed (simp add: rx_connect_and_handle_def)

lemma rx_loop_pauses:
  assumes laws: "backoff_laws bl settings current"
    and "settings b = \<lparr>bs_initial_interval = i, bs_max_interval = m, bs_randomization_factor = 0,
      bs_max_elapsed_time = None, bs_multiplier = 2\<rparr>"
    and "current b = min (i * 2 ^ k) m" and "\<forall>conn \<in> set conns. short_lived m conn"
    and "ping_interval (rx_websocket_config s) \<noteq> 0"
  shows "\<exists>s'. rx_loop lib bl conns b s = Some (map (\<lambda>j. min (i * 2 ^ (k + j)) m) [0..<length conns], s') \<and>
    wi_reconnect_attempts (rx_metrics s') = wi_reconnect_attempts (rx_metrics s) + length conns \<and>
    (conns \<noteq> [] \<longrightarrow> wi_connection_status (rx_metrics s') = 0)"
  using assms(2-)
proof (induction conns arbitrary: b k s)
  case (Cons conn conns)
  have "bl_max_interval bl b = m" using laws Cons.prems(1) by (simp add: backoff_laws_def)
  with short_lived_connection [where bl = bl and b = b and conn = conn and lib = lib and s = s] Cons.prems(3)
  obtain err s1 where
    con: "rx_connect_and_handle lib bl conn b s = (Some (Inl err), b, s1)"
    "wi_reconnect_attempts (rx_metrics s1) = wi_reconnect_attempts (rx_metrics s)"
    "rx_websocket_config s1 = rx_websocket_config s" by auto
  define b1 where "b1 = snd (bl_next_backoff bl b)"
  have "fst (bl_next_backoff bl b) = Some (min (i * 2 ^ k) m)" "settings b1 = settings b"
    "current b1 = min (2 * min (i * 2 ^ k) m) m"
    using laws Cons.prems(1,2) by (simp_all add: backoff_laws_def b1_def)
  moreover from this(1) have next_b: "bl_next_backoff bl b = (Some (min (i * 2 ^ k) m), b1)"
    by (simp add: prod_eq_iff b1_def)
  moreover have "min (2 * min (i * 2 ^ k) m) m = min (i * 2 ^ Suc k) m" by (simp add: min_def)
  ultimately have b1: "settings b1 = settings b" "current b1 = min (i * 2 ^ Suc k) m" by simp_all
  let ?s = "rx_count (\<lambda>m. m\<lparr>wi_reconnect_attempts := wi_reconnect_attempts m + 1, wi_connection_status := 0\<rparr>) s1"
  from Cons.IH [of b1 "Suc k" ?s] b1 Cons.prems con(3) obtain s' where
    "rx_loop lib bl conns b1 ?s = Some (map (\<lambda>j. min (i * 2 ^ (Suc k + j)) m) [0..<length conns], s')"
    "wi_reconnect_attempts (rx_metrics s') = wi_reconnect_attempts (rx_metrics ?s) + length conns"
    "conns \<noteq> [] \<longrightarrow> wi_connection_status (rx_metrics s') = 0" by auto
  moreover have "map (\<lambda>j. min (i * 2 ^ (k + j)) m) [0..<length (conn # conns)] =
      min (i * 2 ^ k) m # map (\<lambda>j. min (i * 2 ^ (Suc k + j)) m) [0..<length conns]"
    by (simp add: upt_conv_Cons map_Suc_upt [symmetric] del: upt_Suc)
  ultimately show ?case
    using con next_b Cons.prems(4) by (cases conns) auto
qed simp


text \<open>
  Intervals of zero, which the configuration accepts: with a ping interval of zero the first connection that is
  established ends the receiver with a panic, whatever comes later; with a pong timeout of zero no connection hands on
  anything.
\<close>

lemma zero_ping_interval_ends_receiver:
  assumes "ping_interval (rx_websocket_config s) = 0"
  shows "rx_loop lib bl (Inr up # conns) b s = None"
  using assms by simp

lemma zero_pong_timeout_hands_on_nothing:
  assumes "pong_interval (rx_websocket_config s) = 0"
  shows "\<exists>s'. rx_connect_and_handle lib bl (Inr (start, es)) b s = (Some (Inl (RxTaskPanic ''interval'')), b, s') \<and>
    rx_sent s' = rx_sent s"
  using assms by (simp add: rx_connect_and_handle_def)

text \<open>The reader is detached, not cancelled: after a failed ping it still hands on what arrives.\<close>

lemma reader_outlives_failed_ping:
  assumes "rx_channel_open s" "pong_interval (rx_websocket_config s) \<noteq> 0" "rl_from_json lib text = Inr fb"
  shows "\<exists>s' b'. rx_connect_and_handle lib bl
      (Inr (start, [(t, PingTick u False), (t', Read (ReadMsg (RxText text)))])) b s =
        (Some (Inl RxPingFailed), b', s') \<and> rx_sent s' = rx_sent s @ [fb]"
  using assms by (simp add: rx_connect_and_handle_def conn_start_def conn_result_def conn_defs)

section \<open>Witnesses\<close>

definition sample_ws_config :: ws_config where
  "sample_ws_config = \<lparr>wc_initial_reconnect_ms = 10, wc_max_reconnect_ms = 50, wc_connect_timeout_ms = 5000,
     wc_ping_interval_ms = 500, wc_pong_timeout_ms = 1500\<rparr>"

definition sample_rx_lib :: "(nat \<times> uuid list) rx_lib" where
  "sample_rx_lib =
     \<lparr>rl_uuid_from_slice = (\<lambda>d. case d of [x] \<Rightarrow> Some (ucast x) | _ \<Rightarrow> None),
      rl_from_json = (\<lambda>text. if text = [1] then Inr (sample_fb 1 0 None []) else Inl ''bad''),
      rl_lru_new = (\<lambda>n. (n, [])),
      rl_lru_put = (\<lambda>u (n, us). (n, take n (u # removeAll u us))),
      rl_lru_pop = (\<lambda>u (n, us). (u \<in> set us, n, removeAll u us))\<rparr>"

definition sample_rx_backoff :: "(backoff_settings \<times> nat) backoff_lib" where
  "sample_rx_backoff =
     \<lparr>bl_build = (\<lambda>st. (st, bs_initial_interval st)),
      bl_next_backoff = (\<lambda>(st, n). (Some n, st, min (bs_multiplier st * n) (bs_max_interval st))),
      bl_reset = (\<lambda>(st, n). (st, bs_initial_interval st)),
      bl_max_interval = (\<lambda>(st, n). bs_max_interval st)\<rparr>"

lemma sample_lru_laws: "lru_laws sample_rx_lib fst snd"
  by (simp add: lru_laws_def sample_rx_lib_def split: prod.splits)

lemma sample_backoff_laws: "backoff_laws sample_rx_backoff fst snd"
  by (simp add: backoff_laws_def sample_rx_backoff_def split: prod.splits)


theorem only_answered_pings_keep_alive_witness:
  "cn_due (fst (fold (conn_event sample_rx_lib 1500)
     [(500, PingTick 7 True), (900, Read (ReadMsg (RxPong [7])))]
     (conn_start sample_rx_lib 1500 0, receiver_new sample_ws_config))) = 900 + 1500"
proof -
  let ?es = "[(500, PingTick 7 True), (900, Read (ReadMsg (RxPong [7])))]"
  let ?c = "fst (fold (conn_event sample_rx_lib 1500) ?es
     (conn_start sample_rx_lib 1500 0, receiver_new sample_ws_config))"
  have run: "cn_reader ?c = Running" "cn_pinger ?c = Running"
    by (simp_all add: conn_start_def conn_defs sample_rx_lib_def MAXIMUM_PINGS_def)
  have "?es = [] @ (500, PingTick 7 True) # [] @ [(900, Read (ReadMsg (RxPong [7])))]" by simp
  moreover have "rl_uuid_from_slice sample_rx_lib [7] = Some 7" by (simp add: sample_rx_lib_def)
  moreover have "\<forall>es1 ping es2 t d u. ?es = es1 @ ping # es2 @ [(t, Read (ReadMsg (RxPong d)))] \<longrightarrow>
       ping_of ping = Some u \<longrightarrow> rl_uuid_from_slice sample_rx_lib d = Some u \<longrightarrow>
       (\<forall>e \<in> set es2. pong_of sample_rx_lib e \<noteq> Some u) \<longrightarrow>
       length (filter (\<lambda>e. ping_of e \<noteq> None) es2) < 60 \<longrightarrow> cn_due ?c = t + 1500"
    using only_answered_pings_keep_alive [OF sample_lru_laws refl run] by (rule conjunct2)
  ultimately have "ping_of (500, PingTick 7 True) = Some 7 \<Longrightarrow> cn_due ?c = 900 + 1500" by fastforce
  then show ?thesis by simp
qed


end
