(* ===== verification/Fb_Pipeline.thy ===== *)
theory Fb_Pipeline
  imports Flashblocks_Service Inbound
begin

text \<open>
  What \<^verbatim>\<open>Flashblocks::run\<close> (\<^verbatim>\<open>flashblocks/launcher.rs\<close>) puts together: the receiver fills a channel of 100
  flashblocks, the service takes them from it while the Engine API calls it, and its publisher serves the
  websocket clients. \<open>pipe_step\<close> is every step of these parts in any order, where an operation of the service is one
  step; what changes when its lock-by-lock steps are interleaved is in the theory on interleavings.

  The receiver's connections are all kept, since a reader may outlive its connection; a new one is only made
  when the last one is over. The publisher of \<open>fp_service\<close> together with \<open>fp_listener\<close> and \<open>fp_clients\<close> is the
  state of the publisher theory.
\<close>

section \<open>State\<close>

record ('c, 'w) fb_pipeline =
  fp_receiver :: receiver_service
  fp_conns :: "'c rx_conn list"
  fp_taken :: nat
  fp_service :: "'w flashblocks_service"
  fp_listener :: listener
  fp_clients :: "ob_client list"

definition CHANNEL_SIZE :: nat where
  "CHANNEL_SIZE = 100"

definition flashblocks_run :: "ws_config \<Rightarrow> 'w \<Rightarrow> ('c, 'w) fb_pipeline" where
  "flashblocks_run websocket_config builder_client =
     \<lparr>fp_receiver = receiver_new websocket_config, fp_conns = [], fp_taken = 0,
      fp_service = flashblocks_service_new builder_client, fp_listener = Waiting, fp_clients = []\<rparr>"

definition pipe_ob :: "('c, 'w) fb_pipeline \<Rightarrow> ob_state" where
  "pipe_ob p = \<lparr>ob_pub = fs_ws_pub (fp_service p), ob_listener = fp_listener p, ob_clients = fp_clients p\<rparr>"

definition put_ob :: "ob_state \<Rightarrow> ('c, 'w) fb_pipeline \<Rightarrow> ('c, 'w) fb_pipeline" where
  "put_ob ob p =
     p\<lparr>fp_service := (fp_service p)\<lparr>fs_ws_pub := ob_pub ob\<rparr>, fp_listener := ob_listener ob,
       fp_clients := ob_clients ob\<rparr>"

section \<open>Steps\<close>

text \<open>
  The receiver's loop makes the next connection when there is none or the last one is over, which cancels the
  pinger of that one and counts the attempt. With a ping interval of zero the receiver panics once it is connected, and
  there are no connections.
\<close>

definition pipe_connect :: "'c rx_lib \<Rightarrow> nat \<Rightarrow> ('c, 'w) fb_pipeline \<Rightarrow> ('c, 'w) fb_pipeline" where
  "pipe_connect rx now p =
     (let up = rx_count (\<lambda>m. m\<lparr>wi_connection_status := 1\<rparr>);
          again = rx_count (\<lambda>m. m\<lparr>wi_reconnect_attempts := wi_reconnect_attempts m + 1, wi_connection_status := 0\<rparr>);
          new = conn_new rx (pong_interval (rx_websocket_config (fp_receiver p))) now;
          cs = fp_conns p
      in if ping_interval (rx_websocket_config (fp_receiver p)) = 0 then p\<lparr>fp_receiver := up (fp_receiver p)\<rparr>
         else if cs = [] then p\<lparr>fp_conns := [new], fp_receiver := up (fp_receiver p)\<rparr>
         else if conn_result (last cs) = None then p
         else p\<lparr>fp_conns := butlast cs @ [(last cs)\<lparr>cn_pinger := Cancelled\<rparr>, new],
                fp_receiver := up (again (fp_receiver p))\<rparr>)"

text \<open>
  An event of a connection. A flashblock is sent only when the channel has room for it: until then the reader
  waits in \<^verbatim>\<open>send\<close>, so that the event happens later.
\<close>

definition pipe_event :: "'c rx_lib \<Rightarrow> nat \<Rightarrow> nat \<times> rx_event \<Rightarrow> ('c, 'w) fb_pipeline \<Rightarrow> ('c, 'w) fb_pipeline" where
  "pipe_event rx i e p =
     (let s = fp_receiver p in
      if length (fp_conns p) \<le> i \<or>
         flashblocks_of rx [e] \<noteq> [] \<and> fp_taken p + CHANNEL_SIZE \<le> length (rx_sent s) then p
      else (let (c, s1) = conn_event rx (pong_interval (rx_websocket_config s)) e (fp_conns p ! i, s)
            in p\<lparr>fp_conns := (fp_conns p)[i := c], fp_receiver := s1\<rparr>))"

text \<open>The service's task takes the next flashblock.\<close>

definition pipe_take ::
  "(flashblocks_payload_v1 \<Rightarrow> string + string) \<Rightarrow> ('c, 'w) fb_pipeline \<Rightarrow> ('c, 'w) fb_pipeline" where
  "pipe_take to_json p =
     (if fp_taken p < length (rx_sent (fp_receiver p))
      then p\<lparr>fp_service := on_event to_json (rx_sent (fp_receiver p) ! fp_taken p) (fp_service p),
             fp_taken := fp_taken p + 1\<rparr>
      else p)"

text \<open>What the Engine API does with the service.\<close>

inductive service_call ::
  "engine_lib \<Rightarrow> 'w transport \<Rightarrow> 'w flashblocks_service \<Rightarrow> 'w flashblocks_service \<Rightarrow> bool" for lib tr where
  call_fcu: "service_call lib tr s (snd (fb_fork_choice_updated_v3 lib tr fcs attrs s))"
| call_new_payload: "service_call lib tr s (snd (fb_new_payload lib tr np s))"
| call_get_payload: "service_call lib tr s (snd (fb_get_payload tr pid v s))"
| call_get_block: "service_call lib tr s (snd (fb_get_block_by_number tr number full s))"
| call_spawned: "service_call lib tr s (fb_run_spawned tr s)"

inductive pipe_step ::
  "engine_lib \<Rightarrow> 'w transport \<Rightarrow> 'c rx_lib \<Rightarrow> (flashblocks_payload_v1 \<Rightarrow> string + string) \<Rightarrow> nat
     \<Rightarrow> ('c, 'w) fb_pipeline \<Rightarrow> ('c, 'w) fb_pipeline \<Rightarrow> bool" for lib tr rx to_json cap where
  pipe_connects: "pipe_step lib tr rx to_json cap p (pipe_connect rx now p)"
| pipe_events: "pipe_step lib tr rx to_json cap p (pipe_event rx i e p)"
| pipe_takes: "pipe_step lib tr rx to_json cap p (pipe_take to_json p)"
| pipe_calls: "service_call lib tr (fp_service p) s \<Longrightarrow> pipe_step lib tr rx to_json cap p (p\<lparr>fp_service := s\<rparr>)"
| pipe_accepts: "pipe_step lib tr rx to_json cap p (put_ob (listener_accept (pipe_ob p)) p)"
| pipe_handshakes: "pipe_step lib tr rx to_json cap p (put_ob (listener_handshake h (pipe_ob p)) p)"
| pipe_clients: "pipe_step lib tr rx to_json cap p (put_ob (client_step cap i ev (pipe_ob p)) p)"

section \<open>The link between what is published and what is built\<close>

text \<open>
  \<open>acc\<close> is what was published, in order; the flashblocks of the block under construction are its last ones,
  from \<open>k\<close> on.
\<close>

definition linked ::
  "(flashblocks_payload_v1 \<Rightarrow> string) \<Rightarrow> flashblocks_payload_v1 list \<Rightarrow> nat \<Rightarrow> 'w flashblocks_service \<Rightarrow> bool" where
  "linked enc acc k s \<longleftrightarrow>
     pub_pipe (fs_ws_pub s) = map enc acc \<and> k \<le> length acc \<and> builder_wf (fs_best_payload s) \<and>
     builder_refines (fs_best_payload s) (drop k acc) \<and>
     (\<forall>q \<in> set (drop k acc). fs_current_payload_id s = Some (fb_payload_id q)) \<and>
     (\<forall>i < length (drop k acc). fb_index (drop k acc ! i) = of_nat i)"

lemma linked_other [simp]:
  "linked enc acc k (s\<lparr>fs_client := w\<rparr>) = linked enc acc k s"
  "linked enc acc k (s\<lparr>fs_spawned := sp\<rparr>) = linked enc acc k s"
  by (simp_all add: linked_def)

lemma linked_fresh:
  "linked enc acc k s \<Longrightarrow> fs_best_payload t = flashblock_builder_new \<Longrightarrow> fs_ws_pub t = fs_ws_pub s \<Longrightarrow>
     linked enc acc (length acc) t"
  by (simp add: linked_def)

lemma linked_set: "linked enc acc k s \<Longrightarrow> linked enc acc (length acc) (set_current_payload_id pid s)"
  by (erule linked_fresh) (simp_all add: set_current_payload_id_def)

lemma linked_get_best:
  assumes "linked enc acc k s"
  shows "\<exists>k. linked enc acc k (snd (get_best_payload v pid s))"
proof (cases "fs_current_payload_id s = Some pid")
  case True
  then have "linked enc acc (length acc) (snd (get_best_payload v pid s))"
    by (intro linked_fresh [OF assms]) (simp_all add: get_best_payload_def Let_def)
  then show ?thesis by blast
qed (use assms in \<open>auto simp: get_best_payload_def\<close>)

lemma linked_fcu:
  assumes "linked enc acc k s"
  shows "\<exists>k. linked enc acc k (snd (fb_fork_choice_updated_v3 lib tr fcs attrs s))"
proof -
  define s1 where "s1 = (case attrs of
      Some attr \<Rightarrow> set_current_payload_id (lib_payload_id_optimism lib (fcs_head_block_hash fcs) attr 3) s
    | None \<Rightarrow> s)"
  obtain k1 where "linked enc acc k1 s1"
    using assms linked_set [OF assms] by (cases attrs) (auto simp: s1_def)
  then have "\<exists>k. linked enc acc k (set_current_payload_id pid (s1\<lparr>fs_client := w\<rparr>))" "linked enc acc k1 (s1\<lparr>fs_client := w\<rparr>)"
    for pid w using linked_set [of enc acc k1 "s1\<lparr>fs_client := w\<rparr>" pid] by auto
  then show ?thesis
    unfolding fb_fork_choice_updated_v3_def s1_def [symmetric] Let_def
    by (auto split: prod.split sum.split option.split)
qed

lemma linked_call:
  assumes "service_call lib tr s t" "linked enc acc k s"
  shows "\<exists>k. linked enc acc k t"
  using assms
proof (cases rule: service_call.cases)
  case (call_get_payload pid v)
  obtain r s1 where g: "get_best_payload v pid s = (r, s1)" by (metis surj_pair)
  with linked_get_best [OF assms(2), of v pid] show ?thesis
    by (auto simp: call_get_payload fb_get_payload_def g split: sum.split prod.split)
qed (use assms(2) linked_fcu [OF assms(2)] in
    \<open>auto simp: fb_new_payload_def fb_get_block_by_number_def split: prod.split list.split\<close>)

lemma linked_on_event:
  assumes "linked enc acc k s" "\<And>q. to_json q = Inr (enc q)" "0 < pub_receivers (fs_ws_pub s)"
  obtains new where "linked enc (acc @ new) k (on_event to_json q s)" "new = [] \<or> new = [q]"
proof -
  let ?sp = "\<lparr>sp_current = fs_current_payload_id s, sp_accepted = drop k acc\<rparr>"
  let ?t = "on_event to_json q s"
  have r: "refines s ?sp" using assms(1) by (simp add: linked_def refines_def)
  note r' = on_event_refines [OF r, of to_json q] and pub = on_event_pipe [OF r, of to_json q]
  have wf: "builder_wf (fs_best_payload ?t)" using assms(1) by (simp add: linked_def builder_wf_on_event)
  have k: "k \<le> length acc" using assms(1) by (simp add: linked_def)
  show thesis
  proof (cases "sp_accepts q ?sp")
    case True
    have "linked enc (acc @ [q]) k ?t"
      using assms r' pub wf k True
      by (auto simp: linked_def refines_def sp_event_def sp_accepts_def sp_extends_def publish_pipe nth_append less_Suc_eq)
    then show thesis using that by blast
  next
    case False
    have "linked enc (acc @ []) k ?t"
      using assms(1) r' pub wf False by (auto simp: linked_def refines_def sp_event_def)
    then show thesis using that by blast
  qed
qed

section \<open>Invariant\<close>

definition pipe_inv :: "(flashblocks_payload_v1 \<Rightarrow> string) \<Rightarrow> ('c, 'w) fb_pipeline \<Rightarrow> bool" where
  "pipe_inv enc p \<longleftrightarrow>
     ob_inv (pipe_ob p) \<and> \<not> pub_term (fs_ws_pub (fp_service p)) \<and>
     fp_taken p \<le> length (rx_sent (fp_receiver p)) \<and>
     length (rx_sent (fp_receiver p)) \<le> fp_taken p + CHANNEL_SIZE \<and>
     (\<exists>acc k. subseq acc (take (fp_taken p) (rx_sent (fp_receiver p))) \<and> linked enc acc k (fp_service p))"

text \<open>What one event of a connection can add to the channel.\<close>

lemma conn_event_sent:
  "\<exists>new. rx_sent (snd (conn_event rx T e cs)) = rx_sent (snd cs) @ new \<and>
     (new = [] \<or> new = flashblocks_of rx [e] \<and> length new = 1)"
  by (cases "(rx, T, e, cs)" rule: conn_event.cases)
    (auto simp: conn_defs split: rx_read.split rx_message.split sum.split)

lemma put_pipe_ob [simp]: "pipe_ob (put_ob ob p) = ob"
  by (simp add: pipe_ob_def put_ob_def)

text \<open>The listener and the clients leave alone what was published.\<close>

lemma ob_keeps_pipe:
  "pub_pipe (ob_pub (listener_accept ob)) = pub_pipe (ob_pub ob)"
  "pub_term (ob_pub (listener_accept ob)) = pub_term (ob_pub ob)"
  "pub_pipe (ob_pub (listener_handshake h ob)) = pub_pipe (ob_pub ob)"
  "pub_term (ob_pub (listener_handshake h ob)) = pub_term (ob_pub ob)"
  by (auto simp: listener_accept_def listener_handshake_def client_exit_def Let_def
      split: listener.split handshake.split)

lemma client_step_keeps_pipe:
  assumes "ob_inv ob"
  shows "pub_pipe (ob_pub (client_step cap i e ob)) = pub_pipe (ob_pub ob)"
    "pub_term (ob_pub (client_step cap i e ob)) = pub_term (ob_pub ob)"
proof -
  have "pub_pipe (ob_pub (client_step cap i e ob)) = pub_pipe (ob_pub ob) \<and>
      pub_term (ob_pub (client_step cap i e ob)) = pub_term (ob_pub ob)"
  proof (cases "i < length (ob_clients ob) \<and> obc_open (ob_clients ob ! i)")
    case True
    then have "client_ok (pub_pipe (ob_pub ob)) (ob_clients ob ! i)" using assms by (simp add: ob_inv_def)
    from broadcast_step_effect(2,3) [OF this, of cap e] True show ?thesis
      by (simp add: client_step_def case_prod_beta)
  qed (auto simp: client_step_def)
  then show "pub_pipe (ob_pub (client_step cap i e ob)) = pub_pipe (ob_pub ob)"
    "pub_term (ob_pub (client_step cap i e ob)) = pub_term (ob_pub ob)" by blast+
qed

lemma pipe_inv_ob:
  assumes "pipe_inv enc p" "ob_inv ob" "pub_pipe (ob_pub ob) = pub_pipe (ob_pub (pipe_ob p))"
    "pub_term (ob_pub ob) = pub_term (ob_pub (pipe_ob p))"
  shows "pipe_inv enc (put_ob ob p)"
proof -
  have "linked enc acc k (fp_service (put_ob ob p)) = linked enc acc k (fp_service p)" for acc k
    using assms(3) by (simp add: linked_def put_ob_def pipe_ob_def)
  then show ?thesis
    using assms by (simp add: pipe_inv_def) (simp add: put_ob_def pipe_ob_def)
qed

lemma pipe_inv_connect: "pipe_inv enc p \<Longrightarrow> pipe_inv enc (pipe_connect rx now p)"
  by (simp add: pipe_inv_def pipe_connect_def pipe_ob_def Let_def)

lemma pipe_inv_event:
  assumes "pipe_inv enc p"
  shows "pipe_inv enc (pipe_event rx i e p)"
proof (cases "pipe_event rx i e p = p")
  case False
  let ?s = "fp_receiver p" and ?T = "pong_interval (rx_websocket_config (fp_receiver p))"
  obtain new where sent: "rx_sent (snd (conn_event rx ?T e (fp_conns p ! i, ?s))) = rx_sent ?s @ new"
    and new: "new = [] \<or> new = flashblocks_of rx [e] \<and> length new = 1"
    using conn_event_sent [of rx ?T e "(fp_conns p ! i, ?s)"] by auto
  have room: "flashblocks_of rx [e] = [] \<or> length (rx_sent ?s) < fp_taken p + CHANNEL_SIZE"
    and p: "pipe_event rx i e p =
      p\<lparr>fp_conns := (fp_conns p)[i := fst (conn_event rx ?T e (fp_conns p ! i, ?s))],
        fp_receiver := snd (conn_event rx ?T e (fp_conns p ! i, ?s))\<rparr>"
    using False by (auto simp: pipe_event_def Let_def not_le split: prod.splits if_splits)
  from assms new room show ?thesis
    by (auto simp: p pipe_inv_def pipe_ob_def sent)
qed (use assms in simp)

lemma pipe_inv_receivers: "pipe_inv enc p \<Longrightarrow> 0 < pub_receivers (fs_ws_pub (fp_service p))"
  by (cases "fp_listener p") (auto simp: pipe_inv_def ob_inv_def pipe_ob_def)

lemma subseq_snoc: "subseq xs ys \<Longrightarrow> zs = [] \<or> zs = [y] \<Longrightarrow> subseq (xs @ zs) (ys @ [y])"
  by (auto intro: list_emb_append_mono)

lemma pipe_inv_take:
  assumes "pipe_inv enc p" "\<And>q. to_json q = Inr (enc q)"
  shows "pipe_inv enc (pipe_take to_json p)"
proof (cases "fp_taken p < length (rx_sent (fp_receiver p))")
  case True
  let ?q = "rx_sent (fp_receiver p) ! fp_taken p" and ?s = "fp_service p"
  let ?t = "on_event to_json ?q ?s"
  obtain acc k where acc: "subseq acc (take (fp_taken p) (rx_sent (fp_receiver p)))" "linked enc acc k ?s"
    using assms(1) by (auto simp: pipe_inv_def)
  obtain new where new: "linked enc (acc @ new) k ?t" "new = [] \<or> new = [?q]"
    using linked_on_event [OF acc(2) assms(2) pipe_inv_receivers [OF assms(1)], of ?q] by blast
  have "subseq (acc @ new) (take (Suc (fp_taken p)) (rx_sent (fp_receiver p)))"
    using subseq_snoc [OF acc(1) new(2)] True by (simp add: take_Suc_conv_app_nth)
  moreover have pub: "fs_ws_pub ?t = fs_ws_pub ?s \<or> fs_ws_pub ?t = snd (publish to_json ?q (fs_ws_pub ?s))"
    by (auto simp: on_event_def Let_def split: option.split prod.split sum.split)
  then have "ob_inv (pipe_ob (pipe_take to_json p))" "\<not> pub_term (fs_ws_pub ?t)"
    using assms(1) ob_inv_publish [of "pipe_ob p" to_json ?q] True
    by (auto simp: pipe_take_def pipe_inv_def pipe_ob_def)
  ultimately show ?thesis
    using assms(1) True new(1) by (auto simp: pipe_take_def pipe_inv_def)
qed (use assms in \<open>simp add: pipe_take_def\<close>)

lemma pipe_inv_call:
  assumes "pipe_inv enc p" "service_call lib tr (fp_service p) s"
  shows "pipe_inv enc (p\<lparr>fp_service := s\<rparr>)"
proof -
  have "fs_ws_pub s = fs_ws_pub (fp_service p)"
    using assms(2)
    by (cases rule: service_call.cases)
      (auto simp: fb_fork_choice_updated_v3_def set_current_payload_id_def fb_new_payload_def fb_get_payload_def
        get_best_payload_def fb_get_block_by_number_def Let_def split: prod.split sum.split option.split list.split)
  then show ?thesis
    using assms(1) linked_call [OF assms(2)] by (auto simp: pipe_inv_def pipe_ob_def)
qed

lemma pipe_inv_step:
  assumes "pipe_step lib tr rx to_json cap p q" "pipe_inv enc p" "\<And>q. to_json q = Inr (enc q)"
  shows "pipe_inv enc q"
proof -
  have ob: "ob_inv (pipe_ob p)" using assms(2) by (simp add: pipe_inv_def)
  show ?thesis
    using assms(1)
    by (cases rule: pipe_step.cases)
      (simp_all add: assms ob pipe_inv_connect pipe_inv_event pipe_inv_take pipe_inv_call pipe_inv_ob
        ob_inv_accept ob_inv_handshake ob_inv_client ob_keeps_pipe client_step_keeps_pipe)
qed

lemma pipe_inv_new: "pipe_inv enc (flashblocks_run cfg client)"
proof -
  have "linked enc [] 0 (fp_service (flashblocks_run cfg client))"
    by (simp add: linked_def flashblocks_run_def flashblocks_service_new_def publisher_new_def)
  moreover have "ob_inv (pipe_ob (flashblocks_run cfg client))"
    using outbound.init_inv [OF refl]
    by (simp add: pipe_ob_def flashblocks_run_def flashblocks_service_new_def ob_new_def)
  ultimately show ?thesis
    by (auto simp: pipe_inv_def flashblocks_run_def flashblocks_service_new_def publisher_new_def receiver_new_def)
qed

interpretation pipeline: invariant_system
  "\<lambda>p. p = flashblocks_run cfg client" "pipe_step lib tr rx (Inr \<circ> enc) cap" "pipe_inv enc"
  for lib tr rx enc cap cfg client
  by unfold_locales (auto simp: pipe_inv_new elim: pipe_inv_step)


definition sample_pipe_rx :: "(nat \<times> uuid list) rx_lib" where
  "sample_pipe_rx = sample_rx_lib\<lparr>rl_from_json := (\<lambda>_. Inr (sample_fb 5 0 (Some sample_base) [[1]]))\<rparr>"

definition sample_pipe_transport :: "unit transport" where
  "sample_pipe_transport = sample_transport (Inr (sample_fcu (Some 5))) (Inl (JsOther ''x'')) (Inl (JsOther ''x''))
     (Inl (JsOther ''x''))"

definition sample_pipeline :: "(nat \<times> uuid list, unit) fb_pipeline" where
  "sample_pipeline =
     (let p1 = flashblocks_run sample_ws_config ();
          p2 = put_ob (listener_accept (pipe_ob p1)) p1;
          p3 = put_ob (listener_handshake (HandshakeOk True) (pipe_ob p2)) p2;
          p4 = p3\<lparr>fp_service := snd (fb_fork_choice_updated_v3 sample_lib sample_pipe_transport sample_fcs None
                 (fp_service p3))\<rparr>;
          p5 = pipe_connect sample_pipe_rx 0 p4;
          p6 = pipe_event sample_pipe_rx 0 (1, Read (ReadMsg (RxText [1]))) p5;
          p7 = pipe_take (\<lambda>_. Inr ''fb'') p6
      in put_ob (client_step 128 0 (Payload True) (pipe_ob p7)) p7)"

lemma sample_pipeline_reach:
  "reach (\<lambda>p. p = flashblocks_run sample_ws_config ())
     (pipe_step sample_lib sample_pipe_transport sample_pipe_rx (\<lambda>_. Inr ''fb'') 128) sample_pipeline"
  unfolding sample_pipeline_def Let_def
  by (rule reach_step, rule reach_step, rule reach_step, rule reach_step, rule reach_step, rule reach_step,
      rule reach_step, rule reach_init)
    (rule refl pipe_accepts pipe_handshakes pipe_calls call_fcu pipe_connects pipe_events pipe_takes pipe_clients)+


end
