(* ===== verification/Fb_Interleaving.thy ===== *)
theory Fb_Interleaving
  imports Fb_Pipeline
begin

text \<open>
  The flashblocks service at the granularity of its locks (\<^verbatim>\<open>flashblocks/service.rs\<close>). \<^verbatim>\<open>current_payload_id\<close> and
  \<^verbatim>\<open>best_payload\<close> are two \<^verbatim>\<open>RwLock\<close>s that no operation holds together: the task of \<^verbatim>\<open>run\<close> compares the id,
  then extends the builder, then publishes; \<^verbatim>\<open>set_current_payload_id\<close> writes the id, then replaces the builder;
  \<^verbatim>\<open>get_best_payload\<close> compares the id, then takes the builder. Each of these is one step of \<open>event_step\<close> or
  \<open>call_step\<close>, whose program counters name what is left to do, and \<open>il_exec\<close> lets the task and any number of
  Engine API calls take their steps in any order.

  A call that is not interrupted does what the operation of the service theory does. For every order the block
  is a run of accepted flashblocks numbered from 0; its flashblocks from the second on have the current payload
  id whenever no call is between its two writes. The first one need not: the last section has the schedules.
\<close>

section \<open>Program counters\<close>

text \<open>The task of \<^verbatim>\<open>run\<close>: waiting in \<^verbatim>\<open>recv\<close>, or inside \<^verbatim>\<open>on_event\<close> with a flashblock.\<close>

datatype ev_pc =
    EvWaiting
  | EvReceived flashblocks_payload_v1
  | EvChecked flashblocks_payload_v1
  | EvExtended flashblocks_payload_v1

fun event_step ::
  "(flashblocks_payload_v1 \<Rightarrow> string + string) \<Rightarrow> ev_pc \<times> 'w flashblocks_service
     \<Rightarrow> ev_pc \<times> 'w flashblocks_service" where
  "event_step to_json (EvWaiting, s) = (EvWaiting, s)"
| "event_step to_json (EvReceived payload, s) =
     (case fs_current_payload_id s of
        None \<Rightarrow> (EvWaiting, s)
      | Some payload_id \<Rightarrow>
          if payload_id \<noteq> fb_payload_id payload
          then (EvWaiting, s\<lparr>fs_metrics := (fs_metrics s)
                 \<lparr>fm_current_payload_id_mismatch := fm_current_payload_id_mismatch (fs_metrics s) + 1\<rparr>\<rparr>)
          else (EvChecked payload, s))"
| "event_step to_json (EvChecked payload, s) =
     (case builder_extend payload (fs_best_payload s) of
        (Inl e, b) \<Rightarrow>
          (EvWaiting, s\<lparr>fs_best_payload := b,
             fs_metrics := (fs_metrics s)
               \<lparr>fm_extend_payload_errors := fm_extend_payload_errors (fs_metrics s) + 1\<rparr>\<rparr>)
      | (Inr _, b) \<Rightarrow> (EvExtended payload, s\<lparr>fs_best_payload := b\<rparr>))"
| "event_step to_json (EvExtended payload, s) =
     (EvWaiting, s\<lparr>fs_ws_pub := snd (publish to_json payload (fs_ws_pub s))\<rparr>)"

text \<open>The start of \<^verbatim>\<open>on_event\<close>: the message is counted.\<close>

definition count_message :: "'w flashblocks_service \<Rightarrow> 'w flashblocks_service" where
  "count_message s =
     s\<lparr>fs_metrics := (fs_metrics s)\<lparr>fm_messages_processed := fm_messages_processed (fs_metrics s) + 1\<rparr>\<rparr>"

text \<open>
  An Engine API call. \<open>FcuReset\<close> and \<open>FcuResetAgain\<close> are the points between the two writes of
  \<^verbatim>\<open>set_current_payload_id\<close>, \<open>GetTake\<close> is the point between the two locks of \<^verbatim>\<open>get_best_payload\<close>. A request to
  the builder is one step: what happens while it is under way happens before or after it.
\<close>

datatype call_pc =
    FcuStart forkchoice_state "op_payload_attributes option"
  | FcuReset forkchoice_state "op_payload_attributes option"
  | FcuSend forkchoice_state "op_payload_attributes option"
  | FcuReply forkchoice_updated
  | FcuAdopt payload_id forkchoice_updated
  | FcuResetAgain forkchoice_updated
  | FcuDone "forkchoice_updated client_result"
  | GetStart payload_id payload_version
  | GetTake payload_id payload_version
  | GetSpawn payload_id payload_version op_execution_payload_envelope
  | GetFallback payload_id payload_version
  | GetDone "op_execution_payload_envelope client_result"
  | NewStart new_payload
  | NewDone "payload_status client_result"
  | BlockStart block_number_or_tag bool
  | BlockDone "block client_result"

text \<open>The two writes of \<^verbatim>\<open>set_current_payload_id\<close> and the second half of \<^verbatim>\<open>get_best_payload\<close>.\<close>

definition write_payload_id :: "payload_id \<Rightarrow> 'w flashblocks_service \<Rightarrow> 'w flashblocks_service" where
  "write_payload_id payload_id s = s\<lparr>fs_current_payload_id := Some payload_id\<rparr>"

definition reset_builder :: "'w flashblocks_service \<Rightarrow> 'w flashblocks_service" where
  "reset_builder s = s\<lparr>fs_best_payload := flashblock_builder_new\<rparr>"

definition take_builder ::
  "payload_version \<Rightarrow> 'w flashblocks_service
     \<Rightarrow> (flashblocks_error + op_execution_payload_envelope) \<times> 'w flashblocks_service" where
  "take_builder version s =
     (let builder = fs_best_payload s;
          flashblocks_number = of_nat (length (bld_flashblocks builder));
          max_flashblocks = max (fs_max_flashblocks s) flashblocks_number
      in (into_envelope version builder,
          s\<lparr>fs_max_flashblocks := max_flashblocks,
            fs_metrics := record_flashblocks flashblocks_number max_flashblocks (fs_metrics s),
            fs_best_payload := flashblock_builder_new\<rparr>))"

fun call_step ::
  "engine_lib \<Rightarrow> 'w transport \<Rightarrow> call_pc \<times> 'w flashblocks_service \<Rightarrow> call_pc \<times> 'w flashblocks_service" where
  "call_step lib tr (FcuStart fcs attrs, s) =
     (case attrs of
        None \<Rightarrow> (FcuSend fcs attrs, s)
      | Some attr \<Rightarrow> (FcuReset fcs attrs,
          write_payload_id (lib_payload_id_optimism lib (fcs_head_block_hash fcs) attr 3) s))"
| "call_step lib tr (FcuReset fcs attrs, s) = (FcuSend fcs attrs, reset_builder s)"
| "call_step lib tr (FcuSend fcs attrs, s) =
     (case rpc_fork_choice_updated_v3 lib tr fcs attrs (fs_client s) of
        (Inl e, w) \<Rightarrow> (FcuDone (Inl e), s\<lparr>fs_client := w\<rparr>)
      | (Inr resp, w) \<Rightarrow> (FcuReply resp, s\<lparr>fs_client := w\<rparr>))"
| "call_step lib tr (FcuReply resp, s) =
     (case fu_payload_id resp of
        None \<Rightarrow> (FcuDone (Inr resp), s)
      | Some payload_id \<Rightarrow>
          if fs_current_payload_id s \<noteq> Some payload_id then (FcuAdopt payload_id resp, s)
          else (FcuDone (Inr resp), s))"
| "call_step lib tr (FcuAdopt payload_id resp, s) = (FcuResetAgain resp, write_payload_id payload_id s)"
| "call_step lib tr (FcuResetAgain resp, s) = (FcuDone (Inr resp), reset_builder s)"
| "call_step lib tr (GetStart payload_id version, s) =
     (if fs_current_payload_id s \<noteq> Some payload_id then (GetFallback payload_id version, s)
      else (GetTake payload_id version, s))"
| "call_step lib tr (GetTake payload_id version, s) =
     (case take_builder version s of
        (Inl e, s1) \<Rightarrow> (GetFallback payload_id version, s1)
      | (Inr payload, s1) \<Rightarrow> (GetSpawn payload_id version payload, s1))"
| "call_step lib tr (GetSpawn payload_id version payload, s) =
     (GetDone (Inr payload), s\<lparr>fs_spawned := fs_spawned s @ [(payload_id, version)]\<rparr>)"
| "call_step lib tr (GetFallback payload_id version, s) =
     (let (r, w) = rpc_get_payload tr payload_id version (fs_client s)
      in (GetDone r, s\<lparr>fs_client := w\<rparr>))"
| "call_step lib tr (NewStart np, s) =
     (let (r, w) = rpc_new_payload lib tr np (fs_client s) in (NewDone r, s\<lparr>fs_client := w\<rparr>))"
| "call_step lib tr (BlockStart number full, s) =
     (let (r, w) = rpc_get_block_by_number tr number full (fs_client s)
      in (BlockDone r, s\<lparr>fs_client := w\<rparr>))"
| "call_step lib tr (pc, s) = (pc, s)"

section \<open>Interleavings\<close>

text \<open>\<open>il_received\<close> records what the task took from the channel; a call starts at one of the entry points.\<close>

record 'w il_state =
  il_service :: "'w flashblocks_service"
  il_event :: ev_pc
  il_received :: "flashblocks_payload_v1 list"
  il_calls :: "call_pc list"

datatype call =
    ForkChoiceUpdated forkchoice_state "op_payload_attributes option"
  | GetPayload payload_id payload_version
  | NewPayload new_payload
  | GetBlockByNumber block_number_or_tag bool

fun call_entry :: "call \<Rightarrow> call_pc" where
  "call_entry (ForkChoiceUpdated fcs attrs) = FcuStart fcs attrs"
| "call_entry (GetPayload pid v) = GetStart pid v"
| "call_entry (NewPayload np) = NewStart np"
| "call_entry (GetBlockByNumber number full) = BlockStart number full"

datatype il_action =
    Receive flashblocks_payload_v1
  | Event
  | Begin call
  | Continue nat
  | RunSpawned

fun il_exec ::
  "engine_lib \<Rightarrow> 'w transport \<Rightarrow> (flashblocks_payload_v1 \<Rightarrow> string + string) \<Rightarrow> il_action
     \<Rightarrow> 'w il_state \<Rightarrow> 'w il_state" where
  "il_exec lib tr to_json (Receive p) c =
     (if il_event c = EvWaiting
      then c\<lparr>il_event := EvReceived p, il_service := count_message (il_service c),
             il_received := il_received c @ [p]\<rparr>
      else c)"
| "il_exec lib tr to_json Event c =
     (let (pc, s) = event_step to_json (il_event c, il_service c)
      in c\<lparr>il_event := pc, il_service := s\<rparr>)"
| "il_exec lib tr to_json (Begin call) c = c\<lparr>il_calls := il_calls c @ [call_entry call]\<rparr>"
| "il_exec lib tr to_json (Continue i) c =
     (if i < length (il_calls c)
      then (let (pc, s) = call_step lib tr (il_calls c ! i, il_service c)
            in c\<lparr>il_calls := (il_calls c)[i := pc], il_service := s\<rparr>)
      else c)"
| "il_exec lib tr to_json RunSpawned c = c\<lparr>il_service := fb_run_spawned tr (il_service c)\<rparr>"

inductive il_step ::
  "engine_lib \<Rightarrow> 'w transport \<Rightarrow> (flashblocks_payload_v1 \<Rightarrow> string + string)
     \<Rightarrow> 'w il_state \<Rightarrow> 'w il_state \<Rightarrow> bool" for lib tr to_json where
  il_action: "il_step lib tr to_json c (il_exec lib tr to_json a c)"

definition il_new :: "'w \<Rightarrow> 'w il_state" where
  "il_new client =
     \<lparr>il_service = flashblocks_service_new client, il_event = EvWaiting, il_received = [], il_calls = []\<rparr>"

lemma il_reach_run: "reach (\<lambda>c. c = il_new w) (il_step lib tr to_json) (fold (il_exec lib tr to_json) as (il_new w))"
  by (induction as rule: rev_induct) (auto intro: reach_init reach_step il_action)

section \<open>Uninterrupted calls\<close>

lemma write_then_reset: "reset_builder (write_payload_id pid s) = set_current_payload_id pid s"
  by (simp add: reset_builder_def write_payload_id_def set_current_payload_id_def)

lemma check_then_take:
  "get_best_payload v pid s =
     (if fs_current_payload_id s \<noteq> Some pid then (Inl MissingPayload, s) else take_builder v s)"
  by (simp add: get_best_payload_def take_builder_def)

lemma event_steps_on_event:
  "(event_step to_json ^^ 3) (EvReceived p, count_message s) = (EvWaiting, on_event to_json p s)"
  by (auto simp: numeral_3_eq_3 on_event_def count_message_def Let_def split: option.split prod.split sum.split)

lemma fcu_steps_from_send:
  "(call_step lib tr ^^ 4) (FcuSend fcs attrs, s) =
     (let (r, s') = (case rpc_fork_choice_updated_v3 lib tr fcs attrs (fs_client s) of
           (Inl e, w) \<Rightarrow> (Inl e, s\<lparr>fs_client := w\<rparr>)
         | (Inr resp, w) \<Rightarrow>
             (let s2 = s\<lparr>fs_client := w\<rparr> in
              case fu_payload_id resp of
                Some payload_id \<Rightarrow>
                  if fs_current_payload_id s2 \<noteq> Some payload_id
                  then (Inr resp, set_current_payload_id payload_id s2)
                  else (Inr resp, s2)
              | None \<Rightarrow> (Inr resp, s2)))
      in (FcuDone r, s'))"
  by (simp add: eval_nat_numeral write_then_reset split: prod.split sum.split option.split)

lemma fcu_steps:
  "(call_step lib tr ^^ 6) (FcuStart fcs attrs, s) =
     (let (r, s') = fb_fork_choice_updated_v3 lib tr fcs attrs s in (FcuDone r, s'))"
proof (cases attrs)
  case None
  have "(call_step lib tr ^^ 6) (FcuStart fcs None, s) =
      call_step lib tr ((call_step lib tr ^^ 4) (FcuSend fcs None, s))"
    by (simp add: eval_nat_numeral)
  also have "\<dots> = (call_step lib tr ^^ 4) (FcuSend fcs None, s)"
    by (simp add: fcu_steps_from_send split: prod.split)
  finally show ?thesis
    by (simp only: None fcu_steps_from_send fb_fork_choice_updated_v3_def Let_def option.case)
next
  case (Some attr)
  let ?id = "lib_payload_id_optimism lib (fcs_head_block_hash fcs) attr 3"
  have "(call_step lib tr ^^ 6) (FcuStart fcs attrs, s) =
      (call_step lib tr ^^ 4) (FcuSend fcs attrs, set_current_payload_id ?id s)"
    by (simp add: eval_nat_numeral Some write_then_reset funpow_swap1)
  then show ?thesis
    by (simp only: Some fcu_steps_from_send fb_fork_choice_updated_v3_def Let_def option.case)
qed

lemma get_steps:
  "(call_step lib tr ^^ 3) (GetStart pid v, s) =
     (let (r, s') = fb_get_payload tr pid v s in (GetDone r, s'))"
  by (auto simp: eval_nat_numeral fb_get_payload_def check_then_take Let_def split: prod.split sum.split)

text \<open>The result of a call whose steps are not interrupted, as an operation of the service.\<close>

fun call_result ::
  "engine_lib \<Rightarrow> 'w transport \<Rightarrow> call \<Rightarrow> 'w flashblocks_service \<Rightarrow> call_pc \<times> 'w flashblocks_service" where
  "call_result lib tr (ForkChoiceUpdated fcs attrs) s =
     (let (r, s') = fb_fork_choice_updated_v3 lib tr fcs attrs s in (FcuDone r, s'))"
| "call_result lib tr (GetPayload pid v) s =
     (let (r, s') = fb_get_payload tr pid v s in (GetDone r, s'))"
| "call_result lib tr (NewPayload np) s = (let (r, s') = fb_new_payload lib tr np s in (NewDone r, s'))"
| "call_result lib tr (GetBlockByNumber number full) s =
     (let (r, s') = fb_get_block_by_number tr number full s in (BlockDone r, s'))"

lemma call_result_done: "call_step lib tr (call_result lib tr call s) = call_result lib tr call s"
  by (cases call) (auto split: prod.split)

text \<open>
  Run without interruption, the lock-by-lock steps are the service's operations: every Engine API call
  returns after at most six steps with the answer and the state of the operation of \<^verbatim>\<open>EngineApiExt\<close>, and the
  task handles a flashblock in three steps with the state of \<^verbatim>\<open>on_event\<close> and is waiting again.
\<close>

theorem uninterrupted_steps_are_the_operations:
  "(call_step lib tr ^^ 6) (call_entry call, s) = call_result lib tr call s \<and>
   (event_step to_json ^^ 3) (EvReceived p, count_message s) = (EvWaiting, on_event to_json p s)"
proof
  have rest: "(call_step lib tr ^^ 3) (call_result lib tr call s) = call_result lib tr call s" for call
    by (rule funpow_fixpoint) (rule call_result_done)
  have split6: "(call_step lib tr ^^ 6) x = (call_step lib tr ^^ 3) ((call_step lib tr ^^ 3) x)" for x
    by (simp add: eval_nat_numeral)
  have get: "(call_step lib tr ^^ 6) (GetStart pid v, s) = call_result lib tr (GetPayload pid v) s" for pid v
    using rest [of "GetPayload pid v"] by (simp only: split6 get_steps call_result.simps)
  show "(call_step lib tr ^^ 6) (call_entry call, s) = call_result lib tr call s"
  proof (cases call)
    case (ForkChoiceUpdated fcs attrs)
    then show ?thesis by (simp only: call_entry.simps fcu_steps call_result.simps)
  next
    case (GetPayload pid v)
    then show ?thesis by (simp only: call_entry.simps get)
  qed (auto simp: eval_nat_numeral fb_new_payload_def fb_get_block_by_number_def split: prod.split)
qed (rule event_steps_on_event)

section \<open>What holds for every interleaving\<close>

fun in_flight :: "ev_pc \<Rightarrow> flashblocks_payload_v1 list" where
  "in_flight EvWaiting = []"
| "in_flight (EvReceived p) = [p]"
| "in_flight (EvChecked p) = [p]"
| "in_flight (EvExtended p) = [p]"

fun unpublished :: "ev_pc \<Rightarrow> flashblocks_payload_v1 list" where
  "unpublished (EvExtended p) = [p]"
| "unpublished pc = []"

fun resetting :: "call_pc \<Rightarrow> bool" where
  "resetting (FcuReset fcs attrs) \<longleftrightarrow> True"
| "resetting (FcuResetAgain resp) \<longleftrightarrow> True"
| "resetting pc \<longleftrightarrow> False"

text \<open>
  The builder holds the accepted flashblocks \<open>acc\<close> from \<open>k\<close> on, numbered from 0; all accepted ones were published
  but the one the task is about to publish.
\<close>

definition built ::
  "(flashblocks_payload_v1 \<Rightarrow> string) \<Rightarrow> ev_pc \<Rightarrow> flashblocks_payload_v1 list \<Rightarrow> flashblocks_payload_v1 list \<Rightarrow> nat
     \<Rightarrow> 'w flashblocks_service \<Rightarrow> bool" where
  "built enc pc published acc k s \<longleftrightarrow>
     acc = published @ unpublished pc \<and> pub_pipe (fs_ws_pub s) = map enc published \<and>
     0 < pub_receivers (fs_ws_pub s) \<and> k \<le> length acc \<and> builder_wf (fs_best_payload s) \<and>
     builder_refines (fs_best_payload s) (drop k acc) \<and>
     (\<forall>i < length (drop k acc). fb_index (drop k acc ! i) = of_nat i)"

text \<open>
  Outside of \<^verbatim>\<open>set_current_payload_id\<close>, only the first flashblock of the block can be one of another payload, and
  none is there yet while the task holds one that it compared with an older id.
\<close>

definition ids_agree :: "ev_pc \<Rightarrow> payload_id option \<Rightarrow> flashblocks_payload_v1 list \<Rightarrow> bool" where
  "ids_agree pc cur blk \<longleftrightarrow>
     (\<forall>i < length blk. 0 < i \<longrightarrow> cur = Some (fb_payload_id (blk ! i))) \<and>
     (\<forall>p. pc = EvChecked p \<longrightarrow> cur = Some (fb_payload_id p) \<or> blk = [])"

definition il_inv :: "(flashblocks_payload_v1 \<Rightarrow> string) \<Rightarrow> 'w il_state \<Rightarrow> bool" where
  "il_inv enc c \<longleftrightarrow>
     (\<exists>published acc k before. built enc (il_event c) published acc k (il_service c) \<and>
        il_received c = before @ in_flight (il_event c) \<and> subseq published before \<and>
        (list_ex resetting (il_calls c) \<or>
         ids_agree (il_event c) (fs_current_payload_id (il_service c)) (drop k acc)))"

lemma il_invI:
  assumes "built enc (il_event c) published acc k (il_service c)"
    "il_received c = before @ in_flight (il_event c)" "subseq published before"
    "list_ex resetting (il_calls c) \<or>
       ids_agree (il_event c) (fs_current_payload_id (il_service c)) (drop k acc)"
  shows "il_inv enc c"
  using assms unfolding il_inv_def by blast

lemma il_invE:
  assumes "il_inv enc c"
  obtains published acc k before where "built enc (il_event c) published acc k (il_service c)"
    "il_received c = before @ in_flight (il_event c)" "subseq published before"
    "list_ex resetting (il_calls c) \<or>
       ids_agree (il_event c) (fs_current_payload_id (il_service c)) (drop k acc)"
  using assms unfolding il_inv_def by blast

lemma built_cong:
  "built enc pc published acc k s \<Longrightarrow> fs_ws_pub t = fs_ws_pub s \<Longrightarrow> fs_best_payload t = fs_best_payload s \<Longrightarrow>
     built enc pc published acc k t"
  unfolding built_def by metis

lemma built_reset:
  "built enc pc published acc k s \<Longrightarrow> fs_ws_pub t = fs_ws_pub s \<Longrightarrow>
     fs_best_payload t = flashblock_builder_new \<Longrightarrow> built enc pc published acc (length acc) t"
  by (simp add: built_def)

lemma ids_agree_Nil [simp]: "ids_agree pc cur []"
  by (simp add: ids_agree_def)

lemma ids_agree_waiting: "ids_agree pc cur blk \<Longrightarrow> ids_agree EvWaiting cur blk"
  by (simp add: ids_agree_def)

text \<open>A call's step leaves the publisher alone and either leaves the builder alone or empties it.\<close>

lemma call_step_effect:
  assumes "call_step lib tr (pc, s) = (pc', s')"
  shows "fs_ws_pub s' = fs_ws_pub s"
    and "fs_best_payload s' = fs_best_payload s \<or> fs_best_payload s' = flashblock_builder_new"
    and "fs_current_payload_id s' = fs_current_payload_id s \<or> resetting pc'"
    and "resetting pc \<Longrightarrow> fs_best_payload s' = flashblock_builder_new"
  using assms
  by (cases pc; auto simp: write_payload_id_def reset_builder_def take_builder_def Let_def
      split: prod.splits sum.splits option.splits if_splits)+

lemma list_ex_update:
  "i < length xs \<Longrightarrow> list_ex P (xs[i := y]) \<longleftrightarrow> P y \<or> (\<exists>j < length xs. j \<noteq> i \<and> P (xs ! j))"
  by (auto simp: list_ex_length nth_list_update)

lemma il_inv_call:
  assumes "il_inv enc c"
  shows "il_inv enc (il_exec lib tr to_json (Continue i) c)"
proof (cases "i < length (il_calls c)")
  case True
  obtain pc' s' where st: "call_step lib tr (il_calls c ! i, il_service c) = (pc', s')" by fastforce
  let ?d = "c\<lparr>il_calls := (il_calls c)[i := pc'], il_service := s'\<rparr>"
  note eff = call_step_effect [OF st]
  from assms obtain published acc k before
    where b: "built enc (il_event c) published acc k (il_service c)"
      and rest: "il_received c = before @ in_flight (il_event c)" "subseq published before"
      and ids: "list_ex resetting (il_calls c) \<or>
        ids_agree (il_event c) (fs_current_payload_id (il_service c)) (drop k acc)" by (rule il_invE)
  have "il_inv enc ?d"
  proof (cases "fs_best_payload s' = flashblock_builder_new")
    case True
    show ?thesis
      by (rule il_invI [of _ _ published acc "length acc" before]) (use rest built_reset [OF b eff(1) True] in auto)
  next
    case False
    with eff have "fs_best_payload s' = fs_best_payload (il_service c)" "\<not> resetting (il_calls c ! i)" by auto
    moreover from this True have "list_ex resetting (il_calls c) \<Longrightarrow> list_ex resetting ((il_calls c)[i := pc'])"
      by (auto simp: list_ex_update) (auto simp: list_ex_length)
    moreover from True have "resetting pc' \<Longrightarrow> list_ex resetting ((il_calls c)[i := pc'])"
      by (simp add: list_ex_update)
    ultimately show ?thesis
      using rest built_cong [OF b eff(1)] ids eff(3)
      by (intro il_invI [of _ _ published acc k before]) auto
  qed
  with True show ?thesis by (simp add: st)
qed (use assms in simp)

text \<open>The task's steps. Only \<^verbatim>\<open>extend\<close> changes what is accepted.\<close>

lemma built_extend:
  assumes "built enc (EvChecked p) published acc k s" "builder_extend p (fs_best_payload s) = (r, b)"
  shows "r = Inr () \<and> built enc (EvExtended p) published (acc @ [p]) k (s\<lparr>fs_best_payload := b\<rparr>)
    \<or> (\<exists>e. r = Inl e) \<and> b = fs_best_payload s"
proof (cases "sp_extends p (drop k acc)")
  case True
  have ref: "builder_refines (fs_best_payload s) (drop k acc)" and k: "k \<le> length acc"
    using assms(1) unfolding built_def by blast+
  from True ref obtain b' where b': "builder_extend p (fs_best_payload s) = (Inr (), b')"
    "builder_refines b' (drop k acc @ [p])" using builder_extend_accepts by blast
  have "builder_wf b" using assms builder_wf_extend [of "fs_best_payload s" p] by (simp add: built_def)
  moreover have "fb_index p = of_nat (length (drop k acc))" using True by (simp add: sp_extends_def)
  ultimately have "built enc (EvExtended p) published (acc @ [p]) k (s\<lparr>fs_best_payload := b\<rparr>)"
    using assms b' k by (auto simp: built_def nth_append less_Suc_eq)
  then show ?thesis using assms(2) b'(1) by simp
next
  case False
  then obtain e where "builder_extend p (fs_best_payload s) = (Inl e, fs_best_payload s)"
    using assms(1) builder_extend_rejects unfolding built_def by blast
  with assms(2) show ?thesis by auto
qed

lemma ids_agree_extend:
  "ids_agree (EvChecked p) cur blk \<Longrightarrow> ids_agree (EvExtended p) cur (blk @ [p])"
  by (auto simp: ids_agree_def nth_append less_Suc_eq)

lemma il_inv_checked:
  assumes "il_inv enc c" and pc: "il_event c = EvChecked p"
  shows "il_inv enc (il_exec lib tr to_json Event c)"
proof -
  from assms(1) obtain published acc k before
    where b: "built enc (EvChecked p) published acc k (il_service c)"
      and rec: "il_received c = before @ [p]" "subseq published before"
      and ids: "list_ex resetting (il_calls c) \<or>
        ids_agree (EvChecked p) (fs_current_payload_id (il_service c)) (drop k acc)"
    unfolding pc il_inv_def by auto
  obtain r b' where ext: "builder_extend p (fs_best_payload (il_service c)) = (r, b')" by fastforce
  have k: "k \<le> length acc" using b unfolding built_def by blast
  from built_extend [OF b ext] consider
      (accepted) "r = Inr ()" "built enc (EvExtended p) published (acc @ [p]) k ((il_service c)\<lparr>fs_best_payload := b'\<rparr>)"
    | (rejected) e where "r = Inl e" "b' = fs_best_payload (il_service c)" by blast
  then show ?thesis
  proof cases
    case accepted
    then show ?thesis
      using rec ids ids_agree_extend k
      by (intro il_invI [of _ _ published "acc @ [p]" k before]) (auto simp: pc ext)
  next
    case rejected
    then show ?thesis
      using rec ids b by (intro il_invI [of _ _ published acc k "before @ [p]"])
        (auto simp: pc ext built_def ids_agree_def)
  qed
qed

lemma il_inv_event:
  assumes inv: "il_inv enc c" and json: "\<And>q. to_json q = Inr (enc q)"
  shows "il_inv enc (il_exec lib tr to_json Event c)"
proof (cases "il_event c")
  case (EvReceived p)
  from inv obtain published acc k before
    where b: "built enc (EvReceived p) published acc k (il_service c)"
      and rec: "il_received c = before @ [p]" "subseq published before"
      and ids: "list_ex resetting (il_calls c) \<or>
        ids_agree (EvReceived p) (fs_current_payload_id (il_service c)) (drop k acc)"
    unfolding EvReceived il_inv_def by auto
  have b': "built enc EvWaiting published acc k s" "built enc (EvChecked p) published acc k (il_service c)"
    if "fs_ws_pub s = fs_ws_pub (il_service c)" "fs_best_payload s = fs_best_payload (il_service c)" for s :: "'a flashblocks_service"
    using b that by (auto simp: built_def)
  show ?thesis
  proof (cases "fs_current_payload_id (il_service c) = Some (fb_payload_id p)")
    case True
    then show ?thesis
      using b' ids rec
      by (intro il_invI [of _ _ published acc k before]) (auto simp: EvReceived ids_agree_def)
  next
    case False
    then show ?thesis
      using b' ids rec
      by (intro il_invI [of _ _ published acc k "before @ [p]"])
        (auto simp: EvReceived ids_agree_def split: option.splits)
  qed
next
  case (EvExtended p)
  from inv obtain published acc k before
    where b: "built enc (EvExtended p) published acc k (il_service c)"
      and rec: "il_received c = before @ [p]" "subseq published before"
      and ids: "list_ex resetting (il_calls c) \<or>
        ids_agree (EvExtended p) (fs_current_payload_id (il_service c)) (drop k acc)"
    unfolding EvExtended il_inv_def by auto
  have acc: "acc = published @ [p]" using b unfolding built_def by simp
  have "built enc EvWaiting (published @ [p]) (published @ [p]) k
      ((il_service c)\<lparr>fs_ws_pub := snd (publish to_json p (fs_ws_pub (il_service c)))\<rparr>)"
    using b json by (auto simp: acc built_def publish_pipe)
  moreover have "subseq (published @ [p]) (before @ [p])" using rec(2) by simp
  ultimately show ?thesis
    using rec(1) ids ids_agree_waiting
    by (intro il_invI [of _ _ "published @ [p]" "published @ [p]" k "before @ [p]"]) (auto simp: acc EvExtended)
next
  case EvWaiting
  with inv show ?thesis by (simp add: il_inv_def)
next
  case (EvChecked p)
  with inv show ?thesis by (rule il_inv_checked)
qed

lemma il_inv_exec:
  assumes inv: "il_inv enc c" and json: "\<And>q. to_json q = Inr (enc q)"
  shows "il_inv enc (il_exec lib tr to_json a c)"
proof (cases a)
  case (Receive p)
  from inv obtain published acc k before
    where "built enc (il_event c) published acc k (il_service c)"
      "il_received c = before @ in_flight (il_event c)" "subseq published before"
      "list_ex resetting (il_calls c) \<or>
        ids_agree (il_event c) (fs_current_payload_id (il_service c)) (drop k acc)" by (rule il_invE)
  then have "il_inv enc (il_exec lib tr to_json (Receive p) c)" if "il_event c = EvWaiting"
    using that
    by (intro il_invI [of _ _ published acc k before]) (auto simp: built_def ids_agree_def count_message_def)
  with inv show ?thesis by (auto simp: Receive)
next
  case (Begin call)
  from inv show ?thesis by (cases call) (auto simp: Begin il_inv_def)
next
  case RunSpawned
  have "fs_ws_pub (fb_run_spawned tr s) = fs_ws_pub s" "fs_best_payload (fb_run_spawned tr s) = fs_best_payload s"
    "fs_current_payload_id (fb_run_spawned tr s) = fs_current_payload_id s" for s
    by (auto split: list.split)
  with inv show ?thesis by (simp add: RunSpawned il_inv_def built_def del: fb_run_spawned.simps)
qed (simp_all only: il_inv_call [OF inv] il_inv_event [OF inv json])

lemma il_inv_new: "il_inv enc (il_new w)"
  by (auto simp: il_inv_def built_def il_new_def flashblocks_service_new_def publisher_new_def)

interpretation interleaving: invariant_system
  "\<lambda>c. c = il_new w" "il_step lib tr (Inr \<circ> enc)" "il_inv enc"
  for lib tr enc w
  by unfold_locales (auto simp: il_inv_new elim!: il_step.cases intro: il_inv_exec)

text \<open>
  C9: what the locks guarantee. For every order in which the task and any number of Engine API calls take their
  lock-by-lock steps, provided a flashblock can always be serialised: what was published are flashblocks taken
  from the channel, in that order; the accepted ones are the published ones and at most the one about to be
  published; the block a \<^verbatim>\<open>getPayload\<close> that takes the builder now gets is made of the last accepted ones from some
  point on, numbered from 0, and there is none exactly when there is no such flashblock; and whenever no call is
  between writing the payload id and replacing the builder, all of these flashblocks but possibly the first are of
  the current payload.
\<close>

theorem blocks_under_every_interleaving:
  assumes "reach (\<lambda>c. c = il_new w) (il_step lib tr to_json) c"
    and "\<And>q. to_json q = Inr (enc q)"
  shows "\<exists>published acc k. pub_pipe (fs_ws_pub (il_service c)) = map enc published \<and>
     subseq published (il_received c) \<and> acc = published @ unpublished (il_event c) \<and>
     (\<forall>i < length (drop k acc). fb_index (drop k acc ! i) = of_nat i) \<and>
     (\<forall>v. case fst (take_builder v (il_service c)) of
        Inr e \<Rightarrow> transactions e = concat (map (diff_transactions \<circ> fb_diff) (drop k acc)) \<and> drop k acc \<noteq> []
      | Inl e \<Rightarrow> e = MissingPayload \<and> drop k acc = []) \<and>
     (list_ex resetting (il_calls c) \<or>
      (\<forall>i < length (drop k acc). 0 < i \<longrightarrow>
         fs_current_payload_id (il_service c) = Some (fb_payload_id (drop k acc ! i))))"
proof -
  have "to_json = Inr \<circ> enc" using assms(2) by auto
  then have "il_inv enc c" using interleaving.reach_inv [of w lib tr enc c] assms(1) by simp
  then obtain published acc k before where b: "built enc (il_event c) published acc k (il_service c)"
    and rec: "il_received c = before @ in_flight (il_event c)" "subseq published before"
    and ids: "list_ex resetting (il_calls c) \<or>
       ids_agree (il_event c) (fs_current_payload_id (il_service c)) (drop k acc)" by (rule il_invE)
  have ref: "builder_refines (fs_best_payload (il_service c)) (drop k acc)"
    and wf: "builder_wf (fs_best_payload (il_service c))" using b unfolding built_def by blast+
  have "case fst (take_builder v (il_service c)) of
        Inr e \<Rightarrow> transactions e = concat (map (diff_transactions \<circ> fb_diff) (drop k acc)) \<and> drop k acc \<noteq> []
      | Inl e \<Rightarrow> e = MissingPayload \<and> drop k acc = []" for v
    using builder_wf_base_of [OF wf ref]
    by (auto simp: take_builder_def Let_def into_envelope_def build_envelope_refines [OF ref] assemble_def
        payload_simps split: option.splits)
  moreover have "subseq published (il_received c)"
    using rec by (metis prefixI prefix_imp_subseq subseq_order.order_trans)
  ultimately show ?thesis using b ids unfolding built_def ids_agree_def by blast
qed

text \<open>
  A builder that gives each fork choice update with attributes the payload id of its head, as the id the service
  computes for it.
\<close>

definition race_lib :: engine_lib where
  "race_lib = sample_lib\<lparr>lib_payload_id_optimism := (\<lambda>head _ _. ucast head)\<rparr>"

definition race_transport :: "unit transport" where
  "race_transport = (sample_transport (Inl (JsOther ''x'')) (Inl (JsOther ''x'')) (Inl (JsOther ''x'')) (Inl (JsOther ''x'')))
     \<lparr>tr_fork_choice_updated_v3 := (\<lambda>fcs attrs w.
        (Inr (sample_fcu (map_option (\<lambda>_. ucast (fcs_head_block_hash fcs)) attrs)), w))\<rparr>"

definition race_fcu :: "payload_id \<Rightarrow> call" where
  "race_fcu pid = ForkChoiceUpdated (sample_fcs\<lparr>fcs_head_block_hash := ucast pid\<rparr>) (Some (sample_attrs None))"

definition race_run :: "il_action list \<Rightarrow> unit il_state" where
  "race_run as = fold (il_exec race_lib race_transport (\<lambda>_. Inr ''fb'')) as (il_new ())"

text \<open>
  The task has compared the first flashblock of payload 1 with the current id when an update starts payload 2 and
  replaces the builder; the flashblock goes into the new builder, and the second one of payload 2 after it.
\<close>

definition mixing_schedule :: "il_action list" where
  "mixing_schedule =
     [Begin (race_fcu 1), Continue 0, Continue 0, Continue 0, Continue 0,
      Receive (sample_fb 1 0 (Some sample_base) [[1]]), Event,
      Begin (race_fcu 2), Continue 1, Continue 1, Continue 1, Continue 1,
      Event, Event,
      Receive (sample_fb 2 0 (Some sample_base) [[2]]), Event, Event,
      Receive (sample_fb 2 1 None [[3]]), Event, Event, Event]"

text \<open>
  A \<^verbatim>\<open>getPayload\<close> for payload 1 has compared its id when an update starts payload 2, whose first flashblock arrives
  before the call takes the builder.
\<close>

definition stealing_schedule :: "il_action list" where
  "stealing_schedule =
     [Begin (race_fcu 1), Continue 0, Continue 0, Continue 0, Continue 0,
      Receive (sample_fb 1 0 (Some sample_base) [[1]]), Event, Event, Event,
      Begin (GetPayload 1 PV3), Continue 1,
      Begin (race_fcu 2), Continue 2, Continue 2, Continue 2, Continue 2,
      Receive (sample_fb 2 0 (Some sample_base) [[2]]), Event, Event, Event,
      Continue 1, Continue 1,
      Receive (sample_fb 2 1 None [[3]]), Event, Event, Event]"

definition block_transactions :: "(flashblocks_error + op_execution_payload_envelope) \<Rightarrow> bytes list option" where
  "block_transactions r = (case r of Inl _ \<Rightarrow> None | Inr e \<Rightarrow> Some (transactions e))"

fun returned :: "call_pc \<Rightarrow> bool" where
  "returned (FcuDone r) \<longleftrightarrow> True"
| "returned (GetDone r) \<longleftrightarrow> True"
| "returned (NewDone r) \<longleftrightarrow> True"
| "returned (BlockDone r) \<longleftrightarrow> True"
| "returned pc \<longleftrightarrow> False"

fun answered_transactions :: "call_pc \<Rightarrow> bytes list option" where
  "answered_transactions (GetDone (Inr e)) = Some (transactions e)"
| "answered_transactions pc = None"

text \<open>
  C10: the id check and the builder are not one critical section. There are reachable states in which every call
  has returned and the task is waiting, and in the first the block of payload 2, the current one, has the
  transactions of the first flashblock of payload 1 in place of its own first flashblock, which was rejected; in
  the second the answer to a \<^verbatim>\<open>getPayload\<close> for payload 1 has the transactions of payload 2, and payload 2 is left
  without a block although both its flashblocks came in order.
\<close>

theorem payload_id_races:
  "\<exists>mixed stolen.
     reach (\<lambda>c. c = il_new ()) (il_step race_lib race_transport (\<lambda>_. Inr ''fb'')) mixed \<and>
     reach (\<lambda>c. c = il_new ()) (il_step race_lib race_transport (\<lambda>_. Inr ''fb'')) stolen \<and>
     il_event mixed = EvWaiting \<and> list_all returned (il_calls mixed) \<and> fs_current_payload_id (il_service mixed) = Some 2 \<and>
     block_transactions (fst (get_best_payload PV3 2 (il_service mixed))) = Some [[1], [3]] \<and>
     map fb_payload_id (il_received mixed) = [1, 2, 2] \<and>
     il_event stolen = EvWaiting \<and> list_all returned (il_calls stolen) \<and> fs_current_payload_id (il_service stolen) = Some 2 \<and>
     answered_transactions (il_calls stolen ! 1) = Some [[2]] \<and>
     block_transactions (fst (get_best_payload PV3 2 (il_service stolen))) = None \<and>
     map fb_payload_id (il_received stolen) = [1, 2, 2]"
proof (intro exI conjI)
  show "reach (\<lambda>c. c = il_new ()) (il_step race_lib race_transport (\<lambda>_. Inr ''fb'')) (race_run mixing_schedule)"
    "reach (\<lambda>c. c = il_new ()) (il_step race_lib race_transport (\<lambda>_. Inr ''fb'')) (race_run stealing_schedule)"
    unfolding race_run_def by (rule il_reach_run)+
qed code_simp+

theorem blocks_under_every_interleaving_witness:
  "\<exists>(published :: flashblocks_payload_v1 list) k.
     pub_pipe (fs_ws_pub (il_service (race_run mixing_schedule))) = map (\<lambda>_. ''fb'') published \<and>
     subseq published (il_received (race_run mixing_schedule)) \<and>
     block_transactions (fst (take_builder PV3 (il_service (race_run mixing_schedule)))) =
       Some (concat (map (diff_transactions \<circ> fb_diff) (drop k published)))"
proof -
  let ?c = "race_run mixing_schedule"
  have r: "reach (\<lambda>c. c = il_new ()) (il_step race_lib race_transport (\<lambda>_. Inr ''fb'')) ?c"
    unfolding race_run_def by (rule il_reach_run)
  have w: "il_event ?c = EvWaiting" by code_simp
  have "block_transactions (fst (take_builder PV3 (il_service ?c))) = Some [[1], [3]]" by code_simp
  then obtain e where e: "fst (take_builder PV3 (il_service ?c)) = Inr e"
    by (auto simp: block_transactions_def split: sum.splits)
  obtain published k where
    pub: "pub_pipe (fs_ws_pub (il_service ?c)) = map (\<lambda>_. ''fb'') published" "subseq published (il_received ?c)"
    and blk: "\<forall>v. case fst (take_builder v (il_service ?c)) of
        Inr e \<Rightarrow> transactions e = concat (map (diff_transactions \<circ> fb_diff) (drop k published)) \<and> drop k published \<noteq> []
      | Inl e \<Rightarrow> e = MissingPayload \<and> drop k published = []"
    using blocks_under_every_interleaving [OF r refl] unfolding w unpublished.simps append_Nil2 by blast
  have "block_transactions (fst (take_builder PV3 (il_service ?c))) =
      Some (concat (map (diff_transactions \<circ> fb_diff) (drop k published)))"
    using blk [THEN spec, of PV3] e by (simp add: block_transactions_def)
  with pub show ?thesis by - (rule exI [where x = published], rule exI [where x = k], intro conjI)
qed

end
