(* ===== verification/Http_Proxy.thy ===== *)
theory Http_Proxy
  imports Prelude
begin

text \<open>
  The HTTP layer in front of the server: \<^verbatim>\<open>ProxyService\<close> (\<^verbatim>\<open>proxy.rs\<close>) routes each JSON-RPC request by
  its method, and \<^verbatim>\<open>HttpClient::forward\<close> (\<^verbatim>\<open>client/http.rs\<close>) passes a request on to a node.

  A request is its URI, its other parts (method, version, headers: the type \<open>'p\<close>, never inspected) and
  its body, which is an error when reading it fails. What other crates do is a parameter: the two
  \<^verbatim>\<open>serde_json\<close> deserialisations in \<open>proxy_lib\<close>, the HTTP clients and the inner service as functions on
  their own states. The request to the builder is detached: it is queued in \<open>px_spawned\<close> and run by
  \<open>proxy_run_spawned\<close>.
\<close>

section \<open>Requests\<close>

type_synonym box_error = string

record 'p http_request =
  rq_uri :: string
  rq_parts :: 'p
  rq_body :: "box_error + bytes"

record 'p buffered_request =
  bq_uri :: string
  bq_parts :: 'p
  bq_body :: bytes

record 'q http_raw_response =
  rr_parts :: 'q
  rr_body :: "box_error + bytes"

record 'q buffered_response =
  br_parts :: 'q
  br_body :: bytes

definition into_buffered_request :: "'p http_request \<Rightarrow> box_error + 'p buffered_request" where
  "into_buffered_request req =
     (case rq_body req of
        Inl e \<Rightarrow> Inl e
      | Inr body \<Rightarrow> Inr \<lparr>bq_uri = rq_uri req, bq_parts = rq_parts req, bq_body = body\<rparr>)"

definition from_buffered_request :: "'p buffered_request \<Rightarrow> 'p http_request" where
  "from_buffered_request req =
     \<lparr>rq_uri = bq_uri req, rq_parts = bq_parts req, rq_body = Inr (bq_body req)\<rparr>"

text \<open>
  \<open>pl_method\<close> is the \<^verbatim>\<open>method\<close> member of the request, \<open>pl_error_code\<close> the code of the response's
  \<^verbatim>\<open>error\<close> member if there is one.
\<close>

record proxy_lib =
  pl_method :: "bytes \<Rightarrow> box_error + string"
  pl_error_code :: "bytes \<Rightarrow> box_error + int option"

section \<open>HttpClient\<close>

record 'c http_client =
  hc_client :: 'c
  hc_url :: string

type_synonym ('p, 'q, 'c) http_call =
  "'p http_request \<Rightarrow> 'c \<Rightarrow> (box_error + 'q http_raw_response) \<times> 'c"

definition parse_response_code :: "proxy_lib \<Rightarrow> bytes \<Rightarrow> box_error + int option" where
  "parse_response_code lib body_bytes = pl_error_code lib body_bytes"

definition forward ::
  "proxy_lib \<Rightarrow> ('p, 'q, 'c) http_call \<Rightarrow> 'p buffered_request \<Rightarrow> string \<Rightarrow> 'c http_client
     \<Rightarrow> (box_error + 'q buffered_response) \<times> 'c http_client" where
  "forward lib call req method cl =
     (let req' = req\<lparr>bq_uri := hc_url cl\<rparr> in
      case call (from_buffered_request req') (hc_client cl) of
        (Inl e, c) \<Rightarrow> (Inl e, cl\<lparr>hc_client := c\<rparr>)
      | (Inr res, c) \<Rightarrow>
          (case rr_body res of
             Inl e \<Rightarrow> Inl e
           | Inr body_bytes \<Rightarrow>
               (case parse_response_code lib body_bytes of
                  Inl e \<Rightarrow> Inl e
                | Inr _ \<Rightarrow> Inr \<lparr>br_parts = rr_parts res, br_body = body_bytes\<rparr>),
           cl\<lparr>hc_client := c\<rparr>))"

section \<open>ProxyService\<close>

definition ENGINE_METHOD :: string where
  "ENGINE_METHOD = ''engine_''"

definition FORWARD_REQUESTS :: "string list" where
  "FORWARD_REQUESTS =
     [''eth_sendRawTransaction'', ''eth_sendRawTransactionConditional'', ''miner_setExtra'',
      ''miner_setGasPrice'', ''miner_setGasLimit'', ''miner_setMaxDASize'']"

definition starts_with :: "string \<Rightarrow> string \<Rightarrow> bool" where
  "starts_with str pre \<longleftrightarrow> take (length pre) str = pre"

record ('p, 'c, 'i) proxy_service =
  px_inner :: 'i
  px_l2_client :: "'c http_client"
  px_builder_client :: "'c http_client"
  px_spawned :: "('p buffered_request \<times> string) list"

record ('p, 'q, 'c, 'i) proxy_env =
  pe_lib :: proxy_lib
  pe_call :: "('p, 'q, 'c) http_call"
  pe_inner :: "'p http_request \<Rightarrow> 'i \<Rightarrow> (box_error + 'q buffered_response) \<times> 'i"

definition proxy_call ::
  "('p, 'q, 'c, 'i) proxy_env \<Rightarrow> 'p http_request \<Rightarrow> ('p, 'c, 'i) proxy_service
     \<Rightarrow> (box_error + 'q buffered_response) \<times> ('p, 'c, 'i) proxy_service" where
  "proxy_call env req s =
     (case into_buffered_request req of
        Inl e \<Rightarrow> (Inl e, s)
      | Inr buffered \<Rightarrow>
          (case pl_method (pe_lib env) (bq_body buffered) of
             Inl e \<Rightarrow> (Inl e, s)
           | Inr method \<Rightarrow>
               if starts_with method ENGINE_METHOD then
                 (let (r, i) = pe_inner env (from_buffered_request buffered) (px_inner s)
                  in (r, s\<lparr>px_inner := i\<rparr>))
               else
                 (let s1 = (if method \<in> set FORWARD_REQUESTS
                            then s\<lparr>px_spawned := px_spawned s @ [(buffered, method)]\<rparr> else s);
                      (r, c) = forward (pe_lib env) (pe_call env) buffered method (px_l2_client s1)
                  in (r, s1\<lparr>px_l2_client := c\<rparr>))))"

text \<open>A detached request runs against the builder; its result is dropped.\<close>

fun proxy_run_spawned ::
  "('p, 'q, 'c, 'i) proxy_env \<Rightarrow> ('p, 'c, 'i) proxy_service \<Rightarrow> ('p, 'c, 'i) proxy_service" where
  "proxy_run_spawned env s =
     (case px_spawned s of
        [] \<Rightarrow> s
      | (req, method) # rest \<Rightarrow>
          s\<lparr>px_builder_client :=
              snd (forward (pe_lib env) (pe_call env) req method (px_builder_client s)),
            px_spawned := rest\<rparr>)"

section \<open>Lemmas\<close>

lemma forward_url [simp]: "hc_url (snd (forward lib call req method cl)) = hc_url cl"
  by (simp add: forward_def Let_def split: prod.splits sum.splits)

lemma into_from_buffered [simp]: "into_buffered_request (from_buffered_request b) = Inr b"
  by (simp add: into_buffered_request_def from_buffered_request_def)

lemma into_buffered_SomeD:
  "into_buffered_request req = Inr b \<Longrightarrow> from_buffered_request b = req"
  by (auto simp: into_buffered_request_def from_buffered_request_def split: sum.splits)

lemma FORWARD_REQUESTS_not_engine:
  "method \<in> set FORWARD_REQUESTS \<Longrightarrow> \<not> starts_with method ENGINE_METHOD"
  by (auto simp: FORWARD_REQUESTS_def ENGINE_METHOD_def starts_with_def)

lemma forward_result:
  "fst (forward lib call req method cl) =
     (case fst (call (from_buffered_request (req\<lparr>bq_uri := hc_url cl\<rparr>)) (hc_client cl)) of
        Inl e \<Rightarrow> Inl e
      | Inr res \<Rightarrow>
          (case rr_body res of
             Inl e \<Rightarrow> Inl e
           | Inr body \<Rightarrow>
               (case pl_error_code lib body of
                  Inl e \<Rightarrow> Inl e | Inr _ \<Rightarrow> Inr \<lparr>br_parts = rr_parts res, br_body = body\<rparr>)))"
  by (simp add: forward_def parse_response_code_def Let_def split: prod.splits sum.splits)

text \<open>
  Requests are routed by their method. An \<^verbatim>\<open>engine_\<close> request goes, unchanged, to the inner server and to
  nothing else. Every other request goes to the L2 node, with only its URI replaced, and its answer is
  the L2 node's; a detached copy for the builder is queued exactly for the six forwarded methods. A
  request whose body cannot be read or has no method reaches nobody.
\<close>

theorem proxy_routing:
  "case into_buffered_request req of
     Inl e \<Rightarrow> proxy_call env req s = (Inl e, s)
   | Inr b \<Rightarrow>
      (case pl_method (pe_lib env) (bq_body b) of
         Inl e \<Rightarrow> proxy_call env req s = (Inl e, s)
       | Inr method \<Rightarrow>
          if starts_with method ''engine_''
          then proxy_call env req s =
            (fst (pe_inner env req (px_inner s)), s\<lparr>px_inner := snd (pe_inner env req (px_inner s))\<rparr>)
          else px_inner (snd (proxy_call env req s)) = px_inner s \<and>
            px_builder_client (snd (proxy_call env req s)) = px_builder_client s \<and>
            fst (proxy_call env req s) = fst (forward (pe_lib env) (pe_call env) b method (px_l2_client s)) \<and>
            px_l2_client (snd (proxy_call env req s)) =
              snd (forward (pe_lib env) (pe_call env) b method (px_l2_client s)) \<and>
            px_spawned (snd (proxy_call env req s)) =
              px_spawned s @ (if method \<in> {''eth_sendRawTransaction'', ''eth_sendRawTransactionConditional'',
                ''miner_setExtra'', ''miner_setGasPrice'', ''miner_setGasLimit'', ''miner_setMaxDASize''}
                then [(b, method)] else []))"
proof -
  have fwd: "{''eth_sendRawTransaction'', ''eth_sendRawTransactionConditional'',
      ''miner_setExtra'', ''miner_setGasPrice'', ''miner_setGasLimit'', ''miner_setMaxDASize''} =
      set FORWARD_REQUESTS"
    by (simp add: FORWARD_REQUESTS_def)
  show ?thesis
    unfolding fwd ENGINE_METHOD_def [symmetric]
    by (auto simp: proxy_call_def Let_def into_buffered_SomeD split: sum.split prod.split)
qed

text \<open>
  Forwarding is transparent. A forwarded request reaches the node with its own parts and body under
  the node's URI, and a response is returned exactly when the node's body could be read and is a
  JSON-RPC response; it is then the node's response, parts and body unchanged, an error answer included.
\<close>

theorem forward_is_transparent:
  "fst (forward lib call req method cl) = Inr resp \<longleftrightarrow>
     (\<exists>res code. fst (call \<lparr>rq_uri = hc_url cl, rq_parts = bq_parts req, rq_body = Inr (bq_body req)\<rparr>
          (hc_client cl)) = Inr res \<and>
        rr_body res = Inr (br_body resp) \<and> rr_parts res = br_parts resp \<and>
        pl_error_code lib (br_body resp) = Inr code)"
  by (cases resp) (auto simp: forward_result from_buffered_request_def split: sum.splits)

end
