(* ===== verification/Auth_Client.thy ===== *)
theory Auth_Client
  imports Http_Proxy
begin

text \<open>
  The HTTP client the proxy forwards with, as \<^verbatim>\<open>HttpClient::new\<close> (\<^verbatim>\<open>client/http.rs\<close>) builds it, and its
  innermost layer \<^verbatim>\<open>AuthService\<close> (\<^verbatim>\<open>client/auth.rs\<close>), which puts a fresh token of the node's secret on every
  request.

  The parts of a request are its method and its headers; a header map has a list of values for each (lower-case)
  name. The timeout and decompression layers of other crates are the parameter \<open>layers\<close>, the JWT encoding, the
  parsing of header values and the clock are \<open>jwt_lib\<close>, the connection to the node is \<open>net\<close> on a state \<open>'n\<close>.
  Whether a header value is marked as sensitive only matters for printing and is left out. A panic ends the
  request without an answer; it is the error that begins with \<open>panic\<close>.
\<close>

section \<open>AuthService\<close>

record http_parts =
  hp_method :: string
  hp_headers :: "string \<Rightarrow> string list"

definition AUTHORIZATION :: string where
  "AUTHORIZATION = ''authorization''"

record jwt_claims =
  jc_iat :: u64
  jc_exp :: "u64 option"

text \<open>\<open>jl_now\<close> is the time since the epoch in seconds, \<open>None\<close> when the clock is before it.\<close>

record 'n jwt_lib =
  jl_now :: "'n \<Rightarrow> u64 option"
  jl_encode :: "string \<Rightarrow> jwt_claims \<Rightarrow> string + string"
  jl_parse :: "string \<Rightarrow> string option"

record 'n auth_service =
  as_secret :: string
  as_inner :: 'n

definition secret_to_bearer_header :: "'n jwt_lib \<Rightarrow> u64 option \<Rightarrow> string \<Rightarrow> string + string" where
  "secret_to_bearer_header lib now secret =
     (case now of
        None \<Rightarrow> Inl ''panic: Failed to get epoch time''
      | Some iat \<Rightarrow>
          (case jl_encode lib secret \<lparr>jc_iat = iat, jc_exp = None\<rparr> of
             Inl _ \<Rightarrow> Inl ''panic: Failed to encode JWT claims''
           | Inr token \<Rightarrow>
               (case jl_parse lib (''Bearer '' @ token) of
                  None \<Rightarrow> Inl ''panic: Failed to parse JWT Header''
                | Some value \<Rightarrow> Inr value)))"

definition insert_header :: "string \<Rightarrow> string \<Rightarrow> http_parts http_request \<Rightarrow> http_parts http_request" where
  "insert_header k v req =
     req\<lparr>rq_parts := (rq_parts req)\<lparr>hp_headers := (hp_headers (rq_parts req))(k := [v])\<rparr>\<rparr>"

definition auth_call ::
  "'n jwt_lib \<Rightarrow> (http_parts, 'q, 'n) http_call \<Rightarrow> (http_parts, 'q, 'n auth_service) http_call" where
  "auth_call lib net request s =
     (case secret_to_bearer_header lib (jl_now lib (as_inner s)) (as_secret s) of
        Inl e \<Rightarrow> (Inl e, s)
      | Inr header \<Rightarrow>
          (let (r, n) = net (insert_header AUTHORIZATION header request) (as_inner s)
           in (r, s\<lparr>as_inner := n\<rparr>)))"

section \<open>HttpClient\<close>

definition http_client_new :: "string \<Rightarrow> string \<Rightarrow> 'n \<Rightarrow> 'n auth_service http_client" where
  "http_client_new url secret n = \<lparr>hc_client = \<lparr>as_secret = secret, as_inner = n\<rparr>, hc_url = url\<rparr>"

type_synonym ('q, 'n) http_layers =
  "(http_parts, 'q, 'n auth_service) http_call \<Rightarrow> (http_parts, 'q, 'n auth_service) http_call"

definition http_client_service ::
  "('q, 'n) http_layers \<Rightarrow> 'n jwt_lib \<Rightarrow> (http_parts, 'q, 'n) http_call
     \<Rightarrow> (http_parts, 'q, 'n auth_service) http_call" where
  "http_client_service layers lib net = layers (auth_call lib net)"

text \<open>
  The documented behaviour of the two layers: a request is either not sent at all or reaches the inner service
  once, with its URI, its body and its headers, except for the encodings that are accepted.
\<close>

definition layers_ok :: "('q, 'n) http_layers \<Rightarrow> bool" where
  "layers_ok layers \<longleftrightarrow>
     (\<forall>call req c. snd (layers call req c) = c \<or>
        (\<exists>req'. snd (layers call req c) = snd (call req' c) \<and> rq_uri req' = rq_uri req \<and>
           rq_body req' = rq_body req \<and>
           (\<forall>k. k \<noteq> ''accept-encoding'' \<longrightarrow> hp_headers (rq_parts req') k = hp_headers (rq_parts req) k)))"

section \<open>The proxy with its clients\<close>

record ('q, 'n, 'i) proxy_world =
  pw_lib :: proxy_lib
  pw_layers :: "('q, 'n) http_layers"
  pw_jwt :: "'n jwt_lib"
  pw_net :: "(http_parts, 'q, 'n) http_call"
  pw_inner :: "http_parts http_request \<Rightarrow> 'i \<Rightarrow> (box_error + 'q buffered_response) \<times> 'i"

definition world_env :: "('q, 'n, 'i) proxy_world \<Rightarrow> (http_parts, 'q, 'n auth_service, 'i) proxy_env" where
  "world_env w =
     \<lparr>pe_lib = pw_lib w, pe_call = http_client_service (pw_layers w) (pw_jwt w) (pw_net w), pe_inner = pw_inner w\<rparr>"

text \<open>\<^verbatim>\<open>ProxyLayer::layer\<close>.\<close>

definition proxy_new ::
  "'n auth_service http_client \<Rightarrow> 'n auth_service http_client \<Rightarrow> 'i
     \<Rightarrow> (http_parts, 'n auth_service, 'i) proxy_service" where
  "proxy_new l2_client builder_client inner =
     \<lparr>px_inner = inner, px_l2_client = l2_client, px_builder_client = builder_client, px_spawned = []\<rparr>"

inductive proxy_step ::
  "('q, 'n, 'i) proxy_world \<Rightarrow> (http_parts, 'n auth_service, 'i) proxy_service
     \<Rightarrow> (http_parts, 'n auth_service, 'i) proxy_service \<Rightarrow> bool" for w where
  proxy_request: "proxy_step w s (snd (proxy_call (world_env w) req s))"
| proxy_detached: "proxy_step w s (proxy_run_spawned (world_env w) s)"

section \<open>What the nodes see\<close>

text \<open>
  A request as a node may see it: for its URI, with a JSON-RPC method out of \<open>M\<close>, and as its only authorization
  a token that was encoded with the node's secret at some time of the clock.
\<close>

definition node_request ::
  "proxy_lib \<Rightarrow> 'n jwt_lib \<Rightarrow> string \<Rightarrow> string \<Rightarrow> string set \<Rightarrow> http_parts http_request \<Rightarrow> bool" where
  "node_request plib jwt url secret M r \<longleftrightarrow>
     rq_uri r = url \<and>
     (\<exists>body method. rq_body r = Inr body \<and> pl_method plib body = Inr method \<and> method \<in> M) \<and>
     (\<exists>now token value. jl_now jwt now \<noteq> None \<and>
        jl_encode jwt secret \<lparr>jc_iat = the (jl_now jwt now), jc_exp = None\<rparr> = Inr token \<and>
        jl_parse jwt (''Bearer '' @ token) = Some value \<and> hp_headers (rq_parts r) AUTHORIZATION = [value])"

definition node_ok ::
  "('n \<Rightarrow> http_parts http_request list) \<Rightarrow> ('q, 'n, 'i) proxy_world \<Rightarrow> string \<Rightarrow> string \<Rightarrow> string set
     \<Rightarrow> 'n auth_service http_client \<Rightarrow> bool" where
  "node_ok seen w url secret M cl \<longleftrightarrow>
     hc_url cl = url \<and> as_secret (hc_client cl) = secret \<and>
     (\<forall>r \<in> set (seen (as_inner (hc_client cl))). node_request (pw_lib w) (pw_jwt w) url secret M r)"

definition engine_methods :: "string set" where
  "engine_methods = {method. starts_with method ENGINE_METHOD}"

definition proxy_inv ::
  "('n \<Rightarrow> http_parts http_request list) \<Rightarrow> ('q, 'n, 'i) proxy_world \<Rightarrow> string \<Rightarrow> string \<Rightarrow> string \<Rightarrow> string
     \<Rightarrow> (http_parts, 'n auth_service, 'i) proxy_service \<Rightarrow> bool" where
  "proxy_inv seen w l2_url l2_secret b_url b_secret s \<longleftrightarrow>
     node_ok seen w l2_url l2_secret (- engine_methods) (px_l2_client s) \<and>
     node_ok seen w b_url b_secret (set FORWARD_REQUESTS) (px_builder_client s) \<and>
     (\<forall>(b, method) \<in> set (px_spawned s).
        pl_method (pw_lib w) (bq_body b) = Inr method \<and> method \<in> set FORWARD_REQUESTS)"

lemma secret_to_bearer_header_Inr:
  "secret_to_bearer_header lib now secret = Inr value \<longleftrightarrow>
     (\<exists>iat token. now = Some iat \<and> jl_encode lib secret \<lparr>jc_iat = iat, jc_exp = None\<rparr> = Inr token \<and>
        jl_parse lib (''Bearer '' @ token) = Some value)"
  by (auto simp: secret_to_bearer_header_def split: option.splits sum.splits)

text \<open>What the network is sent by the innermost layer: nothing, or the request with the token.\<close>

lemma auth_call_net:
  obtains "snd (auth_call lib net req s) = s"
  | hv where "secret_to_bearer_header lib (jl_now lib (as_inner s)) (as_secret s) = Inr hv"
    "snd (auth_call lib net req s) =
       s\<lparr>as_inner := snd (net (insert_header AUTHORIZATION hv req) (as_inner s))\<rparr>"
  by (cases "secret_to_bearer_header lib (jl_now lib (as_inner s)) (as_secret s)")
    (auto simp: auth_call_def split: prod.splits)

lemma forward_client:
  "snd (forward lib call req method cl) =
     cl\<lparr>hc_client := snd (call (from_buffered_request (req\<lparr>bq_uri := hc_url cl\<rparr>)) (hc_client cl))\<rparr>"
  by (simp add: forward_def Let_def split: prod.splits sum.splits)

lemma auth_call_node_ok:
  assumes "\<And>req n. seen (snd (pw_net w req n)) = seen n @ [req]"
    and "node_ok seen w url secret M cl"
    and "rq_uri req = url" "rq_body req = Inr body" "pl_method (pw_lib w) body = Inr method" "method \<in> M"
  shows "node_ok seen w url secret M (cl\<lparr>hc_client := snd (auth_call (pw_jwt w) (pw_net w) req (hc_client cl))\<rparr>)"
proof (cases rule: auth_call_net [of "pw_jwt w" "pw_net w" req "hc_client cl"])
  case (2 hv)
  then have "node_request (pw_lib w) (pw_jwt w) url secret M (insert_header AUTHORIZATION hv req)"
    using assms(2-6) by (auto simp: node_request_def node_ok_def insert_header_def secret_to_bearer_header_Inr)
  with assms(1,2) 2(2) show ?thesis by (auto simp: node_ok_def)
qed (use assms(2) in \<open>auto simp: node_ok_def\<close>)

lemma forward_node_ok:
  assumes "layers_ok (pw_layers w)" "\<And>req n. seen (snd (pw_net w req n)) = seen n @ [req]"
    and "node_ok seen w url secret M cl"
    and "pl_method (pw_lib w) (bq_body b) = Inr method" "method \<in> M"
  shows "node_ok seen w url secret M (snd (forward lib (pe_call (world_env w)) b m cl))"
proof -
  let ?req = "from_buffered_request (b\<lparr>bq_uri := hc_url cl\<rparr>)"
  let ?call = "auth_call (pw_jwt w) (pw_net w)"
  have url: "hc_url cl = url" using assms(3) by (simp add: node_ok_def)
  consider "snd (pw_layers w ?call ?req (hc_client cl)) = hc_client cl"
    | req' where "snd (pw_layers w ?call ?req (hc_client cl)) = snd (?call req' (hc_client cl))"
      "rq_uri req' = url" "rq_body req' = Inr (bq_body b)"
    using assms(1) [unfolded layers_ok_def, rule_format, of ?call ?req "hc_client cl"]
    by (auto simp: url from_buffered_request_def)
  then show ?thesis
  proof cases
    case 1
    with assms(3) show ?thesis by (simp add: forward_client world_env_def http_client_service_def node_ok_def)
  next
    case 2
    with auth_call_node_ok [OF assms(2,3) 2(2,3) assms(4,5)] show ?thesis
      by (simp add: forward_client world_env_def http_client_service_def)
  qed
qed

lemma proxy_inv_step:
  assumes "layers_ok (pw_layers w)" "\<And>req n. seen (snd (pw_net w req n)) = seen n @ [req]"
    and "proxy_step w s t" "proxy_inv seen w l2_url l2_secret b_url b_secret s"
  shows "proxy_inv seen w l2_url l2_secret b_url b_secret t"
  using assms(3)
proof cases
  case (proxy_request req)
  have lib: "pe_lib (world_env w) = pw_lib w" by (simp add: world_env_def)
  show ?thesis
  proof (cases "into_buffered_request req")
    case (Inr b)
    show ?thesis
    proof (cases "pl_method (pw_lib w) (bq_body b)")
      case mth: (Inr mt)
      show ?thesis
      proof (cases "starts_with mt ENGINE_METHOD")
        case False
        then have "node_ok seen w l2_url l2_secret (- engine_methods)
            (snd (forward (pw_lib w) (pe_call (world_env w)) b mt (px_l2_client s)))"
          using assms(4) mth
          by (intro forward_node_ok [OF assms(1,2)]) (auto simp: proxy_inv_def engine_methods_def)
        with assms(4) Inr mth False show ?thesis
          by (auto simp: proxy_request proxy_call_def lib proxy_inv_def Let_def split: prod.splits)
      qed (use assms(4) Inr mth in \<open>auto simp: proxy_request proxy_call_def lib proxy_inv_def split: prod.splits\<close>)
    qed (use assms(4) Inr in \<open>auto simp: proxy_request proxy_call_def lib\<close>)
  qed (use assms(4) in \<open>auto simp: proxy_request proxy_call_def\<close>)
next
  case proxy_detached
  show ?thesis
  proof (cases "px_spawned s")
    case (Cons bm rest)
    obtain b mt where bm: "bm = (b, mt)" by (cases bm)
    have "node_ok seen w b_url b_secret (set FORWARD_REQUESTS)
        (snd (forward (pw_lib w) (pe_call (world_env w)) b mt (px_builder_client s)))"
      using assms(4) Cons bm by (intro forward_node_ok [OF assms(1,2)]) (auto simp: proxy_inv_def)
    with assms(4) Cons bm show ?thesis
      by (auto simp: proxy_detached proxy_inv_def world_env_def)
  qed (use assms(4) in \<open>simp add: proxy_detached\<close>)
qed

text \<open>
  C18: the nodes see only what they should, with the right credentials. Whatever requests arrive at the proxy, in
  any order and with the detached ones run at any time: every request that reaches the L2 node is for its URI, is
  not an \<^verbatim>\<open>engine_\<close> request, and carries exactly one authorization, a token made with the L2 node's own secret,
  whatever the caller sent; every request that reaches the builder is for its URI, has one of the six forwarded
  methods, and carries a token made with the builder's secret. The layers of the client may drop a request or
  change the accepted encodings.
\<close>

theorem nodes_see_authenticated_requests:
  assumes "layers_ok (pw_layers w)" "\<And>req n. seen (snd (pw_net w req n)) = seen n @ [req]"
    and "seen n1 = []" "seen n2 = []"
    and "reach (\<lambda>s. s = proxy_new (http_client_new l2_url l2_secret n1) (http_client_new b_url b_secret n2) inner)
      (proxy_step w) s"
  shows "(\<forall>r \<in> set (seen (as_inner (hc_client (px_l2_client s)))).
       node_request (pw_lib w) (pw_jwt w) l2_url l2_secret {m. \<not> starts_with m ''engine_''} r) \<and>
    (\<forall>r \<in> set (seen (as_inner (hc_client (px_builder_client s)))).
       node_request (pw_lib w) (pw_jwt w) b_url b_secret
         {''eth_sendRawTransaction'', ''eth_sendRawTransactionConditional'', ''miner_setExtra'',
          ''miner_setGasPrice'', ''miner_setGasLimit'', ''miner_setMaxDASize''} r)"
proof -
  have "proxy_inv seen w l2_url l2_secret b_url b_secret s"
    using assms(5)
  proof (induction rule: reach.induct)
    case (reach_step s t)
    then show ?case using proxy_inv_step [OF assms(1,2)] by blast
  qed (use assms(3,4) in \<open>simp add: proxy_inv_def node_ok_def proxy_new_def http_client_new_def\<close>)
  moreover have "- engine_methods = {m. \<not> starts_with m ''engine_''}"
    by (auto simp: engine_methods_def ENGINE_METHOD_def)
  ultimately show ?thesis
    by (simp add: proxy_inv_def node_ok_def FORWARD_REQUESTS_def)
qed

text \<open>A network that records what it is sent, a clock, and an encoding that shows the secret and the time.\<close>

definition sample_jwt :: "http_parts http_request list jwt_lib" where
  "sample_jwt = \<lparr>jl_now = (\<lambda>n. Some (of_nat (length n))), jl_encode = (\<lambda>secret _. Inr secret), jl_parse = Some\<rparr>"

definition sample_world :: "(unit, http_parts http_request list, unit) proxy_world" where
  "sample_world =
     \<lparr>pw_lib = \<lparr>pl_method = (\<lambda>_. Inr ''miner_setExtra''), pl_error_code = (\<lambda>_. Inr None)\<rparr>,
      pw_layers = id, pw_jwt = sample_jwt,
      pw_net = (\<lambda>req n. (Inr \<lparr>rr_parts = (), rr_body = Inr []\<rparr>, n @ [req])),
      pw_inner = (\<lambda>_ i. (Inl ''none'', i))\<rparr>"

definition sample_forged :: "http_parts http_request" where
  "sample_forged =
     \<lparr>rq_uri = ''http://proxy'', rq_parts = \<lparr>hp_method = ''POST'', hp_headers = (\<lambda>_. [''Bearer forged''])\<rparr>,
      rq_body = Inr [1]\<rparr>"

definition sample_proxy :: "(http_parts, http_parts http_request list auth_service, unit) proxy_service" where
  "sample_proxy =
     proxy_run_spawned (world_env sample_world) (snd (proxy_call (world_env sample_world) sample_forged
       (proxy_new (http_client_new ''http://l2'' ''A'' []) (http_client_new ''http://builder'' ''B'' []) ())))"

theorem nodes_see_authenticated_requests_witness:
  "map (\<lambda>r. (rq_uri r, hp_headers (rq_parts r) ''authorization''))
     (as_inner (hc_client (px_l2_client sample_proxy))) = [(''http://l2'', [''Bearer A''])] \<and>
   map (\<lambda>r. (rq_uri r, hp_headers (rq_parts r) ''authorization''))
     (as_inner (hc_client (px_builder_client sample_proxy))) = [(''http://builder'', [''Bearer B''])]"
proof -
  have layers: "layers_ok (pw_layers sample_world)" by (auto simp: layers_ok_def sample_world_def)
  have log: "id (snd (pw_net sample_world req n)) = id n @ [req]" for req n by (simp add: sample_world_def)
  have "reach (\<lambda>s. s = proxy_new (http_client_new ''http://l2'' ''A'' []) (http_client_new ''http://builder'' ''B'' []) ())
      (proxy_step sample_world) sample_proxy"
    unfolding sample_proxy_def
    by (rule reach_step, rule reach_step, rule reach_init) (rule refl proxy_request proxy_detached)+
  note all = nodes_see_authenticated_requests [OF layers log _ _ this, simplified]
  have "length (as_inner (hc_client (px_l2_client sample_proxy))) = 1"
    "length (as_inner (hc_client (px_builder_client sample_proxy))) = 1"
    by code_simp+
  then obtain r1 r2 where "as_inner (hc_client (px_l2_client sample_proxy)) = [r1]"
    "as_inner (hc_client (px_builder_client sample_proxy)) = [r2]"
    by (auto simp: length_Suc_conv)
  with all show ?thesis
    by (auto simp: node_request_def sample_world_def sample_jwt_def AUTHORIZATION_def)
qed

end
