(* ===== verification/Telemetry.thy ===== *)
theory Telemetry
  imports Health
begin

text \<open>
  What the program tells its operator and lets him change: the span processor that turns finished spans into
  histograms (\<^verbatim>\<open>tracing.rs\<close>), the version gauge (\<^verbatim>\<open>version.rs\<close>), the metrics endpoint and the mode gauge
  (\<^verbatim>\<open>metrics.rs\<close>), the log format argument (\<^verbatim>\<open>cli.rs\<close>), and the debug API as it goes over the wire, with its client
  (\<^verbatim>\<open>debug_api.rs\<close>).

  A span is what the \<^verbatim>\<open>opentelemetry\<close> crate hands to \<^verbatim>\<open>on_end\<close>; an attribute's value is its text (\<^verbatim>\<open>Value::as_str\<close>).
  A histogram is given an integer here (a duration in nanoseconds); the code converts it to \<^verbatim>\<open>f64\<close> in the same place.
\<close>

section \<open>The span processor\<close>

definition SPAN_ATTRIBUTE_LABELS :: "string list" where
  "SPAN_ATTRIBUTE_LABELS = [''code'', ''payload_source'', ''method'', ''builder_has_payload'']"

datatype span_status = StatusOk | StatusError string | StatusUnset

datatype span_kind = KindClient | KindServer | KindProducer | KindConsumer | KindInternal

text \<open>The derived \<^verbatim>\<open>Debug\<close> of \<^verbatim>\<open>SpanKind\<close>.\<close>

fun span_kind_debug :: "span_kind \<Rightarrow> string" where
  "span_kind_debug KindClient = ''Client''"
| "span_kind_debug KindServer = ''Server''"
| "span_kind_debug KindProducer = ''Producer''"
| "span_kind_debug KindConsumer = ''Consumer''"
| "span_kind_debug KindInternal = ''Internal''"

text \<open>Times are nanoseconds of the system clock, which can go backwards.\<close>

record span_data =
  sd_name :: string
  sd_kind :: span_kind
  sd_status :: span_status
  sd_attributes :: "(string \<times> string) list"
  sd_start_time :: nat
  sd_end_time :: nat

record histogram_sample =
  hs_name :: string
  hs_labels :: "(string \<times> string) list"
  hs_value :: int

fun status_label :: "span_status \<Rightarrow> string" where
  "status_label StatusOk = ''ok''"
| "status_label (StatusError description) = ''error''"
| "status_label StatusUnset = ''unset''"

definition span_labels :: "span_data \<Rightarrow> (string \<times> string) list" where
  "span_labels span =
     filter (\<lambda>(key, _). key \<in> set SPAN_ATTRIBUTE_LABELS) (sd_attributes span) @
     [(''span_kind'', span_kind_debug (sd_kind span)), (''status'', status_label (sd_status span))]"

text \<open>\<^verbatim>\<open>str::parse::<i64>\<close>: an optional sign, then decimal digits, within the range of the type.\<close>

definition parse_i64 :: "string \<Rightarrow> int option" where
  "parse_i64 str =
     (let digits = (\<lambda>xs. if xs = [] then None else parse_digits 0 xs) in
      case str of
        [] \<Rightarrow> None
      | x # xs \<Rightarrow>
          if x = CHR ''-'' then
            (case digits xs of
               Some n \<Rightarrow> if n \<le> 2 ^ 63 then Some (- int n) else None
             | None \<Rightarrow> None)
          else
            (case digits (if x = CHR ''+'' then xs else str) of
               Some n \<Rightarrow> if n < 2 ^ 63 then Some (int n) else None
             | None \<Rightarrow> None))"

definition delta_sample :: "string \<Rightarrow> string \<Rightarrow> span_data \<Rightarrow> histogram_sample list" where
  "delta_sample key histogram span =
     (case List.find (\<lambda>(k, _). k = key) (sd_attributes span) of
        None \<Rightarrow> []
      | Some (_, delta) \<Rightarrow>
          [\<lparr>hs_name = histogram, hs_labels = span_labels span,
            hs_value = (case parse_i64 delta of Some d \<Rightarrow> d | None \<Rightarrow> 0)\<rparr>])"

definition on_end :: "span_data \<Rightarrow> histogram_sample list" where
  "on_end span =
     (let duration = sd_end_time span - sd_start_time span in
      delta_sample ''gas_delta'' ''block_building_gas_delta'' span @
      delta_sample ''tx_count_delta'' ''block_building_tx_count_delta'' span @
      [\<lparr>hs_name = sd_name span @ ''_duration'', hs_labels = span_labels span, hs_value = int duration\<rparr>])"

text \<open>
  The fields \<^verbatim>\<open>get_payload\<close> records on its span when it has both blocks: differences of \<^verbatim>\<open>i64\<close>, which wrap around
  in a release build, printed in decimal.
\<close>

definition i64_sub :: "u64 \<Rightarrow> u64 \<Rightarrow> int" where
  "i64_sub a b = sint (a - b)"

definition show_i64 :: "int \<Rightarrow> string" where
  "show_i64 z = (if z < 0 then CHR ''-'' # show_base 10 (nat (- z)) else show_base 10 (nat z))"

definition delta_fields ::
  "op_execution_payload_envelope \<Rightarrow> op_execution_payload_envelope \<Rightarrow> (string \<times> string) list" where
  "delta_fields builder_payload l2_payload =
     [(''gas_delta'', show_i64 (i64_sub (gas_used builder_payload) (gas_used l2_payload))),
      (''tx_count_delta'',
       show_i64 (i64_sub (of_nat (tx_count builder_payload)) (of_nat (tx_count l2_payload))))]"

section \<open>Version and metrics\<close>

record version_info =
  vi_version :: string
  vi_build_timestamp :: string
  vi_git_sha :: string

record gauge_sample =
  gs_name :: string
  gs_labels :: "(string \<times> string) list"
  gs_value :: nat

definition register_version_metrics :: "version_info \<Rightarrow> gauge_sample" where
  "register_version_metrics v =
     \<lparr>gs_name = ''builder_info'',
      gs_labels = [(''version'', vi_version v), (''build_timestamp'', vi_build_timestamp v),
                   (''git_sha'', vi_git_sha v)],
      gs_value = 1\<rparr>"

definition update_execution_mode_gauge :: "execution_mode \<Rightarrow> gauge_sample" where
  "update_execution_mode_gauge mode =
     \<lparr>gs_name = ''rollup_boost_execution_mode'', gs_labels = [], gs_value = to_metric_value mode\<rparr>"

definition metrics_response :: "string \<Rightarrow> string \<Rightarrow> http_response" where
  "metrics_response rendered path =
     (if path = ''/metrics'' then \<lparr>resp_status = 200, resp_body = rendered\<rparr>
      else \<lparr>resp_status = 404, resp_body = ''''\<rparr>)"

text \<open>
  The accepting loop of the metrics server: every accepted connection gets a task of its own, an error of
  \<^verbatim>\<open>accept\<close> is logged, and the loop goes on.
\<close>

fun metrics_server_loop :: "(string + 'stream) list \<Rightarrow> 'stream list" where
  "metrics_server_loop [] = []"
| "metrics_server_loop (Inr stream # rest) = stream # metrics_server_loop rest"
| "metrics_server_loop (Inl e # rest) = metrics_server_loop rest"

section \<open>The log format\<close>

text \<open>No letter outside ASCII has a lower case in either word, so that lowering the ASCII letters decides the match.\<close>

datatype log_format = LogJson | LogText

definition to_lowercase :: "string \<Rightarrow> string" where
  "to_lowercase = map (\<lambda>ch. let n = of_char ch :: nat in if 65 \<le> n \<and> n \<le> 90 then char_of (n + 32) else ch)"

definition log_format_from_str :: "string \<Rightarrow> string + log_format" where
  "log_format_from_str s =
     (if to_lowercase s = ''json'' then Inr LogJson
      else if to_lowercase s = ''text'' then Inr LogText
      else Inl ''Invalid log format'')"

section \<open>The debug API on the wire\<close>

text \<open>The \<^verbatim>\<open>serde\<close> names of the modes and the one-field structs of requests and responses.\<close>

fun mode_name :: "execution_mode \<Rightarrow> string" where
  "mode_name Enabled = ''enabled''"
| "mode_name DryRun = ''dry_run''"
| "mode_name Disabled = ''disabled''"

definition mode_of_name :: "string \<Rightarrow> execution_mode option" where
  "mode_of_name s = List.find (\<lambda>m. mode_name m = s) [Enabled, DryRun, Disabled]"

definition mode_struct_to_json :: "execution_mode \<Rightarrow> json" where
  "mode_struct_to_json mode = JObject [(''execution_mode'', JString (mode_name mode))]"

text \<open>
  Derived deserialisation takes an object, in which other members are ignored and a repeated one is an error, or an
  array of the fields in order.
\<close>

definition mode_of_json :: "json \<Rightarrow> execution_mode option" where
  "mode_of_json j = (case j of JString s \<Rightarrow> mode_of_name s | _ \<Rightarrow> None)"

definition mode_struct_of_json :: "json \<Rightarrow> execution_mode option" where
  "mode_struct_of_json j =
     (case j of
        JObject members \<Rightarrow>
          (case filter (\<lambda>(k, _). k = ''execution_mode'') members of
             [(_, v)] \<Rightarrow> mode_of_json v
           | _ \<Rightarrow> None)
      | JArray [v] \<Rightarrow> mode_of_json v
      | _ \<Rightarrow> None)"

datatype debug_error = MethodNotFound | InvalidParams | BadResponse | CallFailed string

text \<open>
  \<^verbatim>\<open>DebugApi\<close> as the RPC module serves it: the namespace and the method make the name, parameters are positional.
\<close>

definition debug_dispatch :: "string \<Rightarrow> json list \<Rightarrow> debug_server \<Rightarrow> (debug_error + json) \<times> debug_server" where
  "debug_dispatch name params d =
     (if name = ''debug_setExecutionMode'' then
        (case params of
           [] \<Rightarrow> (Inl InvalidParams, d)
         | request # _ \<Rightarrow>
             (case mode_struct_of_json request of
                None \<Rightarrow> (Inl InvalidParams, d)
              | Some mode \<Rightarrow>
                  (let (m, d1) = debug_rpc_set_execution_mode mode d
                   in (Inr (mode_struct_to_json m), d1))))
      else if name = ''debug_getExecutionMode'' then
        (Inr (mode_struct_to_json (debug_rpc_get_execution_mode d)), d)
      else (Inl MethodNotFound, d))"

text \<open>\<^verbatim>\<open>DebugServer::run\<close>: once the address is bound, the gauge shows the current mode.\<close>

definition debug_server_run :: "string + unit \<Rightarrow> debug_server \<Rightarrow> string + debug_server" where
  "debug_server_run bound d =
     (case bound of
        Inl e \<Rightarrow> Inl e
      | Inr _ \<Rightarrow> Inr (d\<lparr>ds_gauge := gs_value (update_execution_mode_gauge (debug_execution_mode d))\<rparr>))"

text \<open>\<^verbatim>\<open>DebugClient\<close> over a JSON-RPC transport.\<close>

type_synonym 'd debug_transport = "string \<Rightarrow> json list \<Rightarrow> 'd \<Rightarrow> (debug_error + json) \<times> 'd"

definition debug_reply :: "debug_error + json \<Rightarrow> debug_error + execution_mode" where
  "debug_reply r =
     (case r of
        Inl e \<Rightarrow> Inl e
      | Inr j \<Rightarrow> (case mode_struct_of_json j of Some m \<Rightarrow> Inr m | None \<Rightarrow> Inl BadResponse))"

definition client_set_execution_mode ::
  "'d debug_transport \<Rightarrow> execution_mode \<Rightarrow> 'd \<Rightarrow> (debug_error + execution_mode) \<times> 'd" where
  "client_set_execution_mode call mode d =
     apfst debug_reply (call ''debug_setExecutionMode'' [mode_struct_to_json mode] d)"

definition client_get_execution_mode ::
  "'d debug_transport \<Rightarrow> 'd \<Rightarrow> (debug_error + execution_mode) \<times> 'd" where
  "client_get_execution_mode call d = apfst debug_reply (call ''debug_getExecutionMode'' [] d)"

section \<open>Labels and values\<close>

lemma find_append: "List.find P (xs @ ys) = (case List.find P xs of None \<Rightarrow> List.find P ys | Some x \<Rightarrow> Some x)"
  by (induction xs) auto

lemma hd_show_base_digit:
  assumes "c \<in> {CHR ''+'', CHR ''-''}"
  shows "hd (show_base 10 n) \<noteq> c"
proof
  assume "hd (show_base 10 n) = c"
  then obtain d where "d < 10" "c = digit_char d" using hd_show_base [of 10 n] by auto
  then have "digit_value c = Some d" by (simp add: digit_value_digit_char)
  with assms show False by (auto simp: digit_value_def)
qed

lemma parse_i64_show:
  assumes "- (2 ^ 63) \<le> z" "z < 2 ^ 63"
  shows "parse_i64 (show_i64 z) = Some z"
proof (cases "z < 0")
  case True
  then have "nat (- z) \<le> 2 ^ 63" "nat (- z) < 2 ^ 64" using assms by simp_all
  with True show ?thesis by (simp add: parse_i64_def show_i64_def parse_digits_show)
next
  case False
  then have n: "nat z < 2 ^ 63" "nat z < 2 ^ 64" using assms by (simp_all add: nat_less_iff)
  obtain x xs where s: "show_base 10 (nat z) = x # xs" by (cases "show_base 10 (nat z)") auto
  have "x \<noteq> CHR ''-''" "x \<noteq> CHR ''+''" using hd_show_base_digit [of _ "nat z"] s by auto
  with False n s parse_digits_show [of "nat z"] show ?thesis by (simp add: parse_i64_def show_i64_def)
qed

lemma sint_word_range: "- (2 ^ 63) \<le> sint (w :: 64 word) \<and> sint w < 2 ^ 63"
  using sint_range_size [of w] by (simp add: word_size)

lemma i64_sub_exact:
  assumes "unat a < 2 ^ 63" "unat b < 2 ^ 63"
  shows "i64_sub a b = int (unat a) - int (unat b)"
proof -
  have ab: "a - b = word_of_int (uint a - uint b)" by (simp add: wi_hom_syms)
  have u: "uint a = int (unat a)" "uint b = int (unat b)" by simp_all
  have "signed_take_bit 63 (uint a - uint b) = uint a - uint b"
  proof (rule signed_take_bit_int_eq_self)
    have "int (unat a) < 2 ^ 63" "int (unat b) < 2 ^ 63"
      using assms by (metis of_nat_less_iff of_nat_numeral of_nat_power)+
    then show "- (2 ^ 63) \<le> uint a - uint b" "uint a - uint b < 2 ^ 63" unfolding u by linarith+
  qed
  moreover have "sint (word_of_int k :: u64) = signed_take_bit 63 k" for k by (simp add: signed_of_int)
  ultimately show ?thesis unfolding i64_sub_def ab u by metis
qed

lemma delta_sample_own:
  assumes "\<And>k v. (k, v) \<in> set xs \<Longrightarrow> k \<noteq> key" "sd_attributes span = xs @ (key, show_i64 z) # ys"
    "- (2 ^ 63) \<le> z" "z < 2 ^ 63"
  shows "delta_sample key histogram span = [\<lparr>hs_name = histogram, hs_labels = span_labels span, hs_value = z\<rparr>]"
proof -
  have "List.find (\<lambda>(k, _). k = key) xs = None" using assms(1) by (auto simp: find_None_iff)
  then show ?thesis
    using assms(2) parse_i64_show [OF assms(3,4)] by (simp add: delta_sample_def find_append)
qed


definition sample_span :: span_data where
  "sample_span =
     \<lparr>sd_name = ''get_payload_v3'', sd_kind = KindServer, sd_status = StatusUnset,
      sd_attributes = [(''payload_source'', ''builder'')] @
        delta_fields (sample_env 50 9 [[1]]) (sample_env 100 8 []) @ [],
      sd_start_time = 5, sd_end_time = 12\<rparr>"


lemma on_end_cong:
  assumes "sd_name a = sd_name b" "span_labels a = span_labels b" "sd_start_time a = sd_start_time b"
    "sd_end_time a = sd_end_time b"
    and "\<And>key. key \<in> {''gas_delta'', ''tx_count_delta''} \<Longrightarrow>
      List.find (\<lambda>(k, _). k = key) (sd_attributes a) = List.find (\<lambda>(k, _). k = key) (sd_attributes b)"
  shows "on_end a = on_end b"
proof -
  have "delta_sample key histogram a = delta_sample key histogram b" if "key \<in> {''gas_delta'', ''tx_count_delta''}"
    for key histogram
    unfolding delta_sample_def assms(2) assms(5) [OF that] ..
  then show ?thesis using assms(1-4) by (simp add: on_end_def)
qed

text \<open>
  C40: the labels of the metrics are of a fixed kind. Whatever attributes a span has, its samples only carry the four
  chosen attributes and the kind and status of the span as labels; the status is one of three words, so that the
  text of an error never becomes a label; and attributes other than the four and the two differences have no
  influence on any sample.
\<close>

theorem metric_labels_are_bounded:
  "(\<Union>h \<in> set (on_end span). fst ` set (hs_labels h)) \<subseteq>
     {''code'', ''payload_source'', ''method'', ''builder_has_payload'', ''span_kind'', ''status''} \<and>
   (\<exists>status. status \<in> {''ok'', ''error'', ''unset''} \<and> (\<lambda>h. last (hs_labels h)) ` set (on_end span) = {(''status'', status)}) \<and>
   on_end (span\<lparr>sd_status := StatusError description\<rparr>) = on_end (span\<lparr>sd_status := StatusError description'\<rparr>) \<and>
   on_end (span\<lparr>sd_attributes :=
     filter (\<lambda>(k, _). k \<in> set SPAN_ATTRIBUTE_LABELS \<union> {''gas_delta'', ''tx_count_delta''}) (sd_attributes span)\<rparr>) =
     on_end span"
proof (intro conjI)
  have labels: "h \<in> set (on_end span) \<Longrightarrow> hs_labels h = span_labels span" for h
    by (auto simp: on_end_def delta_sample_def Let_def split: option.splits)
  then show "(\<Union>h \<in> set (on_end span). fst ` set (hs_labels h)) \<subseteq>
     {''code'', ''payload_source'', ''method'', ''builder_has_payload'', ''span_kind'', ''status''}"
    by (auto simp: span_labels_def SPAN_ATTRIBUTE_LABELS_def)
  have "(\<lambda>h. last (hs_labels h)) ` set (on_end span) = {(''status'', status_label (sd_status span))}"
    using labels by (auto simp: span_labels_def on_end_def Let_def)
  moreover have "status_label (sd_status span) \<in> {''ok'', ''error'', ''unset''}"
    by (cases "sd_status span") simp_all
  ultimately show "\<exists>status. status \<in> {''ok'', ''error'', ''unset''} \<and>
      (\<lambda>h. last (hs_labels h)) ` set (on_end span) = {(''status'', status)}"
    by blast
  show "on_end (span\<lparr>sd_status := StatusError description\<rparr>) = on_end (span\<lparr>sd_status := StatusError description'\<rparr>)"
    by (rule on_end_cong) (simp_all add: span_labels_def)
  let ?keep = "\<lambda>(k :: string, _ :: string). k \<in> set SPAN_ATTRIBUTE_LABELS \<union> {''gas_delta'', ''tx_count_delta''}"
  have "filter (\<lambda>(k, _). k \<in> set SPAN_ATTRIBUTE_LABELS) (filter ?keep as) =
      filter (\<lambda>(k, _). k \<in> set SPAN_ATTRIBUTE_LABELS) as" for as
    by (induction as) auto
  moreover have "List.find (\<lambda>(k, _). k = key) (filter ?keep as) = List.find (\<lambda>(k, _). k = key) as"
    if "key \<in> {''gas_delta'', ''tx_count_delta''}" for as and key :: string
    using that by (induction as) auto
  ultimately show "on_end (span\<lparr>sd_attributes := filter ?keep (sd_attributes span)\<rparr>) = on_end span"
    by (intro on_end_cong) (simp_all add: span_labels_def)
qed

section \<open>The debug client\<close>

lemma mode_of_json_name [simp]: "mode_of_json (JString (mode_name m)) = Some m"
  by (cases m) (simp_all add: mode_of_json_def mode_of_name_def)

lemma mode_struct_roundtrip [simp]: "mode_struct_of_json (mode_struct_to_json m) = Some m"
  by (simp add: mode_struct_of_json_def mode_struct_to_json_def)

text \<open>
  The debug client controls the mode: through the wire format of both directions, setting a mode answers with
  this mode and changes the mode and the gauge of the server to it, and reading it then gives it back.
\<close>

theorem debug_client_controls_the_mode:
  "\<exists>d1. client_set_execution_mode debug_dispatch mode d = (Inr mode, d1) \<and>
     debug_execution_mode d1 = mode \<and> ds_gauge d1 = to_metric_value mode \<and>
     client_get_execution_mode debug_dispatch d1 = (Inr mode, d1)"
  by (simp add: client_set_execution_mode_def client_get_execution_mode_def debug_dispatch_def debug_reply_def
      debug_rpc_set_execution_mode_def debug_rpc_get_execution_mode_def debug_set_execution_mode_def
      debug_execution_mode_def)

text \<open>What is not understood changes nothing, and the gauge of a started debug server always shows the mode.\<close>

lemma debug_dispatch_gauge:
  assumes "ds_gauge d = to_metric_value (ds_execution_mode d)"
  shows "ds_gauge (snd (debug_dispatch name params d)) =
      to_metric_value (ds_execution_mode (snd (debug_dispatch name params d)))"
    and "isl (fst (debug_dispatch name params d)) \<Longrightarrow> snd (debug_dispatch name params d) = d"
  using assms
  by (auto simp: debug_dispatch_def debug_rpc_set_execution_mode_def debug_set_execution_mode_def
      split: list.splits option.splits)

lemma debug_server_run_gauge:
  "debug_server_run bound d = Inr d1 \<Longrightarrow>
     ds_execution_mode d1 = ds_execution_mode d \<and> ds_gauge d1 = to_metric_value (ds_execution_mode d1)"
  by (auto simp: debug_server_run_def update_execution_mode_gauge_def debug_execution_mode_def split: sum.splits)

interpretation debug: invariant_system
  "\<lambda>d. \<exists>d0. debug_server_run (Inr ()) d0 = Inr d"
  "\<lambda>d d'. \<exists>name params. d' = snd (debug_dispatch name params d)"
  "\<lambda>d. ds_gauge d = to_metric_value (ds_execution_mode d)"
  by unfold_locales (auto dest: debug_server_run_gauge intro: debug_dispatch_gauge)

end
