(* ===== verification/Service.thy ===== *)
theory Service
  imports Server Fb_Pipeline Auth_Client Telemetry
begin

text \<open>
  Starting the program: \<^verbatim>\<open>RollupBoostServiceArgs::run\<close> (\<^verbatim>\<open>cli.rs\<close>) with the two constructors
  \<^verbatim>\<open>new_from_args\<close> of the server (\<^verbatim>\<open>server.rs\<close>), the client constructors (\<^verbatim>\<open>client/rpc.rs\<close>) and
  \<^verbatim>\<open>Flashblocks::run\<close> (\<^verbatim>\<open>flashblocks/launcher.rs\<close>).

  What the start asks of the operating system and of other crates is the record \<open>startup_lib\<close>; every step of it
  can fail. \<open>and_then\<close> is the \<^verbatim>\<open>?\<close> operator. \<open>rollup_boost_main\<close> is \<^verbatim>\<open>main\<close> (\<^verbatim>\<open>bin/main.rs\<close>) after the command line has
  been parsed: the logging and tracing set-up (\<^verbatim>\<open>tracing.rs\<close>), then \<^verbatim>\<open>run\<close>; \<open>service_stop\<close> is what ends it.
\<close>

section \<open>Arguments\<close>

record flashblocks_args =
  fa_flashblocks :: bool
  fa_builder_url :: string
  fa_host :: string
  fa_port :: "16 word"
  fa_ws_config :: ws_config

record lib_args =
  la_builder :: client_args
  la_l2_client :: client_args
  la_execution_mode :: execution_mode
  la_block_selection_policy :: "block_selection_policy option"
  la_external_state_root :: bool
  la_ignore_unhealthy_builders :: bool
  la_flashblocks :: flashblocks_args
  la_health_check_interval :: u64
  la_max_unsafe_interval :: u64

datatype log_level = LvlOff | LvlError | LvlWarn | LvlInfo | LvlDebug | LvlTrace

record service_args =
  sa_lib :: lib_args
  sa_rpc_host :: string
  sa_rpc_port :: "16 word"
  sa_tracing :: bool
  sa_otlp_endpoint :: string
  sa_log_level :: log_level
  sa_log_format :: log_format
  sa_log_file :: "string option"
  sa_metrics :: bool
  sa_metrics_host :: string
  sa_metrics_port :: "16 word"
  sa_debug_host :: string
  sa_debug_server_port :: "16 word"

datatype startup_error =
    SuLogFile string
  | SuExporter string
  | SuSubscriber string
  | SuMetrics string
  | SuSecret client_args_error
  | SuClient string
  | SuPanic
  | SuFlashblocksDisabled
  | SuFlashblocksEnabled
  | SuHost string
  | SuPublisher string
  | SuDebug string
  | SuRegister string
  | SuAddress string
  | SuServer string
  | SuSignal string

text \<open>
  \<open>su_version\<close> and \<open>su_git_sha\<close> come from the build, \<open>su_header_value\<close> parses a header value and \<open>su_http_build\<close> is
  the JSON-RPC client builder: the secret of the authentication layer, the headers, the timeout in milliseconds and
  the URL. The others bind sockets, parse addresses, register methods and install handlers, or say why not.
\<close>

record 'h startup_lib =
  su_open_log :: "string \<Rightarrow> string + unit"
  su_otlp_exporter :: "string \<Rightarrow> string + unit"
  su_set_global_default :: "string + unit"
  su_install_metrics :: "string \<Rightarrow> string + unit"
  su_jwt_from_file :: "string \<Rightarrow> string + string"
  su_version :: string
  su_git_sha :: string
  su_header_value :: "string \<Rightarrow> string option"
  su_http_build :: "string \<Rightarrow> (string \<times> string) list \<Rightarrow> nat \<Rightarrow> string \<Rightarrow> string + 'h"
  su_parse_ip :: "string \<Rightarrow> string + string"
  su_bind_publisher :: "string \<Rightarrow> 16 word \<Rightarrow> string + unit"
  su_debug_server :: "string \<Rightarrow> string + unit"
  su_register_methods :: "string + unit"
  su_parse_address :: "string \<Rightarrow> string + string"
  su_rpc_server :: "string \<Rightarrow> string + unit"
  su_signals :: "string + unit"

definition and_then :: "'e + 'a \<Rightarrow> ('a \<Rightarrow> 'e + 'b) \<Rightarrow> 'e + 'b" where
  "and_then r f = (case r of Inl e \<Rightarrow> Inl e | Inr a \<Rightarrow> f a)"

definition map_err :: "('e \<Rightarrow> 'f) \<Rightarrow> 'e + 'a \<Rightarrow> 'f + 'a" where
  "map_err g r = (case r of Inl e \<Rightarrow> Inl (g e) | Inr a \<Rightarrow> Inr a)"

definition host_port :: "string \<Rightarrow> 16 word \<Rightarrow> string" where
  "host_port host port = host @ '':'' @ show_base 10 (unat port)"

section \<open>Clients\<close>

definition client_secret :: "'h startup_lib \<Rightarrow> client_args \<Rightarrow> startup_error + string" where
  "client_secret su args = map_err SuSecret (get_auth_jwt (su_jwt_from_file su) args)"

record 'h rpc_client =
  rcl_auth_client :: 'h
  rcl_auth_rpc :: string
  rcl_payload_source :: payload_source

definition rpc_client_new ::
  "'h startup_lib \<Rightarrow> string \<Rightarrow> string \<Rightarrow> u64 \<Rightarrow> payload_source \<Rightarrow> startup_error + 'h rpc_client" where
  "rpc_client_new su auth_rpc auth_rpc_jwt_secret timeout payload_source =
     (case su_header_value su (su_version su @ ''-'' @ su_git_sha su) of
        None \<Rightarrow> Inl SuPanic
      | Some version \<Rightarrow>
          and_then (map_err SuClient
            (su_http_build su auth_rpc_jwt_secret [(''User-Agent'', version)] (unat timeout) auth_rpc)) (\<lambda>auth_client.
          Inr \<lparr>rcl_auth_client = auth_client, rcl_auth_rpc = auth_rpc, rcl_payload_source = payload_source\<rparr>))"

definition new_rpc_client ::
  "'h startup_lib \<Rightarrow> payload_source \<Rightarrow> client_args \<Rightarrow> startup_error + 'h rpc_client" where
  "new_rpc_client su payload_source args =
     and_then (client_secret su args) (\<lambda>secret.
     rpc_client_new su (ca_url args) secret (ca_timeout args) payload_source)"

definition new_http_client ::
  "'h startup_lib \<Rightarrow> client_args \<Rightarrow> 'n \<Rightarrow> startup_error + 'n auth_service http_client" where
  "new_http_client su args n =
     and_then (client_secret su args) (\<lambda>secret. Inr (http_client_new (ca_url args) secret n))"

section \<open>Servers\<close>

text \<open>\<^verbatim>\<open>Flashblocks::run\<close>: only binding the publisher's address can fail.\<close>

definition flashblocks_launch ::
  "'h startup_lib \<Rightarrow> 'h rpc_client \<Rightarrow> string \<Rightarrow> 16 word \<Rightarrow> ws_config \<Rightarrow> startup_error + ('c, 'h rpc_client) fb_pipeline" where
  "flashblocks_launch su builder_client ip port config =
     and_then (map_err SuPublisher (su_bind_publisher su ip port)) (\<lambda>_.
     Inr (flashblocks_run config builder_client))"

definition fb_server_from_args ::
  "'h startup_lib \<Rightarrow> lib_args \<Rightarrow> probes
     \<Rightarrow> startup_error + ('h rpc_client, 'h rpc_client flashblocks_service) rollup_boost_server \<times> ('c, 'h rpc_client) fb_pipeline" where
  "fb_server_from_args su args probes =
     (if \<not> fa_flashblocks (la_flashblocks args) then Inl SuFlashblocksDisabled
      else
        and_then (new_rpc_client su L2 (la_l2_client args)) (\<lambda>l2_client.
        and_then (new_rpc_client su Builder (la_builder args)) (\<lambda>builder_client.
        and_then (map_err SuHost (su_parse_ip su (fa_host (la_flashblocks args)))) (\<lambda>ip.
        and_then (flashblocks_launch su builder_client ip (fa_port (la_flashblocks args))
                    (fa_ws_config (la_flashblocks args))) (\<lambda>pipeline.
        Inr (rollup_boost_server_new l2_client (fp_service pipeline) (la_execution_mode args)
               (la_block_selection_policy args) probes (la_external_state_root args)
               (la_ignore_unhealthy_builders args), pipeline))))))"

definition rpc_server_from_args ::
  "'h startup_lib \<Rightarrow> lib_args \<Rightarrow> probes \<Rightarrow> startup_error + ('h rpc_client, 'h rpc_client) rollup_boost_server" where
  "rpc_server_from_args su args probes =
     (if fa_flashblocks (la_flashblocks args) then Inl SuFlashblocksEnabled
      else
        and_then (new_rpc_client su L2 (la_l2_client args)) (\<lambda>l2_client.
        and_then (new_rpc_client su Builder (la_builder args)) (\<lambda>builder_client.
        Inr (rollup_boost_server_new l2_client builder_client (la_execution_mode args)
               (la_block_selection_policy args) probes (la_external_state_root args)
               (la_ignore_unhealthy_builders args)))))"

section \<open>Run\<close>

datatype ('h, 'c) running_server =
    RpcServer "('h rpc_client, 'h rpc_client) rollup_boost_server"
  | FbServer "('h rpc_client, 'h rpc_client flashblocks_service) rollup_boost_server" "('c, 'h rpc_client) fb_pipeline"

record ('h, 'c, 'n) running_service =
  rs_server :: "('h, 'c) running_server"
  rs_proxy :: "(http_parts, 'n auth_service, unit) proxy_service"
  rs_probes :: probes
  rs_address :: string

definition init_metrics :: "'h startup_lib \<Rightarrow> service_args \<Rightarrow> startup_error + unit" where
  "init_metrics su args =
     (if sa_metrics args
      then map_err SuMetrics (su_install_metrics su (host_port (sa_metrics_host args) (sa_metrics_port args)))
      else Inr ())"

definition start_server ::
  "'h startup_lib \<Rightarrow> service_args \<Rightarrow> probes \<Rightarrow> startup_error + ('h, 'c) running_server" where
  "start_server su args probes =
     (let serve = (\<lambda>server.
        and_then (map_err SuDebug (su_debug_server su (host_port (sa_debug_host args) (sa_debug_server_port args)))) (\<lambda>_.
        and_then (map_err SuRegister (su_register_methods su)) (\<lambda>_. Inr server)))
      in if fa_flashblocks (la_flashblocks (sa_lib args))
         then and_then (fb_server_from_args su (sa_lib args) probes) (\<lambda>(s, p). serve (FbServer s p))
         else and_then (rpc_server_from_args su (sa_lib args) probes) (\<lambda>s. serve (RpcServer s)))"

definition service_start ::
  "'h startup_lib \<Rightarrow> service_args \<Rightarrow> 'n \<Rightarrow> 'n \<Rightarrow> startup_error + ('h, 'c, 'n) running_service" where
  "service_start su args n1 n2 =
     and_then (init_metrics su args) (\<lambda>_.
     and_then (new_http_client su (la_l2_client (sa_lib args)) n1) (\<lambda>l2_http_client.
     and_then (new_http_client su (la_builder (sa_lib args)) n2) (\<lambda>builder_http_client.
     (let probes = probes_default in
     and_then (start_server su args probes) (\<lambda>server.
     and_then (map_err SuAddress (su_parse_address su (host_port (sa_rpc_host args) (sa_rpc_port args)))) (\<lambda>address.
     and_then (map_err SuServer (su_rpc_server su address)) (\<lambda>_.
     and_then (map_err SuSignal (su_signals su)) (\<lambda>_.
     Inr \<lparr>rs_server = server, rs_proxy = proxy_new l2_http_client builder_http_client (), rs_probes = probes,
          rs_address = address\<rparr>))))))))"

section \<open>Logging and main\<close>

text \<open>
  A \<^verbatim>\<open>Targets\<close> filter: a level for the targets of this crate and one for all others. An event is let through when it
  is at most as detailed as the level.
\<close>

record targets =
  tg_default :: log_level
  tg_rollup_boost :: log_level

datatype log_writer = Stdout | AppendFile string

record tracing_setup =
  ts_global_filter :: targets
  ts_log_filter :: targets
  ts_writer :: log_writer
  ts_log_format :: log_format
  ts_otlp_endpoint :: "string option"
  ts_trace_filter :: targets
  ts_span_metrics :: bool

fun detail :: "log_level \<Rightarrow> nat" where
  "detail LvlOff = 0"
| "detail LvlError = 1"
| "detail LvlWarn = 2"
| "detail LvlInfo = 3"
| "detail LvlDebug = 4"
| "detail LvlTrace = 5"

definition lets_through :: "targets \<Rightarrow> string \<Rightarrow> log_level \<Rightarrow> bool" where
  "lets_through f target level \<longleftrightarrow>
     detail level \<le> detail (if starts_with target ''rollup_boost'' then tg_rollup_boost f else tg_default f)"

definition init_tracing :: "'h startup_lib \<Rightarrow> service_args \<Rightarrow> startup_error + tracing_setup" where
  "init_tracing su args =
     and_then
       (case sa_log_file args of
          Some path \<Rightarrow> and_then (map_err SuLogFile (su_open_log su path)) (\<lambda>_. Inr (AppendFile path))
        | None \<Rightarrow> Inr Stdout) (\<lambda>writer.
     and_then
       (if sa_tracing args
        then and_then (map_err SuExporter (su_otlp_exporter su (sa_otlp_endpoint args)))
               (\<lambda>_. Inr (Some (sa_otlp_endpoint args)))
        else Inr None) (\<lambda>otlp.
     and_then (map_err SuSubscriber (su_set_global_default su)) (\<lambda>_.
     Inr \<lparr>ts_global_filter = \<lparr>tg_default = LvlInfo, tg_rollup_boost = LvlTrace\<rparr>,
          ts_log_filter = \<lparr>tg_default = LvlInfo, tg_rollup_boost = sa_log_level args\<rparr>,
          ts_writer = writer, ts_log_format = sa_log_format args, ts_otlp_endpoint = otlp,
          ts_trace_filter = \<lparr>tg_default = LvlOff, tg_rollup_boost = LvlTrace\<rparr>,
          ts_span_metrics = sa_tracing args \<and> sa_metrics args\<rparr>)))"

text \<open>What is written to the log, and the samples that a finished span leaves in the metrics.\<close>

definition logged :: "tracing_setup \<Rightarrow> string \<Rightarrow> log_level \<Rightarrow> bool" where
  "logged ts target level \<longleftrightarrow>
     lets_through (ts_global_filter ts) target level \<and> lets_through (ts_log_filter ts) target level"

definition span_samples :: "tracing_setup \<Rightarrow> span_data \<Rightarrow> histogram_sample list" where
  "span_samples ts span = (if ts_span_metrics ts then on_end span else [])"

definition rollup_boost_main ::
  "'h startup_lib \<Rightarrow> service_args \<Rightarrow> 'n \<Rightarrow> 'n \<Rightarrow> startup_error + tracing_setup \<times> ('h, 'c, 'n) running_service" where
  "rollup_boost_main su args n1 n2 =
     and_then (init_tracing su args) (\<lambda>ts.
     and_then (service_start su args n1 n2) (\<lambda>s. Inr (ts, s)))"

text \<open>The \<^verbatim>\<open>select!\<close> at the end of \<^verbatim>\<open>run\<close>: the result says whether the RPC server is told to stop.\<close>

datatype run_event = ServerStopped | HealthTaskStopped | SigInt | SigTerm

fun service_stop :: "run_event \<Rightarrow> bool" where
  "service_stop ServerStopped = False"
| "service_stop HealthTaskStopped = False"
| "service_stop SigInt = True"
| "service_stop SigTerm = True"

section \<open>Lemmas\<close>

lemma and_then_Inr [simp]: "and_then r f = Inr b \<longleftrightarrow> (\<exists>a. r = Inr a \<and> f a = Inr b)"
  by (simp add: and_then_def split: sum.split)

lemma and_then_Inl [simp]: "and_then r f = Inl e \<longleftrightarrow> r = Inl e \<or> (\<exists>a. r = Inr a \<and> f a = Inl e)"
  by (simp add: and_then_def split: sum.split)

lemma map_err_Inr [simp]: "map_err g r = Inr b \<longleftrightarrow> r = Inr b"
  by (simp add: map_err_def split: sum.split)

lemma map_err_Inl [simp]: "map_err g r = Inl e \<longleftrightarrow> (\<exists>d. r = Inl d \<and> e = g d)"
  by (auto simp: map_err_def split: sum.split)

lemmas start_defs =
  service_start_def start_server_def init_metrics_def rpc_server_from_args_def fb_server_from_args_def
  flashblocks_launch_def new_rpc_client_def new_http_client_def client_secret_def

text \<open>
  The log: events of this crate up to the configured level, and of other crates up to \<^verbatim>\<open>info\<close> whatever the level.
  Spans only leave samples in the metrics when tracing is on as well.
\<close>

lemma init_tracing_logged:
  "init_tracing su args = Inr ts \<Longrightarrow>
     logged ts target level \<longleftrightarrow>
       detail level \<le> detail (if starts_with target ''rollup_boost'' then sa_log_level args else LvlInfo)"
  by (cases "sa_log_level args")
    (auto simp: init_tracing_def logged_def lets_through_def split: option.splits if_splits)

lemma span_samples_need_tracing:
  "init_tracing su args = Inr ts \<Longrightarrow>
     span_samples ts span = (if sa_tracing args \<and> sa_metrics args then on_end span else [])"
  by (auto simp: init_tracing_def span_samples_def)

text \<open>
  C38: the service runs as configured. The start never fails on the guards of the two server constructors. When it
  succeeds, both nodes have a secret; the HTTP and the JSON-RPC client of each node are built from that
  node's own URL and secret; the server is the flashblocks server exactly when flashblocks are enabled, in its
  initial state with the configured mode, policy and options and a healthy probe, so that what holds of every
  state reachable from there holds of the running service; and with flashblocks the builder behind the server is
  the service of the freshly launched pipeline. Without a secret for one of the nodes it does not start.
\<close>

theorem service_starts_as_configured:
  assumes "service_start su args n1 n2 = r"
  shows "r \<noteq> Inl SuFlashblocksDisabled \<and> r \<noteq> Inl SuFlashblocksEnabled \<and>
    (\<forall>c \<in> {la_l2_client (sa_lib args), la_builder (sa_lib args)}.
       ca_jwt_token c = None \<longrightarrow> ca_jwt_path c = None \<longrightarrow> isl r) \<and>
    (\<forall>s. r = Inr s \<longrightarrow>
      (\<exists>l2_secret b_secret l2 b. let la = sa_lib args in
         get_auth_jwt (su_jwt_from_file su) (la_l2_client la) = Inr l2_secret \<and>
         get_auth_jwt (su_jwt_from_file su) (la_builder la) = Inr b_secret \<and>
         rpc_client_new su (ca_url (la_l2_client la)) l2_secret (ca_timeout (la_l2_client la)) L2 = Inr l2 \<and>
         rpc_client_new su (ca_url (la_builder la)) b_secret (ca_timeout (la_builder la)) Builder = Inr b \<and>
         rs_proxy s = proxy_new (http_client_new (ca_url (la_l2_client la)) l2_secret n1)
           (http_client_new (ca_url (la_builder la)) b_secret n2) () \<and>
         rs_server s =
           (if fa_flashblocks (la_flashblocks la)
            then FbServer (rollup_boost_server_new l2 (flashblocks_service_new b) (la_execution_mode la)
                   (la_block_selection_policy la) \<lparr>probes_health = Healthy\<rparr> (la_external_state_root la)
                   (la_ignore_unhealthy_builders la))
                 (flashblocks_run (fa_ws_config (la_flashblocks la)) b)
            else RpcServer (rollup_boost_server_new l2 b (la_execution_mode la) (la_block_selection_policy la)
                   \<lparr>probes_health = Healthy\<rparr> (la_external_state_root la) (la_ignore_unhealthy_builders la)))))"
proof -
  have "isl r" if "ca_jwt_token c = None" "ca_jwt_path c = None"
    "c \<in> {la_l2_client (sa_lib args), la_builder (sa_lib args)}" for c
  proof -
    have "get_auth_jwt (su_jwt_from_file su) c = Inl MissingJwtSecret" using that by (simp add: get_auth_jwt_def)
    then show ?thesis using that(3) assms by (cases r) (auto simp: start_defs)
  qed
  then have "\<forall>c \<in> {la_l2_client (sa_lib args), la_builder (sa_lib args)}.
       ca_jwt_token c = None \<longrightarrow> ca_jwt_path c = None \<longrightarrow> isl r" by blast
  moreover have "r \<noteq> Inl SuFlashblocksDisabled" "r \<noteq> Inl SuFlashblocksEnabled"
    unfolding assms [symmetric] by (auto simp: start_defs rpc_client_new_def Let_def split: if_splits option.splits)
  ultimately show ?thesis
    unfolding assms [symmetric]
    by (simp add: start_defs Let_def) (auto simp: flashblocks_run_def probes_default_def split: if_splits)
qed

definition sample_startup :: "string startup_lib" where
  "sample_startup =
     \<lparr>su_open_log = (\<lambda>_. Inr ()), su_otlp_exporter = (\<lambda>_. Inr ()), su_set_global_default = Inr (),
      su_install_metrics = (\<lambda>_. Inr ()), su_jwt_from_file = (\<lambda>_. Inl ''no file''),
      su_version = ''0.1.0'', su_git_sha = ''abcdef01'', su_header_value = Some,
      su_http_build = (\<lambda>secret _ _ url. Inr (url @ '' '' @ secret)), su_parse_ip = Inr,
      su_bind_publisher = (\<lambda>_ _. Inr ()), su_debug_server = (\<lambda>_. Inr ()), su_register_methods = Inr (),
      su_parse_address = Inr, su_rpc_server = (\<lambda>_. Inr ()), su_signals = Inr ()\<rparr>"

definition sample_client_args :: "string \<Rightarrow> string \<Rightarrow> client_args" where
  "sample_client_args url secret =
     \<lparr>ca_url = url, ca_jwt_token = Some secret, ca_jwt_path = None, ca_timeout = 1000\<rparr>"

definition sample_service_args :: service_args where
  "sample_service_args =
     \<lparr>sa_lib =
        \<lparr>la_builder = sample_client_args ''http://builder'' ''B'', la_l2_client = sample_client_args ''http://l2'' ''A'',
         la_execution_mode = DryRun, la_block_selection_policy = None, la_external_state_root = False,
         la_ignore_unhealthy_builders = False,
         la_flashblocks = \<lparr>fa_flashblocks = False, fa_builder_url = ''ws://127.0.0.1:1111'', fa_host = ''127.0.0.1'',
           fa_port = 1112, fa_ws_config = sample_ws_config\<rparr>,
         la_health_check_interval = 60, la_max_unsafe_interval = 10\<rparr>,
      sa_rpc_host = ''127.0.0.1'', sa_rpc_port = 8081, sa_tracing = False,
      sa_otlp_endpoint = ''http://localhost:4317'', sa_log_level = LvlInfo, sa_log_format = LogText, sa_log_file = None,
      sa_metrics = False, sa_metrics_host = ''127.0.0.1'',
      sa_metrics_port = 9090, sa_debug_host = ''127.0.0.1'', sa_debug_server_port = 5555\<rparr>"

theorem service_starts_as_configured_witness:
  "\<exists>s :: (string, unit, unit) running_service.
     service_start sample_startup sample_service_args () () = Inr s \<and>
     rs_proxy s = proxy_new (http_client_new ''http://l2'' ''A'' ()) (http_client_new ''http://builder'' ''B'' ()) ()"
proof -
  let ?r = "service_start sample_startup sample_service_args () () :: startup_error + (string, unit, unit) running_service"
  have "\<exists>s. ?r = Inr s"
    by (simp add: start_defs rpc_client_new_def sample_startup_def sample_service_args_def sample_client_args_def get_auth_jwt_def)
  then obtain s where s: "?r = Inr s" by blast
  with service_starts_as_configured [OF s] show ?thesis
    by (auto simp: sample_startup_def sample_service_args_def sample_client_args_def get_auth_jwt_def)
qed

end
