(* ===== verification/Http_Stack.thy ===== *)
theory Http_Stack
  imports Server_Props Service
begin

text \<open>
  The service as its users meet it: the HTTP server of \<^verbatim>\<open>RollupBoostServiceArgs::run\<close> (\<^verbatim>\<open>cli.rs\<close>), in which the
  probe layer (\<^verbatim>\<open>probe.rs\<close>) stands in front of the proxy layer (\<^verbatim>\<open>proxy.rs\<close>) and this one in front of the Engine API
  module of the server (\<^verbatim>\<open>server.rs\<close>); beside it the debug server, the health loop and the detached tasks of server
  and proxy. Probe layer, health loop and handlers share one probe, debug server and handlers one execution mode.

  The RPC module is what the attributes of \<^verbatim>\<open>trait EngineApi\<close> declare: the names of the methods and the types of their
  parameters. What \<^verbatim>\<open>jsonrpsee\<close> does around it is the parameter \<open>rpc_lib\<close>: finding the call in a request, decoding the
  parameters and writing the answer. The steps of the service are whole operations; how the handlers interleave within an
  operation is the subject of \<open>Server_Tasks\<close>.
\<close>

section \<open>The Engine API module\<close>

datatype engine_result =
    ResForkchoiceUpdated forkchoice_updated
  | ResPayloadV3 op_execution_payload_envelope_v3
  | ResPayloadV4 op_execution_payload_envelope_v4
  | ResPayloadStatus payload_status
  | ResBlock block

text \<open>
  \<open>rl_call\<close> finds the method and the parameters of a request or answers it at once; a decoder gives \<open>None\<close> for parameters
  of the wrong type; \<open>rl_result\<close> answers with the outcome of a handler.
\<close>

record ('p, 'q, 'a) rpc_lib =
  rl_call :: "'p http_request \<Rightarrow> 'q buffered_response + string \<times> 'a"
  rl_fcu_params :: "'a \<Rightarrow> (forkchoice_state \<times> op_payload_attributes option) option"
  rl_payload_id_params :: "'a \<Rightarrow> payload_id option"
  rl_new_payload_v3_params :: "'a \<Rightarrow> (execution_payload_v3 \<times> b256 list \<times> b256) option"
  rl_new_payload_v4_params :: "'a \<Rightarrow> (op_execution_payload_v4 \<times> b256 list \<times> b256 \<times> bytes list) option"
  rl_block_params :: "'a \<Rightarrow> (block_number_or_tag \<times> bool) option"
  rl_method_not_found :: "'q buffered_response"
  rl_invalid_params :: "'q buffered_response"
  rl_result :: "engine_result rpc_outcome \<Rightarrow> box_error + 'q buffered_response"

type_synonym ('a, 's) rpc_handler = "'a \<Rightarrow> 's \<Rightarrow> engine_result rpc_outcome option \<times> 's"

definition rpc_method ::
  "('r \<Rightarrow> engine_result) \<Rightarrow> ('a \<Rightarrow> 'x option) \<Rightarrow> ('x \<Rightarrow> 's \<Rightarrow> 'r rpc_outcome \<times> 's) \<Rightarrow> ('a, 's) rpc_handler" where
  "rpc_method result params operation a s =
     (case params a of
        None \<Rightarrow> (None, s)
      | Some x \<Rightarrow> (let (r, s1) = operation x s in (Some (map_rpc_outcome result r), s1)))"

definition engine_module ::
  "('p, 'q, 'a) rpc_lib \<Rightarrow> ('l, 'b) engine_env \<Rightarrow> (string \<times> ('a, ('l, 'b) rollup_boost_server) rpc_handler) list" where
  "engine_module lib env =
     [(''engine_forkchoiceUpdatedV3'',
       rpc_method ResForkchoiceUpdated (rl_fcu_params lib) (\<lambda>(fcs, attrs). fork_choice_updated_v3 env fcs attrs)),
      (''engine_getPayloadV3'', rpc_method ResPayloadV3 (rl_payload_id_params lib) (get_payload_v3 env)),
      (''engine_newPayloadV3'',
       rpc_method ResPayloadStatus (rl_new_payload_v3_params lib)
         (\<lambda>(payload, hashes, root). server_new_payload_v3 env payload hashes root)),
      (''engine_getPayloadV4'', rpc_method ResPayloadV4 (rl_payload_id_params lib) (get_payload_v4 env)),
      (''engine_newPayloadV4'',
       rpc_method ResPayloadStatus (rl_new_payload_v4_params lib)
         (\<lambda>(payload, hashes, root, requests). server_new_payload_v4 env payload hashes root requests)),
      (''eth_getBlockByNumber'',
       rpc_method ResBlock (rl_block_params lib) (\<lambda>(number, full). server_get_block_by_number env number full))]"

definition rpc_call ::
  "('p, 'q, 'a) rpc_lib \<Rightarrow> ('l, 'b) engine_env \<Rightarrow> 'p http_request \<Rightarrow> ('l, 'b) rollup_boost_server
     \<Rightarrow> (box_error + 'q buffered_response) \<times> ('l, 'b) rollup_boost_server" where
  "rpc_call lib env req s =
     (case rl_call lib req of
        Inl response \<Rightarrow> (Inr response, s)
      | Inr (name, a) \<Rightarrow>
          (case map_of (engine_module lib env) name of
             None \<Rightarrow> (Inr (rl_method_not_found lib), s)
           | Some handler \<Rightarrow>
               (case handler a s of
                  (None, s1) \<Rightarrow> (Inr (rl_invalid_params lib), s1)
                | (Some outcome, s1) \<Rightarrow> (rl_result lib outcome, s1))))"

section \<open>The service\<close>

text \<open>
  \<open>se_path\<close> is the path of a URI, \<open>se_view\<close> the status and the body text of a response of the inner layers.
\<close>

record ('p, 'q, 'a, 'c, 'l, 'b) stack_env =
  se_lib :: proxy_lib
  se_http :: "('p, 'q, 'c) http_call"
  se_rpc :: "('p, 'q, 'a) rpc_lib"
  se_engine :: "('l, 'b) engine_env"
  se_path :: "string \<Rightarrow> string"
  se_view :: "'q buffered_response \<Rightarrow> http_response"
  se_max_unsafe_interval :: u64

record ('p, 'c, 'l, 'b) service_state =
  sv_proxy :: "('p, 'c, ('l, 'b) rollup_boost_server) proxy_service"
  sv_gauge :: nat
  sv_clock :: monotonic_timestamp

abbreviation sv_server :: "('p, 'c, 'l, 'b) service_state \<Rightarrow> ('l, 'b) rollup_boost_server" where
  "sv_server st \<equiv> px_inner (sv_proxy st)"

definition set_server ::
  "('l, 'b) rollup_boost_server \<Rightarrow> ('p, 'c, 'l, 'b) service_state \<Rightarrow> ('p, 'c, 'l, 'b) service_state" where
  "set_server s st = st\<lparr>sv_proxy := (sv_proxy st)\<lparr>px_inner := s\<rparr>\<rparr>"

definition stack_proxy_env ::
  "('p, 'q, 'a, 'c, 'l, 'b) stack_env \<Rightarrow> ('p, 'q, 'c, ('l, 'b) rollup_boost_server) proxy_env" where
  "stack_proxy_env env =
     \<lparr>pe_lib = se_lib env, pe_call = se_http env, pe_inner = rpc_call (se_rpc env) (se_engine env)\<rparr>"

definition stack_call ::
  "('p, 'q, 'a, 'c, 'l, 'b) stack_env \<Rightarrow> 'p http_request \<Rightarrow> ('p, 'c, 'l, 'b) service_state
     \<Rightarrow> (box_error + http_response) \<times> ('p, 'c, 'l, 'b) service_state" where
  "stack_call env req st =
     probe_call (rb_probes (sv_server st))
       (\<lambda>_ request st.
          let (r, proxy) = proxy_call (stack_proxy_env env) request (sv_proxy st)
          in (map_sum (\<lambda>e. e) (se_view env) r, st\<lparr>sv_proxy := proxy\<rparr>))
       (se_path env (rq_uri req)) req st"

definition service_debug_call ::
  "string \<Rightarrow> json list \<Rightarrow> ('p, 'c, 'l, 'b) service_state
     \<Rightarrow> (debug_error + json) \<times> ('p, 'c, 'l, 'b) service_state" where
  "service_debug_call name params st =
     (let (r, d) = debug_dispatch name params
                     \<lparr>ds_execution_mode = rb_execution_mode (sv_server st), ds_gauge = sv_gauge st\<rparr>
      in (r, (set_server ((sv_server st)\<lparr>rb_execution_mode := ds_execution_mode d\<rparr>) st)\<lparr>sv_gauge := ds_gauge d\<rparr>))"

datatype 'p service_event =
    HttpRequest "'p http_request"
  | DebugRequest string "json list"
  | HealthCheck nat nat
  | ServerTask
  | ProxyTask

fun service_step ::
  "('p, 'q, 'a, 'c, 'l, 'b) stack_env \<Rightarrow> 'p service_event \<Rightarrow> ('p, 'c, 'l, 'b) service_state
     \<Rightarrow> ('p, 'c, 'l, 'b) service_state" where
  "service_step env (HttpRequest req) st = snd (stack_call env req st)"
| "service_step env (DebugRequest name params) st = snd (service_debug_call name params st)"
| "service_step env (HealthCheck now1 now2) st =
     (let (clock, s) = server_health_check (se_engine env) (se_max_unsafe_interval env) now1 now2 (sv_clock st) (sv_server st)
      in (set_server s st)\<lparr>sv_clock := clock\<rparr>)"
| "service_step env ServerTask st = set_server (run_spawned (se_engine env) (sv_server st)) st"
| "service_step env ProxyTask st = st\<lparr>sv_proxy := proxy_run_spawned (stack_proxy_env env) (sv_proxy st)\<rparr>"

definition stack_run ::
  "('p, 'q, 'a, 'c, 'l, 'b) stack_env \<Rightarrow> 'p service_event list \<Rightarrow> ('p, 'c, 'l, 'b) service_state
     \<Rightarrow> ('p, 'c, 'l, 'b) service_state" where
  "stack_run env evs st = foldl (\<lambda>st ev. service_step env ev st) st evs"

text \<open>The service that \<^verbatim>\<open>run\<close> leaves behind: the debug server has set the gauge, and the health loop its clock.\<close>

definition service_state_new ::
  "(http_parts, 'n auth_service, unit) proxy_service \<Rightarrow> ('l, 'b) rollup_boost_server \<Rightarrow> monotonic_timestamp
     \<Rightarrow> (http_parts, 'n auth_service, 'l, 'b) service_state" where
  "service_state_new proxy server clock =
     \<lparr>sv_proxy = proxy_new (px_l2_client proxy) (px_builder_client proxy) server,
      sv_gauge = gs_value (update_execution_mode_gauge (rb_execution_mode server)), sv_clock = clock\<rparr>"

section \<open>Routing\<close>

text \<open>
  Both layers read the \<^verbatim>\<open>method\<close> member of the same body: a call that the RPC server finds in a request is for the method
  the proxy has found there.
\<close>

definition same_method :: "proxy_lib \<Rightarrow> ('p, 'q, 'a) rpc_lib \<Rightarrow> bool" where
  "same_method plib rlib \<longleftrightarrow>
     (\<forall>req body method name a. rq_body req = Inr body \<longrightarrow> pl_method plib body = Inr method \<longrightarrow>
        rl_call rlib req = Inr (name, a) \<longrightarrow> name = method)"

definition PROBE_PATHS :: "string set" where
  "PROBE_PATHS = {''/healthz'', ''/readyz'', ''/livez''}"

definition ENGINE_METHODS :: "string set" where
  "ENGINE_METHODS =
     {''engine_forkchoiceUpdatedV3'', ''engine_getPayloadV3'', ''engine_newPayloadV3'', ''engine_getPayloadV4'',
      ''engine_newPayloadV4''}"

lemma set_server_sel [simp]:
  "sv_server (set_server s st) = s"
  "px_l2_client (sv_proxy (set_server s st)) = px_l2_client (sv_proxy st)"
  "px_builder_client (sv_proxy (set_server s st)) = px_builder_client (sv_proxy st)"
  "px_spawned (sv_proxy (set_server s st)) = px_spawned (sv_proxy st)"
  "sv_gauge (set_server s st) = sv_gauge st"
  "sv_clock (set_server s st) = sv_clock st"
  by (simp_all add: set_server_def)

lemma set_server_same [simp]: "set_server (sv_server st) st = st"
  by (simp add: set_server_def)

lemma proxy_run_spawned_inner [simp]: "px_inner (proxy_run_spawned env p) = px_inner p"
  by (simp split: list.split)

lemma stack_call_probe:
  "se_path env (rq_uri req) \<in> PROBE_PATHS \<Longrightarrow>
     stack_call env req st =
       (Inr (if se_path env (rq_uri req) = ''/healthz'' then response_from_health (probes_health (rb_probes (sv_server st)))
             else ok_response), st)"
  by (auto simp: stack_call_def probe_call_def PROBE_PATHS_def)

lemma stack_call_proxy:
  "se_path env (rq_uri req) \<notin> PROBE_PATHS \<Longrightarrow>
     stack_call env req st =
       (map_sum (\<lambda>e. e) (se_view env) (fst (proxy_call (stack_proxy_env env) req (sv_proxy st))),
        st\<lparr>sv_proxy := snd (proxy_call (stack_proxy_env env) req (sv_proxy st))\<rparr>)"
  by (simp add: stack_call_def probe_call_def PROBE_PATHS_def split: prod.split)

lemma rpc_call_unregistered:
  assumes "rl_call lib req = Inr (name, a)" "name \<notin> ENGINE_METHODS" "name \<noteq> ''eth_getBlockByNumber''"
  shows "snd (rpc_call lib env req s) = s"
  using assms by (simp add: rpc_call_def engine_module_def ENGINE_METHODS_def)

text \<open>A request to the Engine API: not for a probe path, with an \<^verbatim>\<open>engine_\<close> method in its body.\<close>

definition engine_request :: "('p, 'q, 'a, 'c, 'l, 'b) stack_env \<Rightarrow> 'p http_request \<Rightarrow> string \<Rightarrow> bool" where
  "engine_request env req method \<longleftrightarrow>
     se_path env (rq_uri req) \<notin> PROBE_PATHS \<and> starts_with method ''engine_'' \<and>
     (\<exists>body. rq_body req = Inr body \<and> pl_method (se_lib env) body = Inr method)"

lemma stack_call_engine:
  assumes "engine_request env req method"
  shows "stack_call env req st =
    (map_sum (\<lambda>e. e) (se_view env) (fst (rpc_call (se_rpc env) (se_engine env) req (sv_server st))),
     set_server (snd (rpc_call (se_rpc env) (se_engine env) req (sv_server st))) st)"
proof -
  obtain body where body: "rq_body req = Inr body" "pl_method (se_lib env) body = Inr method"
    "starts_with method ENGINE_METHOD" "se_path env (rq_uri req) \<notin> PROBE_PATHS"
    using assms by (auto simp: engine_request_def ENGINE_METHOD_def)
  have "from_buffered_request \<lparr>bq_uri = rq_uri req, bq_parts = rq_parts req, bq_body = body\<rparr> = req"
    using body(1) by (simp add: from_buffered_request_def)
  with body show ?thesis
    by (simp add: stack_call_proxy proxy_call_def into_buffered_request_def stack_proxy_env_def set_server_def
        split: prod.split)
qed

lemma engine_request_unregistered:
  assumes "same_method (se_lib env) (se_rpc env)" "engine_request env req method" "method \<notin> ENGINE_METHODS"
  shows "snd (rpc_call (se_rpc env) (se_engine env) req s) = s"
proof (cases "rl_call (se_rpc env) req")
  case (Inl response)
  then show ?thesis by (simp add: rpc_call_def)
next
  case (Inr c)
  then obtain a where "rl_call (se_rpc env) req = Inr (method, a)"
    using assms(1,2) by (cases c) (auto simp: same_method_def engine_request_def)
  moreover have "method \<noteq> ''eth_getBlockByNumber''"
    using assms(2) by (auto simp: engine_request_def starts_with_def)
  ultimately show ?thesis using assms(3) by (simp add: rpc_call_unregistered)
qed

lemma stack_call_other:
  fixes st :: "('p, 'c, 'l, 'b) service_state"
  assumes "se_path env (rq_uri req) \<notin> PROBE_PATHS" "into_buffered_request req = Inr b"
    "pl_method (se_lib env) (bq_body b) = Inr method" "\<not> starts_with method ''engine_''"
  defines "fwd \<equiv> forward (se_lib env) (se_http env) b method (px_l2_client (sv_proxy st))"
  shows "stack_call env req st =
    (map_sum (\<lambda>e. e) (se_view env) (fst fwd),
     st\<lparr>sv_proxy := (sv_proxy st)\<lparr>px_l2_client := snd fwd,
       px_spawned := px_spawned (sv_proxy st) @ (if method \<in> set FORWARD_REQUESTS then [(b, method)] else [])\<rparr>\<rparr>)"
  using assms
  by (simp add: stack_call_proxy proxy_call_def stack_proxy_env_def ENGINE_METHOD_def split: prod.split)

text \<open>
  C15: every request reaches one backend. With the two JSON parsers agreeing on the method of a request: a request for a
  probe path is answered by the probe layer and changes nothing; a request without a body or a method fails and changes
  nothing; an \<^verbatim>\<open>engine_\<close> request is answered by the RPC module and only concerns the server, which it does not change unless
  the method is one of the five the module serves; every other request, \<^verbatim>\<open>eth_getBlockByNumber\<close> included although the module has a handler for it,
  is answered by the L2 node, and the only other thing it does is to queue the copy for the builder of the six
  forwarded methods.
\<close>

theorem every_request_reaches_one_backend:
  assumes "same_method (se_lib env) (se_rpc env)" and "stack_call env req st = (r, st')"
  shows "if se_path env (rq_uri req) \<in> {''/healthz'', ''/readyz'', ''/livez''}
    then st' = st \<and> (\<exists>response. r = Inr response \<and> resp_status response \<in> {200, 206, 503} \<and>
      (se_path env (rq_uri req) \<noteq> ''/healthz'' \<longrightarrow> resp_status response = 200))
    else case into_buffered_request req of
      Inl e \<Rightarrow> r = Inl e \<and> st' = st
    | Inr b \<Rightarrow>
       (case pl_method (se_lib env) (bq_body b) of
          Inl e \<Rightarrow> r = Inl e \<and> st' = st
        | Inr method \<Rightarrow>
           if starts_with method ''engine_''
           then r = map_sum (\<lambda>e. e) (se_view env) (fst (rpc_call (se_rpc env) (se_engine env) req (sv_server st))) \<and>
             st' = set_server (snd (rpc_call (se_rpc env) (se_engine env) req (sv_server st))) st \<and>
             (st' \<noteq> st \<longrightarrow> method \<in>
               {''engine_forkchoiceUpdatedV3'', ''engine_getPayloadV3'', ''engine_newPayloadV3'', ''engine_getPayloadV4'',
                ''engine_newPayloadV4''})
           else sv_server st' = sv_server st \<and> sv_gauge st' = sv_gauge st \<and> sv_clock st' = sv_clock st \<and>
             px_builder_client (sv_proxy st') = px_builder_client (sv_proxy st) \<and>
             r = map_sum (\<lambda>e. e) (se_view env)
               (fst (forward (se_lib env) (se_http env) b method (px_l2_client (sv_proxy st)))) \<and>
             px_spawned (sv_proxy st') = px_spawned (sv_proxy st) @
               (if method \<in> set FORWARD_REQUESTS then [(b, method)] else []))"
proof (cases "se_path env (rq_uri req) \<in> PROBE_PATHS")
  case True
  have "resp_status (response_from_health h) \<in> {200, 206, 503}" for h
    by (cases h) (simp_all add: ok_response_def partial_content_response_def service_unavailable_response_def)
  with True assms(2) show ?thesis
    by (simp add: stack_call_probe) (auto simp: PROBE_PATHS_def ok_response_def)
next
  case path: False
  show ?thesis
  proof (cases "into_buffered_request req")
    case (Inl e)
    with path assms(2) show ?thesis
      by (simp add: stack_call_proxy proxy_call_def PROBE_PATHS_def)
  next
    case (Inr b)
    then have b: "rq_body req = Inr (bq_body b)" by (auto simp: into_buffered_request_def split: sum.splits)
    show ?thesis
    proof (cases "pl_method (se_lib env) (bq_body b)")
      case (Inl e)
      with path Inr assms(2) show ?thesis
        by (simp add: stack_call_proxy proxy_call_def stack_proxy_env_def PROBE_PATHS_def)
    next
      case m: (Inr name)
      show ?thesis
      proof (cases "starts_with name ''engine_''")
        case True
        then have e: "engine_request env req name" using path b m by (simp add: engine_request_def)
        with assms(2) have "r = map_sum (\<lambda>e. e) (se_view env) (fst (rpc_call (se_rpc env) (se_engine env) req (sv_server st)))"
          "st' = set_server (snd (rpc_call (se_rpc env) (se_engine env) req (sv_server st))) st"
          by (simp_all add: stack_call_engine)
        moreover from this(2) have "st' \<noteq> st \<longrightarrow> name \<in> ENGINE_METHODS"
          using engine_request_unregistered [OF assms(1) e] by (cases "name \<in> ENGINE_METHODS") simp_all
        ultimately show ?thesis
          using True path Inr m by (simp add: PROBE_PATHS_def ENGINE_METHODS_def)
      next
        case False
        with assms(2) path Inr m stack_call_other [OF path Inr m False, of st] show ?thesis
          by (auto simp: PROBE_PATHS_def)
      qed
    qed
  qed
qed

section \<open>Health over HTTP\<close>

lemma rpc_call_get_payload:
  assumes "rl_call lib req = Inr (name, a)" "name \<in> {''engine_getPayloadV3'', ''engine_getPayloadV4''}"
    "rl_payload_id_params lib a = Some pid"
  shows "snd (rpc_call lib env req s) = snd (get_payload env pid (if name = ''engine_getPayloadV3'' then PV3 else PV4) s)"
  using assms
  by (auto simp: rpc_call_def engine_module_def rpc_method_def get_payload_v3_def get_payload_v4_def split: prod.split)

text \<open>
  C14: the health endpoint tells how the last block was obtained. After an \<^verbatim>\<open>engine_getPayloadV3\<close> or \<^verbatim>\<open>V4\<close> request over HTTP,
  without an external state root, \<^verbatim>\<open>/healthz\<close> answers 503 exactly when the L2 client failed, and otherwise 206 exactly
  when the mode is enabled and no builder block came out: the builder was not building this payload, its answer was
  an error, or the L2 client did not accept its block. In all other cases it answers 200.
\<close>

theorem healthz_after_get_payload:
  assumes "engine_request env req name" "name \<in> {''engine_getPayloadV3'', ''engine_getPayloadV4''}"
    and "rl_call (se_rpc env) req = Inr (name, a)" "rl_payload_id_params (se_rpc env) a = Some pid"
    and "\<not> rb_external_state_root (sv_server st)" and "se_path env (rq_uri probe) = ''/healthz''"
  shows "map_sum (\<lambda>e. e) resp_status (fst (stack_call env probe (snd (stack_call env req st)))) = Inr
    (let s = sv_server st;
         v = (if name = ''engine_getPayloadV3'' then PV3 else PV4);
         (l2, l) = ea_get_payload (env_l2 (se_engine env)) pid v (rb_l2_client s);
         b = fst (ea_get_payload (env_builder (se_engine env)) pid v (rb_builder_client s))
     in if isl l2 then 503
        else if rb_execution_mode s = Enabled \<and>
          (\<not> has_builder_payload (rb_payload_trace_context s) pid \<or> isl b \<or>
           isl (fst (ea_new_payload (env_l2 (se_engine env)) (new_payload_from_envelope (projr b)) l)))
        then 206 else 200)"
proof -
  let ?v = "if name = ''engine_getPayloadV3'' then PV3 else PV4"
  have "sv_server (snd (stack_call env req st)) = snd (get_payload (se_engine env) pid ?v (sv_server st))"
    using assms(1-4) by (simp add: stack_call_engine rpc_call_get_payload)
  moreover have "fst (stack_call env probe u) = Inr (response_from_health (probes_health (rb_probes (sv_server u))))" for u
    using assms(6) by (simp add: stack_call_probe PROBE_PATHS_def)
  ultimately show ?thesis
    using assms(5) health_after_get_payload [of "sv_server st" "se_engine env" pid ?v]
    by (auto simp: Let_def ok_response_def partial_content_response_def service_unavailable_response_def
        split: prod.splits)
qed

section \<open>The operator's mode\<close>

text \<open>The mode as a register that only \<^verbatim>\<open>debug_setExecutionMode\<close> with a readable mode writes.\<close>

fun set_mode :: "'p service_event \<Rightarrow> execution_mode \<Rightarrow> execution_mode" where
  "set_mode (DebugRequest name params) m =
     (if name = ''debug_setExecutionMode''
      then (case params of
              [] \<Rightarrow> m
            | request # _ \<Rightarrow> (case mode_struct_of_json request of Some m' \<Rightarrow> m' | None \<Rightarrow> m))
      else m)"
| "set_mode _ m = m"

lemma run_spawned_mode [simp]: "rb_execution_mode (run_spawned env s) = rb_execution_mode s"
  by (simp split: list.split)

lemma server_health_check_mode [simp]:
  "rb_execution_mode (snd (server_health_check env m now1 now2 ts s)) = rb_execution_mode s"
  by (simp add: server_health_check_def Let_def)

lemma get_payload_mode [simp]: "rb_execution_mode (snd (get_payload env pid v s)) = rb_execution_mode s"
  by (rule same_config_sel(2) [OF get_payload_frame(1) [OF refl]])

lemma fork_choice_updated_v3_mode [simp]:
  "rb_execution_mode (snd (fork_choice_updated_v3 env fcs attrs s)) = rb_execution_mode s"
  by (auto simp: fcu_defs rb_store_def Let_def split: prod.splits sum.splits option.splits)

lemma server_new_payload_mode [simp]: "rb_execution_mode (snd (server_new_payload env np s)) = rb_execution_mode s"
  by (simp add: server_new_payload_def rb_spawn_def Let_def split: prod.split)

lemma rpc_method_keeps:
  assumes "\<And>x. P (snd (operation x s))" "P s"
  shows "P (snd (rpc_method result params operation a s))"
  using assms by (simp add: rpc_method_def split: option.split prod.split) (metis snd_conv)

text \<open>What all handlers keep is kept by a request to the module.\<close>

lemma rpc_call_keeps:
  assumes "\<And>fcs attrs. P (snd (fork_choice_updated_v3 env fcs attrs s))" "\<And>pid v. P (snd (get_payload env pid v s))"
    "\<And>np. P (snd (server_new_payload env np s))" "\<And>n full. P (snd (server_get_block_by_number env n full s))" "P s"
  shows "P (snd (rpc_call lib env req s))"
proof -
  have v3: "P (snd (get_payload_v3 env pid s))" for pid
    using assms(2) [of pid PV3] by (cases "get_payload env pid PV3 s") (simp add: get_payload_v3_def)
  have v4: "P (snd (get_payload_v4 env pid s))" for pid
    using assms(2) [of pid PV4] by (cases "get_payload env pid PV4 s") (simp add: get_payload_v4_def)
  have "P (snd (rpc_method ResPayloadStatus (rl_new_payload_v3_params lib)
      (\<lambda>(payload, hashes, root). server_new_payload_v3 env payload hashes root) a s))" for a
    by (rule rpc_method_keeps) (use assms(3,5) in \<open>auto simp: server_new_payload_v3_def split: prod.split\<close>)
  moreover have "P (snd (rpc_method ResPayloadStatus (rl_new_payload_v4_params lib)
      (\<lambda>(payload, hashes, root, requests). server_new_payload_v4 env payload hashes root requests) a s))" for a
    by (rule rpc_method_keeps) (use assms(3,5) in \<open>auto simp: server_new_payload_v4_def split: prod.split\<close>)
  moreover have "P (snd (rpc_method ResForkchoiceUpdated (rl_fcu_params lib)
      (\<lambda>(fcs, attrs). fork_choice_updated_v3 env fcs attrs) a s))" for a
    by (rule rpc_method_keeps) (use assms(1,5) in \<open>auto split: prod.split\<close>)
  moreover have "P (snd (rpc_method ResBlock (rl_block_params lib)
      (\<lambda>(number, full). server_get_block_by_number env number full) a s))" for a
    by (rule rpc_method_keeps) (use assms(4,5) in \<open>auto split: prod.split\<close>)
  moreover have "P (snd (rpc_method ResPayloadV3 (rl_payload_id_params lib) (get_payload_v3 env) a s))"
    "P (snd (rpc_method ResPayloadV4 (rl_payload_id_params lib) (get_payload_v4 env) a s))" for a
    by (rule rpc_method_keeps; use v3 v4 assms(5) in simp)+
  ultimately have "list_all (\<lambda>(_, h). \<forall>a. P (snd (h a s))) (engine_module lib env)"
    by (simp add: engine_module_def)
  then have handler: "P (snd (h a s))" if "map_of (engine_module lib env) name = Some h" for name h a
    using map_of_SomeD [OF that] by (auto simp: list_all_iff)
  have "P t" if "map_of (engine_module lib env) name = Some h" "h a s = (r, t)" for name h a r t
    using handler [OF that(1), of a] that(2) by simp
  then show ?thesis
    using assms(5) by (simp add: rpc_call_def split: sum.split option.split prod.split)
qed

lemma rpc_call_mode [simp]: "rb_execution_mode (snd (rpc_call lib env req s)) = rb_execution_mode s"
  by (rule rpc_call_keeps [where P = "\<lambda>t. rb_execution_mode t = rb_execution_mode s"])
    (simp_all add: server_get_block_by_number_def split: prod.split)

text \<open>One step of the service, for what the handlers keep of the server: only these five things happen to it.\<close>

lemma stack_call_server:
  "sv_server (snd (stack_call env req st)) = sv_server st \<or>
   sv_server (snd (stack_call env req st)) = snd (rpc_call (se_rpc env) (se_engine env) req (sv_server st))"
proof (cases "se_path env (rq_uri req) \<in> PROBE_PATHS")
  case True
  then show ?thesis by (simp add: stack_call_probe)
next
  case False
  then show ?thesis
    by (auto simp: stack_call_proxy proxy_call_def stack_proxy_env_def into_buffered_SomeD Let_def
        split: sum.split prod.split)
qed

lemma stack_call_gauge [simp]: "sv_gauge (snd (stack_call env req st)) = sv_gauge st"
  by (simp add: stack_call_def probe_call_def split: prod.split)

lemma service_step_mode:
  assumes "sv_gauge st = to_metric_value (rb_execution_mode (sv_server st))"
  shows "rb_execution_mode (sv_server (service_step env ev st)) = set_mode ev (rb_execution_mode (sv_server st)) \<and>
    sv_gauge (service_step env ev st) = to_metric_value (rb_execution_mode (sv_server (service_step env ev st)))"
proof (cases ev)
  case (HttpRequest req)
  then show ?thesis using assms stack_call_server [of env req st] by auto
next
  case (DebugRequest name params)
  then show ?thesis
    using assms
    by (auto simp: service_debug_call_def debug_dispatch_def debug_rpc_set_execution_mode_def
        debug_set_execution_mode_def split: list.split option.split)
next
  case (HealthCheck now1 now2)
  then show ?thesis
    using assms server_health_check_mode [of "se_engine env" "se_max_unsafe_interval env" now1 now2 "sv_clock st" "sv_server st"]
    by (cases "server_health_check (se_engine env) (se_max_unsafe_interval env) now1 now2 (sv_clock st) (sv_server st)")
      (simp del: server_health_check_mode)
qed (use assms in \<open>simp_all split: list.split\<close>)

lemma stack_run_mode:
  assumes "sv_gauge st = to_metric_value (rb_execution_mode (sv_server st))"
  shows "rb_execution_mode (sv_server (stack_run env evs st)) = fold set_mode evs (rb_execution_mode (sv_server st)) \<and>
    sv_gauge (stack_run env evs st) = to_metric_value (rb_execution_mode (sv_server (stack_run env evs st)))"
  using assms
proof (induction evs arbitrary: st)
  case Nil
  then show ?case by (simp add: stack_run_def)
next
  case (Cons ev evs)
  then show ?case using service_step_mode [OF Cons.prems, of env ev] by (simp add: stack_run_def)
qed

text \<open>A state shows a mode when the handlers, the gauge and the debug API all have it.\<close>

definition shows_mode :: "('p, 'c, 'l, 'b) service_state \<Rightarrow> execution_mode \<Rightarrow> bool" where
  "shows_mode st mode \<longleftrightarrow>
     rb_execution_mode (sv_server st) = mode \<and> sv_gauge st = to_metric_value mode \<and>
     fst (client_get_execution_mode service_debug_call st) = Inr mode"

lemma shows_mode_iff:
  "shows_mode st mode \<longleftrightarrow> rb_execution_mode (sv_server st) = mode \<and> sv_gauge st = to_metric_value mode"
  by (auto simp: shows_mode_def client_get_execution_mode_def service_debug_call_def debug_dispatch_def debug_reply_def
      debug_rpc_get_execution_mode_def debug_execution_mode_def)

lemma shows_mode_new: "shows_mode (service_state_new proxy server clock) (rb_execution_mode server)"
  by (simp add: shows_mode_iff service_state_new_def proxy_new_def update_execution_mode_gauge_def)

lemma shows_mode_run: "shows_mode st mode \<Longrightarrow> shows_mode (stack_run env evs st) (fold set_mode evs mode)"
  using stack_run_mode [of st env evs] by (simp add: shows_mode_iff)

text \<open>
  C16: the mode is the operator's. Once the service has started, whatever requests, tasks, health checks and
  debug calls follow, in any order: the execution mode is the configured one until a \<^verbatim>\<open>debug_setExecutionMode\<close> with a
  readable mode, and from then on the last one set in this way. The handlers use it, the gauge shows it and
  \<^verbatim>\<open>debug_getExecutionMode\<close> answers it. This holds for the RPC and for the flashblocks server.
\<close>

theorem mode_is_the_operators:
  assumes "service_start su args n1 n2 = Inr s"
  shows "case rs_server s of
      RpcServer server \<Rightarrow>
        shows_mode (stack_run env evs (service_state_new (rs_proxy s) server clock))
          (fold set_mode evs (la_execution_mode (sa_lib args)))
    | FbServer server pipeline \<Rightarrow>
        shows_mode (stack_run env' evs (service_state_new (rs_proxy s) server clock))
          (fold set_mode evs (la_execution_mode (sa_lib args)))"
proof (cases "rs_server s")
  case (RpcServer server)
  then have "rb_execution_mode server = la_execution_mode (sa_lib args)"
    using assms by (auto simp: start_defs rollup_boost_server_new_def Let_def split: if_splits)
  with RpcServer show ?thesis
    using shows_mode_run [OF shows_mode_new, of env evs "rs_proxy s" server clock] by simp
next
  case (FbServer server pipeline)
  then have "rb_execution_mode server = la_execution_mode (sa_lib args)"
    using assms by (auto simp: start_defs rollup_boost_server_new_def Let_def split: if_splits)
  with FbServer show ?thesis
    using shows_mode_run [OF shows_mode_new, of env' evs "rs_proxy s" server clock] by simp
qed

text \<open>In every state the service can reach, the gauge shows the mode the handlers use.\<close>

interpretation http_service: invariant_system
  "\<lambda>st. \<exists>proxy server clock. st = service_state_new proxy server clock"
  "\<lambda>st st'. \<exists>ev. st' = service_step env ev st"
  "\<lambda>st. shows_mode st (rb_execution_mode (sv_server st))" for env
proof (unfold_locales, goal_cases)
  case (1 st)
  then show ?case
    by (auto simp: shows_mode_iff service_state_new_def proxy_new_def update_execution_mode_gauge_def)
next
  case (2 st st')
  then show ?case using service_step_mode [of st env] by (auto simp: shows_mode_iff)
qed

section \<open>Switching the builder off\<close>

text \<open>What the server has to do with the builder: its client, the tasks for it, and the blocks taken from it.\<close>

definition builder_side :: "('l, 'b) rollup_boost_server \<Rightarrow> execution_mode \<times> 'b \<times> builder_task list \<times> nat" where
  "builder_side s = (rb_execution_mode s, rb_builder_client s, rb_spawned s, rb_blocks_created s Builder)"

lemma builder_side_disabled:
  assumes "rb_execution_mode s = Disabled"
  shows "builder_side (snd (rpc_call lib env req s)) = builder_side s"
    and "builder_side (snd (server_health_check env m now1 now2 ts s)) = builder_side s"
proof -
  have "builder_side (snd (get_payload env pid v s)) = builder_side s" for pid v
    using assms
    by (auto simp: builder_side_def get_payload_def get_payload_disabled_def split: prod.split sum.split)
  then show "builder_side (snd (rpc_call lib env req s)) = builder_side s"
    using assms
    by (intro rpc_call_keeps [where P = "\<lambda>t. builder_side t = builder_side s"])
      (auto simp: builder_side_def fcu_skipped server_new_payload_def server_get_block_by_number_def Let_def split: prod.split)
  show "builder_side (snd (server_health_check env m now1 now2 ts s)) = builder_side s"
    using assms
    by (auto simp: builder_side_def server_health_check_def health_check_iteration_def set_hh_health_def Let_def
        split: prod.split sum.split)
qed

text \<open>The builder has only been given the first of the tasks that were waiting, and the others still are.\<close>

definition only_waiting_tasks ::
  "('l, 'b) engine_env \<Rightarrow> ('l, 'b) rollup_boost_server \<Rightarrow> ('l, 'b) rollup_boost_server \<Rightarrow> bool" where
  "only_waiting_tasks env s0 s \<longleftrightarrow>
     (\<exists>k. rb_builder_client s = fold (run_task env) (take k (rb_spawned s0)) (rb_builder_client s0) \<and>
        rb_spawned s = drop k (rb_spawned s0)) \<and>
     rb_blocks_created s Builder = rb_blocks_created s0 Builder"

lemma only_waiting_tasks_refl [simp]: "only_waiting_tasks env s s"
  by (auto simp: only_waiting_tasks_def intro: exI [where x = 0])

lemma only_waiting_tasks_builder_side:
  "builder_side t = builder_side s \<Longrightarrow> only_waiting_tasks env s0 t \<longleftrightarrow> only_waiting_tasks env s0 s"
  by (simp add: builder_side_def only_waiting_tasks_def)

lemma only_waiting_tasks_run_spawned:
  assumes "only_waiting_tasks env s0 s"
  shows "only_waiting_tasks env s0 (run_spawned env s)"
proof (cases "rb_spawned s")
  case Nil
  with assms show ?thesis by simp
next
  case (Cons task rest)
  obtain k where k: "rb_builder_client s = fold (run_task env) (take k (rb_spawned s0)) (rb_builder_client s0)"
    "rb_spawned s = drop k (rb_spawned s0)"
    using assms by (auto simp: only_waiting_tasks_def)
  then have d: "drop k (rb_spawned s0) = task # rest" using Cons by simp
  then have "k < length (rb_spawned s0)" by (metis drop_all list.distinct(1) not_le)
  with d have "k < length (rb_spawned s0)" "rb_spawned s0 ! k = task" "drop (Suc k) (rb_spawned s0) = rest"
    by (simp_all add: Cons_nth_drop_Suc [symmetric])
  then have "rb_builder_client (run_spawned env s) =
      fold (run_task env) (take (Suc k) (rb_spawned s0)) (rb_builder_client s0) \<and>
    rb_spawned (run_spawned env s) = drop (Suc k) (rb_spawned s0)"
    using k(1) Cons by (simp add: take_Suc_conv_app_nth)
  with assms Cons show ?thesis by (auto simp: only_waiting_tasks_def)
qed

lemma service_step_disabled:
  assumes "rb_execution_mode (sv_server st) = Disabled" "only_waiting_tasks (se_engine env) s0 (sv_server st)"
  shows "only_waiting_tasks (se_engine env) s0 (sv_server (service_step env ev st))"
proof (cases ev)
  case (HttpRequest req)
  then show ?thesis
    using assms stack_call_server [of env req st]
      only_waiting_tasks_builder_side [OF builder_side_disabled(1) [OF assms(1), of "se_rpc env" "se_engine env" req]]
    by auto
next
  case (DebugRequest name params)
  then show ?thesis
    using assms(2) by (simp add: service_debug_call_def only_waiting_tasks_def split: prod.split)
next
  case (HealthCheck now1 now2)
  obtain clock s where
    h: "server_health_check (se_engine env) (se_max_unsafe_interval env) now1 now2 (sv_clock st) (sv_server st) = (clock, s)"
    by fastforce
  have b: "builder_side s = builder_side (sv_server st)"
    using builder_side_disabled(2) [OF assms(1), of "se_engine env" "se_max_unsafe_interval env" now1 now2 "sv_clock st"] h
    by simp
  from HealthCheck h assms(2) show ?thesis by (simp add: only_waiting_tasks_builder_side [OF b])
next
  case ServerTask
  then show ?thesis using only_waiting_tasks_run_spawned [OF assms(2)] by simp
next
  case ProxyTask
  then show ?thesis using assms(2) by (simp split: list.split)
qed

text \<open>Events that leave the mode alone: all but setting another mode.\<close>

definition keeps_disabled :: "'p service_event \<Rightarrow> bool" where
  "keeps_disabled ev \<longleftrightarrow> set_mode ev Disabled = Disabled"

lemma stack_run_disabled:
  assumes "shows_mode st Disabled" "list_all keeps_disabled evs" "only_waiting_tasks (se_engine env) s0 (sv_server st)"
  shows "shows_mode (stack_run env evs st) Disabled \<and>
    only_waiting_tasks (se_engine env) s0 (sv_server (stack_run env evs st))"
  using assms
proof (induction evs arbitrary: st)
  case Nil
  then show ?case by (simp add: stack_run_def)
next
  case (Cons ev evs)
  have "shows_mode (service_step env ev st) Disabled"
    using shows_mode_run [OF Cons.prems(1), of env "[ev]"] Cons.prems(2) by (simp add: stack_run_def keeps_disabled_def)
  moreover have "only_waiting_tasks (se_engine env) s0 (sv_server (service_step env ev st))"
    by (rule service_step_disabled) (use Cons.prems(1,3) in \<open>simp_all add: shows_mode_iff\<close>)
  ultimately show ?case using Cons.IH Cons.prems(2) by (simp add: stack_run_def)
qed


section \<open>Witnesses\<close>

text \<open>
  Requests whose body is a number for the method, a node that counts what it is sent, and a server that is building a
  block with a builder that is down.
\<close>

definition sample_method :: "bytes \<Rightarrow> box_error + string" where
  "sample_method body =
     (if body = [1] then Inr ''engine_getPayloadV3''
      else if body = [2] then Inr ''eth_getBlockByNumber''
      else if body = [3] then Inr ''eth_sendRawTransaction''
      else Inl ''no method'')"

definition sample_rpc_lib :: "(http_parts, unit, payload_id) rpc_lib" where
  "sample_rpc_lib =
     \<lparr>rl_call = (\<lambda>req. case rq_body req of
          Inl e \<Rightarrow> Inl \<lparr>br_parts = (), br_body = []\<rparr>
        | Inr body \<Rightarrow>
            (case sample_method body of
               Inl e \<Rightarrow> Inl \<lparr>br_parts = (), br_body = []\<rparr> | Inr name \<Rightarrow> Inr (name, 5))),
      rl_fcu_params = (\<lambda>_. None), rl_payload_id_params = Some, rl_new_payload_v3_params = (\<lambda>_. None),
      rl_new_payload_v4_params = (\<lambda>_. None), rl_block_params = (\<lambda>_. Some (Latest, False)),
      rl_method_not_found = \<lparr>br_parts = (), br_body = []\<rparr>, rl_invalid_params = \<lparr>br_parts = (), br_body = []\<rparr>,
      rl_result = (\<lambda>outcome. case outcome of RpcPanic \<Rightarrow> Inl ''closed'' | _ \<Rightarrow> Inr \<lparr>br_parts = (), br_body = [0]\<rparr>)\<rparr>"

definition sample_stack :: "('l, 'b) engine_env \<Rightarrow> (http_parts, unit, payload_id, nat auth_service, 'l, 'b) stack_env" where
  "sample_stack engine =
     \<lparr>se_lib = \<lparr>pl_method = sample_method, pl_error_code = (\<lambda>_. Inr None)\<rparr>,
      se_http = (\<lambda>_ c. (Inr \<lparr>rr_parts = (), rr_body = Inr []\<rparr>, c\<lparr>as_inner := Suc (as_inner c)\<rparr>)),
      se_rpc = sample_rpc_lib, se_engine = engine, se_path = (\<lambda>uri. uri),
      se_view = (\<lambda>r. \<lparr>resp_status = 200, resp_body = []\<rparr>), se_max_unsafe_interval = 10\<rparr>"

definition sample_request :: "string \<Rightarrow> bytes \<Rightarrow> http_parts http_request" where
  "sample_request uri body = \<lparr>rq_uri = uri, rq_parts = \<lparr>hp_method = ''POST'', hp_headers = (\<lambda>_. [])\<rparr>, rq_body = Inr body\<rparr>"

definition sample_engine :: "(unit, unit) engine_env" where
  "sample_engine = sample_mux\<lparr>env_builder := sample_api (Inl (Io ''x'')) (Inl (Io ''x'')) (Inl (Io ''down''))\<rparr>"

definition sample_stack_state :: "(http_parts, nat auth_service, unit, unit) service_state" where
  "sample_stack_state =
     service_state_new (proxy_new (http_client_new ''http://l2'' ''A'' 0) (http_client_new ''http://builder'' ''B'' 0) ())
       (sample_building Enabled False) (monotonic_timestamp_new 0 0)"

lemma sample_same_method: "same_method (se_lib (sample_stack engine)) (se_rpc (sample_stack engine))"
  by (auto simp: same_method_def sample_stack_def sample_rpc_lib_def split: sum.splits)

lemmas sample_stack_defs =
  sample_stack_def sample_request_def sample_rpc_lib_def sample_method_def sample_stack_state_def service_state_new_def
  proxy_new_def http_client_new_def

theorem every_request_reaches_one_backend_witness:
  "sv_server (snd (stack_call (sample_stack sample_engine) (sample_request ''/'' [2]) sample_stack_state)) =
     sv_server sample_stack_state"
proof -
  obtain r st' where "stack_call (sample_stack sample_engine) (sample_request ''/'' [2]) sample_stack_state = (r, st')"
    by fastforce
  with every_request_reaches_one_backend [OF sample_same_method this] show ?thesis
    by (simp add: sample_stack_defs into_buffered_request_def starts_with_def)
qed

theorem healthz_after_get_payload_witness:
  "map_sum (\<lambda>e. e) resp_status
     (fst (stack_call (sample_stack sample_engine) (sample_request ''/healthz'' [])
       (snd (stack_call (sample_stack sample_engine) (sample_request ''/'' [1]) sample_stack_state)))) = Inr 206"
  by (subst healthz_after_get_payload [where name = "''engine_getPayloadV3''" and a = 5 and pid = 5])
    (simp_all add: sample_stack_defs engine_request_def PROBE_PATHS_def starts_with_def sample_engine_def
      sample_building_Enabled sample_server_def rollup_boost_server_new_def sample_mux_def client_simps sample_defs)

definition down_api :: "'w engine_api" where
  "down_api =
     \<lparr>ea_fork_choice_updated_v3 = (\<lambda>_ _ w. (Inl (Io ''down''), w)), ea_new_payload = (\<lambda>_ w. (Inl (Io ''down''), w)),
      ea_get_payload = (\<lambda>_ _ w. (Inl (Io ''down''), w)), ea_get_block_by_number = (\<lambda>_ _ w. (Inl (Io ''down''), w))\<rparr>"

definition down_engine :: "('l, 'b) engine_env" where
  "down_engine = \<lparr>env_l2 = down_api, env_builder = down_api, env_cache = env_cache sample_mux, env_span = None\<rparr>"

theorem mode_is_the_operators_witness:
  "\<exists>server. shows_mode
     (stack_run (sample_stack down_engine)
       [DebugRequest ''debug_setExecutionMode'' [mode_struct_to_json Disabled], ServerTask,
        DebugRequest ''debug_setExecutionMode'' [JString ''enabled'']]
       (service_state_new (proxy_new (http_client_new ''http://l2'' ''A'' 0) (http_client_new ''http://builder'' ''B'' 0) ())
          (server :: (string rpc_client, string rpc_client) rollup_boost_server) (monotonic_timestamp_new 0 0))) Disabled"
proof -
  let ?evs = "[DebugRequest ''debug_setExecutionMode'' [mode_struct_to_json Disabled], ServerTask,
        DebugRequest ''debug_setExecutionMode'' [JString ''enabled'']]"
  let ?r = "service_start sample_startup sample_service_args (0::nat) 0 :: startup_error + (string, unit, nat) running_service"
  have "\<exists>s server. ?r = Inr s \<and> rs_server s = RpcServer server \<and>
      rs_proxy s = proxy_new (http_client_new ''http://l2'' ''A'' 0) (http_client_new ''http://builder'' ''B'' 0) ()"
    by (simp add: start_defs rpc_client_new_def sample_startup_def sample_service_args_def sample_client_args_def get_auth_jwt_def)
  then obtain s server where s: "?r = Inr s" "rs_server s = RpcServer server"
      "rs_proxy s = proxy_new (http_client_new ''http://l2'' ''A'' 0) (http_client_new ''http://builder'' ''B'' 0) ()"
    by blast
  have "fold set_mode ?evs (la_execution_mode (sa_lib sample_service_args)) = Disabled"
    by (simp add: mode_struct_of_json_def mode_struct_to_json_def mode_of_json_def mode_of_name_def)
  with mode_is_the_operators [OF s(1), of "sample_stack down_engine" ?evs "monotonic_timestamp_new 0 0" "sample_stack down_engine"] s
  show ?thesis by auto
qed


end
