(* ===== verification/Rate_Limit.thy ===== *)
theory Rate_Limit
  imports Prelude
begin

text \<open>
  Connection limits of the websocket proxy (\<^verbatim>\<open>websocket-proxy/src/rate_limit.rs\<close>).

  \<^verbatim>\<open>InMemoryRateLimit\<close> keeps its counters under one mutex, so each operation is one step on the
  record. \<^verbatim>\<open>RedisRateLimit\<close> keeps its counters in a Redis server, which is a parameter: the record
  \<open>'r redis\<close> of the commands the code issues, over the state \<open>'r\<close> of the server. A semaphore is its
  number of available permits: \<^verbatim>\<open>try_acquire_owned\<close> takes one, and dropping the permit, on an early
  return or with the ticket, gives it back. Dropping a ticket first calls \<^verbatim>\<open>release\<close>, then drops the
  permit.

  The trait \<^verbatim>\<open>RateLimit\<close> is the locale \<open>rate_limit\<close>: its law is that permits are conserved, and its
  lemma is that the open connections and the free permits always add up to the instance limit. Both
  limiters interpret it.
\<close>

section \<open>Addresses\<close>

datatype ip_addr = V4 "32 word" | V6 "128 word"

text \<open>The \<^verbatim>\<open>Display\<close> implementation of the standard library.\<close>

definition show_ipv4 :: "32 word \<Rightarrow> string" where
  "show_ipv4 w = join_with CHR ''.''
     (map (\<lambda>k. show_base 10 (unat (drop_bit (8 * k) w) mod 256)) [3, 2, 1, 0])"

definition segments :: "128 word \<Rightarrow> nat list" where
  "segments w = map (\<lambda>k. unat (drop_bit (16 * k) w) mod 65536) [7, 6, 5, 4, 3, 2, 1, 0]"

text \<open>The first longest run of zero segments, as start and length.\<close>

fun zero_span :: "nat \<Rightarrow> nat list \<Rightarrow> nat \<times> nat \<Rightarrow> nat \<times> nat \<Rightarrow> nat \<times> nat" where
  "zero_span i [] longest current = longest"
| "zero_span i (x # xs) longest current =
     (if x = 0 then
        let current = (if snd current = 0 then i else fst current, Suc (snd current))
        in zero_span (Suc i) xs (if snd longest < snd current then current else longest) current
      else zero_span (Suc i) xs longest (0, 0))"

definition fmt_subslice :: "nat list \<Rightarrow> string" where
  "fmt_subslice xs = join_with CHR '':'' (map (show_base 16) xs)"

definition show_ipv6 :: "128 word \<Rightarrow> string" where
  "show_ipv6 w =
     (let segs = segments w in
      if take 6 segs = [0, 0, 0, 0, 0, 65535]
      then ''::ffff:'' @ show_ipv4 (ucast w)
      else let (start, len) = zero_span 0 segs (0, 0) (0, 0) in
        if 1 < len then fmt_subslice (take start segs) @ ''::'' @ fmt_subslice (drop (start + len) segs)
        else fmt_subslice segs)"

fun show_ip :: "ip_addr \<Rightarrow> string" where
  "show_ip (V4 w) = show_ipv4 w"
| "show_ip (V6 w) = show_ipv6 w"

section \<open>The trait\<close>

type_synonym rate_limit_error = string
type_synonym ticket = "ip_addr \<times> string option"

section \<open>InMemoryRateLimit\<close>

record in_memory_rate_limit =
  im_per_ip_limit :: nat
  im_per_app_limit :: "string \<rightharpoonup> nat"
  im_active_connections_per_ip :: "ip_addr \<rightharpoonup> nat"
  im_active_connections_per_app :: "string \<rightharpoonup> nat"
  im_semaphore :: nat

definition in_memory_new :: "nat \<Rightarrow> nat \<Rightarrow> (string \<rightharpoonup> nat) \<Rightarrow> in_memory_rate_limit" where
  "in_memory_new instance_limit per_ip_limit per_app_limit =
     \<lparr>im_per_ip_limit = per_ip_limit,
      im_per_app_limit = per_app_limit,
      im_active_connections_per_ip = Map.empty,
      im_active_connections_per_app = Map.empty,
      im_semaphore = instance_limit\<rparr>"

text \<open>\<^verbatim>\<open>*map.get(&key).unwrap_or(&0)\<close>.\<close>

definition get_or_0 :: "('k \<rightharpoonup> nat) \<Rightarrow> 'k \<Rightarrow> nat" where
  "get_or_0 m k = (case m k of Some n \<Rightarrow> n | None \<Rightarrow> 0)"

text \<open>The counters, with the permit of the semaphore in hand.\<close>

definition im_count_ip ::
  "ip_addr \<Rightarrow> in_memory_rate_limit \<Rightarrow> (rate_limit_error + unit) \<times> in_memory_rate_limit" where
  "im_count_ip addr s =
     (if 0 < im_per_ip_limit s then
        let current_count = get_or_0 (im_active_connections_per_ip s) addr in
        if current_count + 1 > im_per_ip_limit s then (Inl ''IP limit exceeded'', s)
        else (Inr (), s\<lparr>im_active_connections_per_ip :=
                (im_active_connections_per_ip s)(addr \<mapsto> current_count + 1)\<rparr>)
      else (Inr (), s))"

definition im_count_app ::
  "string option \<Rightarrow> in_memory_rate_limit \<Rightarrow> (rate_limit_error + unit) \<times> in_memory_rate_limit" where
  "im_count_app app s =
     (case app of
        Some app \<Rightarrow>
          (let current_count = get_or_0 (im_active_connections_per_app s) app in
           if current_count + 1 > get_or_0 (im_per_app_limit s) app then (Inl ''App limit exceeded'', s)
           else (Inr (), s\<lparr>im_active_connections_per_app :=
                   (im_active_connections_per_app s)(app \<mapsto> current_count + 1)\<rparr>))
      | None \<Rightarrow> (Inr (), s))"

text \<open>An early return drops the permit, which goes back to the semaphore.\<close>

definition im_drop_permit :: "in_memory_rate_limit \<Rightarrow> in_memory_rate_limit" where
  "im_drop_permit s = s\<lparr>im_semaphore := im_semaphore s + 1\<rparr>"

definition im_try_acquire ::
  "ip_addr \<Rightarrow> string option \<Rightarrow> in_memory_rate_limit
     \<Rightarrow> (rate_limit_error + ticket) \<times> in_memory_rate_limit" where
  "im_try_acquire addr app s =
     (if im_semaphore s = 0 then (Inl ''Global limit'', s)
      else
        (case im_count_ip addr (s\<lparr>im_semaphore := im_semaphore s - 1\<rparr>) of
           (Inl e, s1) \<Rightarrow> (Inl e, im_drop_permit s1)
         | (Inr _, s1) \<Rightarrow>
             (case im_count_app app s1 of
                (Inl e, s2) \<Rightarrow> (Inl e, im_drop_permit s2)
              | (Inr _, s2) \<Rightarrow> (Inr (addr, app), s2))))"

definition decrement_count :: "'k \<Rightarrow> ('k \<rightharpoonup> nat) \<Rightarrow> ('k \<rightharpoonup> nat)" where
  "decrement_count k m =
     (let current_count = get_or_0 m k in
      if current_count = 0 then m(k := None)
      else if current_count = 1 then m(k := None)
      else m(k \<mapsto> current_count - 1))"

definition im_release ::
  "ip_addr \<Rightarrow> string option \<Rightarrow> in_memory_rate_limit \<Rightarrow> in_memory_rate_limit" where
  "im_release addr app s =
     (let s1 = (if 0 < im_per_ip_limit s
                then s\<lparr>im_active_connections_per_ip :=
                       decrement_count addr (im_active_connections_per_ip s)\<rparr>
                else s)
      in case app of
           Some app \<Rightarrow> s1\<lparr>im_active_connections_per_app :=
                          decrement_count app (im_active_connections_per_app s1)\<rparr>
         | None \<Rightarrow> s1)"

definition im_drop_ticket :: "ticket \<Rightarrow> in_memory_rate_limit \<Rightarrow> in_memory_rate_limit" where
  "im_drop_ticket t s = im_drop_permit (im_release (fst t) (snd t) s)"

section \<open>RedisRateLimit\<close>

text \<open>
  The commands the code sends to the Redis server, each with its reply: \<open>None\<close> or \<open>False\<close> is an error.
  \<open>rd_get\<close> returns the value read as \<^verbatim>\<open>usize\<close>.
\<close>

record 'r redis =
  rd_get_connection :: "'r \<Rightarrow> bool \<times> 'r"
  rd_keys :: "string \<Rightarrow> 'r \<Rightarrow> string list option \<times> 'r"
  rd_get :: "string \<Rightarrow> 'r \<Rightarrow> nat option \<times> 'r"
  rd_incr :: "string \<Rightarrow> 'r \<Rightarrow> nat option \<times> 'r"
  rd_decr :: "string \<Rightarrow> 'r \<Rightarrow> nat option \<times> 'r"
  rd_set_ex :: "string \<Rightarrow> nat \<Rightarrow> nat \<Rightarrow> 'r \<Rightarrow> bool \<times> 'r"
  rd_del :: "string \<Rightarrow> 'r \<Rightarrow> bool \<times> 'r"

record 'r redis_rate_limit =
  rr_redis :: 'r
  rr_instance_limit :: nat
  rr_per_ip_limit :: nat
  rr_per_app_limit :: "string \<rightharpoonup> nat"
  rr_semaphore :: nat
  rr_key_prefix :: string
  rr_instance_id :: string
  rr_heartbeat_interval :: nat
  rr_heartbeat_ttl :: nat
  rr_background_tasks_started :: bool

definition ip_instance_key :: "'r redis_rate_limit \<Rightarrow> ip_addr \<Rightarrow> string" where
  "ip_instance_key s addr =
     rr_key_prefix s @ '':ip:'' @ show_ip addr @ '':instance:'' @ rr_instance_id s @ '':connections''"

definition app_instance_key :: "'r redis_rate_limit \<Rightarrow> string \<Rightarrow> string" where
  "app_instance_key s app =
     rr_key_prefix s @ '':app:'' @ app @ '':instance:'' @ rr_instance_id s @ '':connections''"

definition instance_heartbeat_key :: "'r redis_rate_limit \<Rightarrow> string" where
  "instance_heartbeat_key s = rr_key_prefix s @ '':instance:'' @ rr_instance_id s @ '':heartbeat''"

text \<open>\<^verbatim>\<open>update_heartbeat\<close> at the system time \<open>now\<close> in seconds; \<open>False\<close> is a Redis error.\<close>

definition update_heartbeat ::
  "'r redis \<Rightarrow> nat \<Rightarrow> 'r redis_rate_limit \<Rightarrow> bool \<times> 'r redis_rate_limit" where
  "update_heartbeat rd now s =
     (case rd_get_connection rd (rr_redis s) of
        (False, r) \<Rightarrow> (False, s\<lparr>rr_redis := r\<rparr>)
      | (True, r) \<Rightarrow>
          (let (ok, r') = rd_set_ex rd (instance_heartbeat_key s) now (rr_heartbeat_ttl s) r
           in (ok, s\<lparr>rr_redis := r'\<rparr>)))"

definition register_instance ::
  "'r redis \<Rightarrow> nat \<Rightarrow> 'r redis_rate_limit \<Rightarrow> bool \<times> 'r redis_rate_limit" where
  "register_instance rd now s = update_heartbeat rd now s"

text \<open>The constructor, once the client is open; a failing registration is only logged.\<close>

definition redis_new ::
  "'r redis \<Rightarrow> nat \<Rightarrow> 'r \<Rightarrow> nat \<Rightarrow> nat \<Rightarrow> (string \<rightharpoonup> nat) \<Rightarrow> string \<Rightarrow> string \<Rightarrow> 'r redis_rate_limit" where
  "redis_new rd now r instance_limit per_ip_limit per_app_limit key_prefix instance_id =
     snd (register_instance rd now
       \<lparr>rr_redis = r, rr_instance_limit = instance_limit, rr_per_ip_limit = per_ip_limit,
        rr_per_app_limit = per_app_limit, rr_semaphore = instance_limit, rr_key_prefix = key_prefix,
        rr_instance_id = instance_id, rr_heartbeat_interval = 10, rr_heartbeat_ttl = 30,
        rr_background_tasks_started = False\<rparr>)"

text \<open>\<^verbatim>\<open>key.split(':').nth(n)\<close>.\<close>

definition key_part :: "nat \<Rightarrow> string \<Rightarrow> string option" where
  "key_part n key = (let parts = split_on CHR '':'' key in
     if n < length parts then Some (parts ! n) else None)"

text \<open>A loop over keys that stops at the first Redis error.\<close>

fun del_keys :: "'r redis \<Rightarrow> string list \<Rightarrow> 'r \<Rightarrow> bool \<times> 'r" where
  "del_keys rd [] r = (True, r)"
| "del_keys rd (k # ks) r =
     (case rd_del rd k r of (False, r') \<Rightarrow> (False, r') | (True, r') \<Rightarrow> del_keys rd ks r')"

definition cleanup_instance ::
  "'r redis \<Rightarrow> 'r redis_rate_limit \<Rightarrow> string \<Rightarrow> 'r \<Rightarrow> bool \<times> 'r" where
  "cleanup_instance rd s instance_id r =
     (case rd_keys rd (rr_key_prefix s @ '':ip:*:instance:'' @ instance_id @ '':connections'') r of
        (None, r1) \<Rightarrow> (False, r1)
      | (Some ip_instance_keys, r1) \<Rightarrow>
          (case rd_keys rd (rr_key_prefix s @ '':app:*:instance:'' @ instance_id @ '':connections'') r1 of
             (None, r2) \<Rightarrow> (False, r2)
           | (Some app_instance_keys, r2) \<Rightarrow>
               (case del_keys rd ip_instance_keys r2 of
                  (False, r3) \<Rightarrow> (False, r3)
                | (True, r3) \<Rightarrow> del_keys rd app_instance_keys r3)))"

text \<open>The loop over the instances found, each visited once, in the order of their first key.\<close>

fun cleanup_instances ::
  "'r redis \<Rightarrow> 'r redis_rate_limit \<Rightarrow> string list \<Rightarrow> string list \<Rightarrow> 'r \<Rightarrow> bool \<times> 'r" where
  "cleanup_instances rd s active [] r = (True, r)"
| "cleanup_instances rd s active (instance_id # rest) r =
     (if instance_id = rr_instance_id s then cleanup_instances rd s active rest r
      else if instance_id \<notin> set active
      then (case cleanup_instance rd s instance_id r of
              (False, r') \<Rightarrow> (False, r')
            | (True, r') \<Rightarrow> cleanup_instances rd s active rest r')
      else cleanup_instances rd s active rest r)"

definition instance_ids :: "string list \<Rightarrow> string list" where
  "instance_ids keys = remdups (List.map_filter (key_part 4) keys)"

definition cleanup_stale_instances ::
  "'r redis \<Rightarrow> 'r redis_rate_limit \<Rightarrow> bool \<times> 'r redis_rate_limit" where
  "cleanup_stale_instances rd s =
     (let (ok, r') =
        (case rd_get_connection rd (rr_redis s) of
           (False, r) \<Rightarrow> (False, r)
         | (True, r) \<Rightarrow>
             (case rd_keys rd (rr_key_prefix s @ '':instance:*:heartbeat'') r of
                (None, r1) \<Rightarrow> (False, r1)
              | (Some instance_heartbeats, r1) \<Rightarrow>
                  (let active = List.map_filter (key_part 2) instance_heartbeats in
                   case rd_keys rd (rr_key_prefix s @ '':ip:*:instance:*:connections'') r1 of
                     (None, r2) \<Rightarrow> (False, r2)
                   | (Some ip_keys, r2) \<Rightarrow>
                       (case rd_keys rd (rr_key_prefix s @ '':app:*:instance:*:connections'') r2 of
                          (None, r3) \<Rightarrow> (False, r3)
                        | (Some app_keys, r3) \<Rightarrow>
                            (case cleanup_instances rd s active (instance_ids ip_keys) r3 of
                               (False, r4) \<Rightarrow> (False, r4)
                             | (True, r4) \<Rightarrow>
                                 cleanup_instances rd s active (instance_ids app_keys) r4)))))
      in (ok, s\<lparr>rr_redis := r'\<rparr>))"

text \<open>One round of the background task; errors are logged and the task goes on.\<close>

definition background_round :: "'r redis \<Rightarrow> nat \<Rightarrow> 'r redis_rate_limit \<Rightarrow> 'r redis_rate_limit" where
  "background_round rd now s = snd (cleanup_stale_instances rd (snd (update_heartbeat rd now s)))"

text \<open>The background task is started by the first acquisition.\<close>

definition start_background_tasks :: "'r redis_rate_limit \<Rightarrow> 'r redis_rate_limit" where
  "start_background_tasks s = s\<lparr>rr_background_tasks_started := True\<rparr>"

text \<open>The sum of the counters, in \<^verbatim>\<open>usize\<close> arithmetic; an unreadable counter is 0.\<close>

fun sum_counts :: "'r redis \<Rightarrow> string list \<Rightarrow> nat \<Rightarrow> 'r \<Rightarrow> nat \<times> 'r" where
  "sum_counts rd [] total_count r = (total_count, r)"
| "sum_counts rd (k # ks) total_count r =
     (let (c, r') = rd_get rd k r
      in sum_counts rd ks ((total_count + (case c of Some n \<Rightarrow> n | None \<Rightarrow> 0)) mod 2 ^ 64) r')"

text \<open>
  One of the two distributed limits: sum the counters of all instances, compare with the limit, and
  increment this instance's counter.
\<close>

definition redis_count ::
  "'r redis \<Rightarrow> string \<Rightarrow> nat \<Rightarrow> string \<Rightarrow> string \<Rightarrow> 'r \<Rightarrow> (rate_limit_error + nat) \<times> 'r" where
  "redis_count rd pattern limit reached key r =
     (case rd_keys rd pattern r of
        (None, r1) \<Rightarrow> (Inl ''Redis operation failed'', r1)
      | (Some keys, r1) \<Rightarrow>
          (let (total_count, r2) = sum_counts rd keys 0 r1 in
           if limit \<le> total_count then (Inl reached, r2)
           else (case rd_incr rd key r2 of
                   (None, r3) \<Rightarrow> (Inl ''Redis operation failed'', r3)
                 | (Some count, r3) \<Rightarrow> (Inr count, r3))))"

definition redis_count_ip ::
  "'r redis \<Rightarrow> 'r redis_rate_limit \<Rightarrow> ip_addr \<Rightarrow> 'r \<Rightarrow> (rate_limit_error + nat) \<times> 'r" where
  "redis_count_ip rd s addr r =
     (if 0 < rr_per_ip_limit s then
        redis_count rd (rr_key_prefix s @ '':ip:'' @ show_ip addr @ '':instance:*:connections'')
          (rr_per_ip_limit s) (''Per-IP connection limit reached for '' @ show_ip addr)
          (ip_instance_key s addr) r
      else (Inr 0, r))"

definition redis_count_app ::
  "'r redis \<Rightarrow> 'r redis_rate_limit \<Rightarrow> string option \<Rightarrow> 'r \<Rightarrow> (rate_limit_error + nat) \<times> 'r" where
  "redis_count_app rd s app r =
     (case app of
        Some app \<Rightarrow>
          redis_count rd (rr_key_prefix s @ '':app:'' @ app @ '':instance:*:connections'')
            (get_or_0 (rr_per_app_limit s) app) (''Per-app connection limit reached for '' @ app)
            (app_instance_key s app) r
      | None \<Rightarrow> (Inr 0, r))"

definition redis_try_acquire ::
  "'r redis \<Rightarrow> ip_addr \<Rightarrow> string option \<Rightarrow> 'r redis_rate_limit
     \<Rightarrow> (rate_limit_error + ticket) \<times> 'r redis_rate_limit" where
  "redis_try_acquire rd addr app s0 =
     (let s = start_background_tasks s0 in
      if rr_semaphore s = 0
      then (Inl ''Maximum connection limit reached for this server instance'', s)
      else
        (case rd_get_connection rd (rr_redis s) of
           (False, r) \<Rightarrow> (Inl ''Redis connection failed'', s\<lparr>rr_redis := r\<rparr>)
         | (True, r) \<Rightarrow>
             (case redis_count_ip rd s addr r of
                (Inl e, r1) \<Rightarrow> (Inl e, s\<lparr>rr_redis := r1\<rparr>)
              | (Inr _, r1) \<Rightarrow>
                  (case redis_count_app rd s app r1 of
                     (Inl e, r2) \<Rightarrow> (Inl e, s\<lparr>rr_redis := r2\<rparr>)
                   | (Inr _, r2) \<Rightarrow>
                       (Inr (addr, app), s\<lparr>rr_redis := r2, rr_semaphore := rr_semaphore s - 1\<rparr>)))))"

definition redis_release ::
  "'r redis \<Rightarrow> ip_addr \<Rightarrow> string option \<Rightarrow> 'r redis_rate_limit \<Rightarrow> 'r redis_rate_limit" where
  "redis_release rd addr app s =
     (case rd_get_connection rd (rr_redis s) of
        (False, r) \<Rightarrow> s\<lparr>rr_redis := r\<rparr>
      | (True, r) \<Rightarrow>
          (let r1 = (if 0 < rr_per_ip_limit s then snd (rd_decr rd (ip_instance_key s addr) r) else r);
               r2 = (case app of Some app \<Rightarrow> snd (rd_decr rd (app_instance_key s app) r1) | None \<Rightarrow> r1)
           in s\<lparr>rr_redis := r2\<rparr>))"

definition redis_drop_ticket ::
  "'r redis \<Rightarrow> ticket \<Rightarrow> 'r redis_rate_limit \<Rightarrow> 'r redis_rate_limit" where
  "redis_drop_ticket rd t s =
     (let s1 = redis_release rd (fst t) (snd t) s in s1\<lparr>rr_semaphore := rr_semaphore s1 + 1\<rparr>)"

section \<open>Open connections\<close>

text \<open>A limiter together with the tickets of the open connections.\<close>

inductive conn_step ::
  "(ip_addr \<Rightarrow> string option \<Rightarrow> 's \<Rightarrow> (rate_limit_error + ticket) \<times> 's) \<Rightarrow> (ticket \<Rightarrow> 's \<Rightarrow> 's)
     \<Rightarrow> 's \<times> ticket list \<Rightarrow> 's \<times> ticket list \<Rightarrow> bool" for acquire drop_ticket where
  conn_open: "acquire addr app s = (Inr t, s') \<Longrightarrow> conn_step acquire drop_ticket (s, ts) (s', t # ts)"
| conn_refused: "acquire addr app s = (Inl e, s') \<Longrightarrow> conn_step acquire drop_ticket (s, ts) (s', ts)"
| conn_close: "t \<in> set ts \<Longrightarrow> conn_step acquire drop_ticket (s, ts) (drop_ticket t s, remove1 t ts)"

inductive_cases conn_stepE: "conn_step acquire drop_ticket (s, ts) st"

locale rate_limit =
  fixes acquire :: "ip_addr \<Rightarrow> string option \<Rightarrow> 's \<Rightarrow> (rate_limit_error + ticket) \<times> 's"
    and drop_ticket :: "ticket \<Rightarrow> 's \<Rightarrow> 's"
    and permits :: "'s \<Rightarrow> nat"
  assumes acquire_ok: "acquire addr app s = (Inr t, s') \<Longrightarrow> t = (addr, app) \<and> permits s = Suc (permits s')"
    and acquire_refused: "acquire addr app s = (Inl e, s') \<Longrightarrow> permits s' = permits s"
    and drop_returns: "permits (drop_ticket t s) = Suc (permits s)"
begin

lemma permits_conserved:
  assumes "conn_step acquire drop_ticket (s, ts) (s', ts')"
  shows "permits s' + length ts' = permits s + length ts"
proof -
  have "length (remove1 t ts) + 1 = length ts" if "t \<in> set ts" for t
    using that length_pos_if_in_set [OF that] by (simp add: length_remove1)
  then show ?thesis
    using assms by (cases rule: conn_stepE) (auto dest: acquire_ok acquire_refused simp: drop_returns)
qed

sublocale permits: invariant_system "\<lambda>(s, ts). permits s = n \<and> ts = []"
  "conn_step acquire drop_ticket" "\<lambda>(s, ts). permits s + length ts = n" for n
  by unfold_locales (auto dest: permits_conserved)

end

section \<open>Both limiters conserve permits\<close>

lemma im_count_ip_semaphore: "im_count_ip addr s = (r, s') \<Longrightarrow> im_semaphore s' = im_semaphore s"
  by (auto simp: im_count_ip_def Let_def split: if_splits)

lemma im_count_app_semaphore: "im_count_app app s = (r, s') \<Longrightarrow> im_semaphore s' = im_semaphore s"
  by (auto simp: im_count_app_def Let_def split: option.splits if_splits)

interpretation im: rate_limit im_try_acquire im_drop_ticket im_semaphore
proof
  fix addr app s t s'
  assume "im_try_acquire addr app s = (Inr t, s')"
  then show "t = (addr, app) \<and> im_semaphore s = Suc (im_semaphore s')"
    by (auto simp: im_try_acquire_def dest!: im_count_ip_semaphore im_count_app_semaphore
        split: if_splits prod.splits sum.splits)
next
  fix addr app s e s'
  assume "im_try_acquire addr app s = (Inl e, s')"
  then show "im_semaphore s' = im_semaphore s"
    by (auto simp: im_try_acquire_def im_drop_permit_def
        dest!: im_count_ip_semaphore im_count_app_semaphore split: if_splits prod.splits sum.splits)
next
  fix t s
  show "im_semaphore (im_drop_ticket t s) = Suc (im_semaphore s)"
    by (simp add: im_drop_ticket_def im_drop_permit_def im_release_def Let_def split: option.splits)
qed

interpretation rr: rate_limit "redis_try_acquire rd" "redis_drop_ticket rd" rr_semaphore for rd
proof
  fix addr app t and s s' :: "'a redis_rate_limit"
  assume "redis_try_acquire rd addr app s = (Inr t, s')"
  then show "t = (addr, app) \<and> rr_semaphore s = Suc (rr_semaphore s')"
    by (auto simp: redis_try_acquire_def start_background_tasks_def Let_def
        split: if_splits prod.splits sum.splits bool.splits)
next
  fix addr app e and s s' :: "'a redis_rate_limit"
  assume "redis_try_acquire rd addr app s = (Inl e, s')"
  then show "rr_semaphore s' = rr_semaphore s"
    by (auto simp: redis_try_acquire_def start_background_tasks_def Let_def
        split: if_splits prod.splits sum.splits bool.splits)
next
  fix t and s :: "'a redis_rate_limit"
  show "rr_semaphore (redis_drop_ticket rd t s) = Suc (rr_semaphore s)"
    by (simp add: redis_drop_ticket_def redis_release_def Let_def split: prod.splits bool.splits)
qed

text \<open>
  C20: the instance limit holds for both limiters. Whatever sequence of connection attempts and
  disconnections happens, and whatever the Redis server answers, the open connections and the free
  permits add up to the instance limit; in particular there are never more connections than that.
\<close>

theorem instance_limit_holds:
  "(reach (\<lambda>(s, ts). im_semaphore s = n \<and> ts = []) (conn_step im_try_acquire im_drop_ticket) (s, ts) \<longrightarrow>
      im_semaphore s + length ts = n) \<and>
   (reach (\<lambda>(s, ts). rr_semaphore s = n \<and> ts = [])
        (conn_step (redis_try_acquire rd) (redis_drop_ticket rd)) (r, us) \<longrightarrow>
      rr_semaphore r + length us = n)"
  using im.permits.reach_inv [of n "(s, ts)"] rr.permits.reach_inv [of n rd "(r, us)"] by auto

theorem instance_limit_holds_witness:
  "im_semaphore (snd (im_try_acquire (V4 1) None (in_memory_new 1 1 Map.empty))) + length [(V4 1, None :: string option)] = 1"
proof -
  let ?new = "in_memory_new 1 1 Map.empty"
  have a: "im_try_acquire (V4 1) None ?new = (Inr (V4 1, None), snd (im_try_acquire (V4 1) None ?new))"
    by (simp add: im_try_acquire_def im_count_ip_def im_count_app_def in_memory_new_def get_or_0_def)
  have "reach (\<lambda>(s, ts). im_semaphore s = 1 \<and> ts = []) (conn_step im_try_acquire im_drop_ticket)
      (?new, [])"
    by (rule reach_init) (simp add: in_memory_new_def)
  then have "reach (\<lambda>(s, ts). im_semaphore s = 1 \<and> ts = []) (conn_step im_try_acquire im_drop_ticket)
      (snd (im_try_acquire (V4 1) None ?new), [(V4 1, None)])"
    by (rule reach_step) (rule conn_open, rule a)
  then show ?thesis
    using instance_limit_holds [of 1 "snd (im_try_acquire (V4 1) None ?new)" "[(V4 1, None)]"] by blast
qed

section \<open>The in-memory counters\<close>

lemma get_or_0_upd [simp]: "get_or_0 (m(k \<mapsto> n)) j = (if j = k then n else get_or_0 m j)"
  by (simp add: get_or_0_def)

lemma get_or_0_empty [simp]: "get_or_0 Map.empty k = 0"
  by (simp add: get_or_0_def)

lemma get_or_0_decrement [simp]:
  "get_or_0 (decrement_count k m) j = (if j = k then get_or_0 m k - 1 else get_or_0 m j)"
  by (auto simp: decrement_count_def get_or_0_def Let_def split: option.splits)

definition live_ip :: "ip_addr \<Rightarrow> ticket list \<Rightarrow> nat" where
  "live_ip a ts = length (filter (\<lambda>t. fst t = a) ts)"

definition live_app :: "string \<Rightarrow> ticket list \<Rightarrow> nat" where
  "live_app p ts = length (filter (\<lambda>t. snd t = Some p) ts)"

lemma live_Cons [simp]:
  "live_ip a (t # ts) = live_ip a ts + (if fst t = a then 1 else 0)"
  "live_app p (t # ts) = live_app p ts + (if snd t = Some p then 1 else 0)"
  by (simp_all add: live_ip_def live_app_def)

lemma length_filter_remove1:
  "t \<in> set ts \<Longrightarrow> length (filter P (remove1 t ts)) + (if P t then 1 else 0) = length (filter P ts)"
  by (induction ts) auto

lemma live_remove1:
  assumes "t \<in> set ts"
  shows "live_ip a (remove1 t ts) + (if fst t = a then 1 else 0) = live_ip a ts"
    "live_app p (remove1 t ts) + (if snd t = Some p then 1 else 0) = live_app p ts"
  using assms length_filter_remove1 [OF assms, of "\<lambda>t. fst t = a"]
    length_filter_remove1 [OF assms, of "\<lambda>t. snd t = Some p"]
  by (simp_all add: live_ip_def live_app_def)

text \<open>Every address is counted at least as often as it is connected; applications are counted exactly.\<close>

definition counters_ok :: "in_memory_rate_limit \<Rightarrow> ticket list \<Rightarrow> bool" where
  "counters_ok s ts \<longleftrightarrow>
     (0 < im_per_ip_limit s \<longrightarrow>
       (\<forall>a. live_ip a ts \<le> get_or_0 (im_active_connections_per_ip s) a \<and>
            get_or_0 (im_active_connections_per_ip s) a \<le> im_per_ip_limit s)) \<and>
     (\<forall>p. get_or_0 (im_active_connections_per_app s) p = live_app p ts \<and>
          live_app p ts \<le> get_or_0 (im_per_app_limit s) p)"

lemma im_try_acquire_limits:
  assumes "im_try_acquire addr app s = (r, s')"
  shows "im_per_ip_limit s' = im_per_ip_limit s" "im_per_app_limit s' = im_per_app_limit s"
  using assms
  by (auto simp: im_try_acquire_def im_count_ip_def im_count_app_def im_drop_permit_def Let_def
      split: if_splits option.splits)

lemma im_drop_ticket_sel [simp]:
  "im_per_ip_limit (im_drop_ticket t s) = im_per_ip_limit s"
  "im_per_app_limit (im_drop_ticket t s) = im_per_app_limit s"
  "im_active_connections_per_ip (im_drop_ticket t s) =
     (if 0 < im_per_ip_limit s then decrement_count (fst t) (im_active_connections_per_ip s)
      else im_active_connections_per_ip s)"
  "im_active_connections_per_app (im_drop_ticket t s) =
     (case snd t of Some p \<Rightarrow> decrement_count p (im_active_connections_per_app s)
      | None \<Rightarrow> im_active_connections_per_app s)"
  by (simp_all add: im_drop_ticket_def im_drop_permit_def im_release_def Let_def split: option.splits)

lemma counters_ok_open:
  assumes "im_try_acquire addr app s = (Inr t, s')" "counters_ok s ts"
  shows "counters_ok s' (t # ts)"
  using assms
  by (auto simp: counters_ok_def im_try_acquire_def im_count_ip_def im_count_app_def Let_def
      split: if_splits option.splits)

lemma counters_ok_refused:
  assumes "im_try_acquire addr app s = (Inl e, s')" "counters_ok s ts"
  shows "counters_ok s' ts"
  using assms
  by (auto simp: counters_ok_def im_try_acquire_def im_count_ip_def im_count_app_def im_drop_permit_def
      Let_def le_SucI split: if_splits option.splits)

lemma counters_ok_close:
  assumes "counters_ok s ts" "t \<in> set ts"
  shows "counters_ok (im_drop_ticket t s) (remove1 t ts)"
proof -
  have ip: "live_ip a (remove1 t ts) = live_ip a ts - (if fst t = a then 1 else 0)" for a
    using live_remove1(1) [OF assms(2), of a] by simp
  have app: "live_app p (remove1 t ts) = live_app p ts - (if snd t = Some p then 1 else 0)" for p
    using live_remove1(2) [OF assms(2), of p] by simp
  show ?thesis
    using assms(1) unfolding counters_ok_def ip app
    by (auto simp: diff_le_mono le_diff_conv intro: le_trans split: option.splits)
qed

interpretation counters: invariant_system
  "\<lambda>(s, ts). s = in_memory_new n l m \<and> ts = []"
  "conn_step im_try_acquire im_drop_ticket"
  "\<lambda>(s, ts). counters_ok s ts \<and> im_per_ip_limit s = l \<and> im_per_app_limit s = m" for n l m
proof
  fix st :: "in_memory_rate_limit \<times> ticket list"
  assume "case st of (s, ts) \<Rightarrow> s = in_memory_new n l m \<and> ts = []"
  then show "case st of (s, ts) \<Rightarrow> counters_ok s ts \<and> im_per_ip_limit s = l \<and> im_per_app_limit s = m"
    by (auto simp: in_memory_new_def counters_ok_def live_ip_def live_app_def)
next
  fix st st' :: "in_memory_rate_limit \<times> ticket list"
  assume "conn_step im_try_acquire im_drop_ticket st st'"
    and "case st of (s, ts) \<Rightarrow> counters_ok s ts \<and> im_per_ip_limit s = l \<and> im_per_app_limit s = m"
  then show "case st' of (s, ts) \<Rightarrow> counters_ok s ts \<and> im_per_ip_limit s = l \<and> im_per_app_limit s = m"
    by cases (auto dest: im_try_acquire_limits counters_ok_open counters_ok_refused
        intro: counters_ok_close)
qed

text \<open>
  C19: the in-memory limiter enforces its limits. In every state reachable by connection attempts and
  disconnections, no address has more open connections than the address limit (when there is one), no
  application more than its limit (0 if it has none), and the application counters are exact.
\<close>

theorem in_memory_limits_hold:
  assumes "reach (\<lambda>(s, ts). s = in_memory_new n l m \<and> ts = [])
      (conn_step im_try_acquire im_drop_ticket) (s, ts)"
  shows "(0 < l \<longrightarrow> live_ip a ts \<le> l) \<and> live_app p ts \<le> get_or_0 m p \<and>
    get_or_0 (im_active_connections_per_app s) p = live_app p ts"
proof -
  have "counters_ok s ts \<and> im_per_ip_limit s = l \<and> im_per_app_limit s = m"
    using counters.reach_inv [OF assms] by simp
  then show ?thesis unfolding counters_ok_def by (auto intro: le_trans)
qed

theorem in_memory_limits_hold_witness:
  "live_ip (V4 1) [(V4 1, Some ''a'')] \<le> 2 \<and> live_app ''a'' [(V4 1, Some ''a'')] \<le> 3 \<and>
   get_or_0 (im_active_connections_per_app
     (snd (im_try_acquire (V4 1) (Some ''a'') (in_memory_new 5 2 [''a'' \<mapsto> 3])))) ''a'' = 1"
proof -
  let ?new = "in_memory_new 5 2 [''a'' \<mapsto> 3]" and ?t = "(V4 1, Some ''a'')"
  let ?s = "snd (im_try_acquire (V4 1) (Some ''a'') ?new)"
  have a: "im_try_acquire (V4 1) (Some ''a'') ?new = (Inr ?t, ?s)"
    by (simp add: im_try_acquire_def im_count_ip_def im_count_app_def in_memory_new_def)
  have "reach (\<lambda>(s, ts). s = ?new \<and> ts = []) (conn_step im_try_acquire im_drop_ticket) (?new, [])"
    by (rule reach_init) simp
  then have "reach (\<lambda>(s, ts). s = ?new \<and> ts = []) (conn_step im_try_acquire im_drop_ticket) (?s, [?t])"
    by (rule reach_step) (rule conn_open, rule a)
  from in_memory_limits_hold [OF this, of "V4 1" "''a''"] show ?thesis
    by (simp add: live_ip_def live_app_def)
qed

section \<open>The address counter after a refusal\<close>

definition app_full :: "string \<Rightarrow> in_memory_rate_limit \<Rightarrow> bool" where
  "app_full p s \<longleftrightarrow> get_or_0 (im_per_app_limit s) p \<le> get_or_0 (im_active_connections_per_app s) p"

lemma attempt_on_full_app:
  fixes s a p
  assumes "0 < im_per_ip_limit s" "0 < im_semaphore s" "app_full p s"
  defines "s' \<equiv> snd (im_try_acquire a (Some p) s)"
  shows "isl (fst (im_try_acquire a (Some p) s))"
    and "im_per_ip_limit s' = im_per_ip_limit s" "im_semaphore s' = im_semaphore s" "app_full p s'"
    and "min (im_per_ip_limit s) (Suc (get_or_0 (im_active_connections_per_ip s) a))
      \<le> get_or_0 (im_active_connections_per_ip s') a"
  using assms
  by (auto simp: s'_def app_full_def im_try_acquire_def im_count_ip_def im_count_app_def
      im_drop_permit_def Let_def)

lemma attempts_on_full_app:
  fixes s a p
  assumes "0 < im_per_ip_limit s" "0 < im_semaphore s" "app_full p s"
  defines "s' k \<equiv> ((\<lambda>s. snd (im_try_acquire a (Some p) s)) ^^ k) s"
  shows "im_per_ip_limit (s' k) = im_per_ip_limit s \<and> im_semaphore (s' k) = im_semaphore s \<and>
    app_full p (s' k) \<and> min (im_per_ip_limit s) k \<le> get_or_0 (im_active_connections_per_ip (s' k)) a"
proof (induction k)
  case 0
  then show ?case using assms by (simp add: s'_def)
next
  case (Suc k)
  have "s' (Suc k) = snd (im_try_acquire a (Some p) (s' k))" by (simp add: s'_def)
  with Suc attempt_on_full_app [of "s' k" p a] assms(1,2) show ?case by auto
qed

lemma ip_limit_refuses:
  "0 < im_per_ip_limit s \<Longrightarrow> 0 < im_semaphore s \<Longrightarrow>
   im_per_ip_limit s \<le> get_or_0 (im_active_connections_per_ip s) a \<Longrightarrow>
   fst (im_try_acquire a q s) = Inl ''IP limit exceeded''"
  by (simp add: im_try_acquire_def im_count_ip_def Let_def)

text \<open>
  C24: refused attempts lock an address out. When an application has reached its limit, each attempt of
  an address with that application's key is refused, and still adds one to the count of the address.
  After as many attempts as the address limit, without any connection having been opened, every
  further attempt from that address is refused, with any key or none.
\<close>

theorem refused_attempts_lock_out_address:
  assumes "0 < im_per_ip_limit s" and "0 < im_semaphore s" and "app_full p s"
  shows "(\<forall>k. isl (fst (im_try_acquire a (Some p)
            (((\<lambda>s. snd (im_try_acquire a (Some p) s)) ^^ k) s)))) \<and>
    fst (im_try_acquire a q
      (((\<lambda>s. snd (im_try_acquire a (Some p) s)) ^^ im_per_ip_limit s) s)) = Inl ''IP limit exceeded''"
proof -
  note att = attempts_on_full_app [OF assms, where a = a]
  have "isl (fst (im_try_acquire a (Some p) (((\<lambda>s. snd (im_try_acquire a (Some p) s)) ^^ k) s)))" for k
    using att [of k] assms(1,2) by (intro attempt_on_full_app(1)) simp_all
  moreover have "fst (im_try_acquire a q
      (((\<lambda>s. snd (im_try_acquire a (Some p) s)) ^^ im_per_ip_limit s) s)) = Inl ''IP limit exceeded''"
    using att [of "im_per_ip_limit s"] assms(1,2) by (intro ip_limit_refuses) simp_all
  ultimately show ?thesis by blast
qed

theorem refused_attempts_lock_out_address_witness:
  "fst (im_try_acquire (V4 1) None
      (((\<lambda>s. snd (im_try_acquire (V4 1) (Some ''app'') s)) ^^ 2) (in_memory_new 10 2 [''app'' \<mapsto> 0])))
     = Inl ''IP limit exceeded''"
  using refused_attempts_lock_out_address
    [of "in_memory_new 10 2 [''app'' \<mapsto> 0]" "''app''" "V4 1" None]
  by (simp add: in_memory_new_def app_full_def)

section \<open>Keys of other instances\<close>

lemma set_join_with: "set (join_with c ps) \<subseteq> insert c (\<Union> (set ` set ps))"
  by (induction c ps rule: join_with.induct) auto

text \<open>Addresses are displayed with hexadecimal digits, dots and colons only.\<close>

lemma digit_char_no_sep: "n < 16 \<Longrightarrow> digit_char n \<notin> {CHR '':'', CHR ''-''}"
proof
  assume "n < 16" "digit_char n \<in> {CHR '':'', CHR ''-''}"
  then have "(of_char (digit_char n) :: nat) \<in> {of_char CHR '':'', of_char CHR ''-''}" by auto
  with \<open>n < 16\<close> show False by (auto simp: digit_char_def split: if_splits)
qed

lemma show_base_no_sep:
  "1 < b \<Longrightarrow> b \<le> 16 \<Longrightarrow> CHR '':'' \<notin> set (show_base b n) \<and> CHR ''-'' \<notin> set (show_base b n)"
proof (induction b n rule: show_base.induct)
  case (1 b n)
  then show ?case
    using digit_char_no_sep [of n] digit_char_no_sep [of "n mod b"] mod_less_divisor [of b n]
    by (subst (1 2) show_base.simps) (auto simp del: mod_less_divisor)
qed

lemma show_ipv4_no_sep: "CHR '':'' \<notin> set (show_ipv4 w) \<and> CHR ''-'' \<notin> set (show_ipv4 w)"
proof -
  have "set (show_ipv4 w) \<subseteq> insert CHR ''.'' (\<Union>n. set (show_base 10 n))"
    using set_join_with [of "CHR ''.''"
        "map (\<lambda>k. show_base 10 (unat (drop_bit (8 * k) w) mod 256)) [3, 2, 1, 0]"]
    by (auto simp: show_ipv4_def)
  then show ?thesis using show_base_no_sep [of 10] by auto
qed

lemma fmt_subslice_no_dash: "CHR ''-'' \<notin> set (fmt_subslice xs)"
proof -
  have "set (fmt_subslice xs) \<subseteq> insert CHR '':'' (\<Union>n. set (show_base 16 n))"
    using set_join_with [of "CHR '':''" "map (show_base 16) xs"] by (auto simp: fmt_subslice_def)
  then show ?thesis using show_base_no_sep [of 16] by auto
qed

lemma show_ipv6_no_dash: "CHR ''-'' \<notin> set (show_ipv6 w)"
  using fmt_subslice_no_dash show_ipv4_no_sep
  by (auto simp: show_ipv6_def Let_def split: prod.splits)

text \<open>The text of an IPv6 address has at least two colons.\<close>

lemma show_ipv6_pieces: "3 \<le> length (split_on CHR '':'' (show_ipv6 w))"
proof -
  have "split_on CHR '':'' (fmt_subslice (segments w)) = map (show_base 16) (segments w)"
    unfolding fmt_subslice_def
    by (rule split_join) (use show_base_no_sep [of 16] in \<open>auto simp: segments_def\<close>)
  then have full: "length (split_on CHR '':'' (fmt_subslice (segments w))) = 8"
    by (simp add: segments_def)
  have short: "3 \<le> length (split_on CHR '':'' (xs @ ''::'' @ ys))" for xs ys
  proof -
    have "length (split_on CHR '':'' (xs @ ''::'' @ ys)) =
        length (split_on CHR '':'' xs) + Suc (length (split_on CHR '':'' ys))"
      by (simp add: split_on_append)
    then show ?thesis
      using length_split_on_pos [of "CHR '':''" xs] length_split_on_pos [of "CHR '':''" ys] by linarith
  qed
  have mapped: "3 \<le> length (split_on CHR '':'' (''::ffff:'' @ xs))" for xs
    using short [of "[]" "''ffff:'' @ xs"] by simp
  show ?thesis
    unfolding show_ipv6_def Let_def using full short mapped by (simp split: prod.splits)
qed

lemma ip_instance_key_pieces:
  assumes "CHR '':'' \<notin> set (rr_key_prefix s)" "CHR '':'' \<notin> set (rr_instance_id s)"
  shows "split_on CHR '':'' (ip_instance_key s addr) =
    rr_key_prefix s # ''ip'' # split_on CHR '':'' (show_ip addr) @
      [''instance'', rr_instance_id s, ''connections'']"
proof -
  let ?c = "CHR '':''"
  have "ip_instance_key s addr = rr_key_prefix s @ ?c # ''ip'' @ ?c # show_ip addr @ ?c # ''instance'' @
      ?c # rr_instance_id s @ ?c # ''connections''"
    by (simp add: ip_instance_key_def)
  then show ?thesis
    using assms by (simp only: split_on_append) (simp add: split_on_no_sep)
qed

text \<open>
  The instance id in a counter key is found for IPv4 addresses and never for IPv6. The cleanup of
  stale instances reads the owner of a counter as the fifth part of its key between colons. With a
  prefix without colons and an instance id like a UUID (dashes and no colons), this is the owner when
  the address is IPv4; when it is IPv6 it is a part of the address instead, so that an instance whose
  connections are all from IPv6 addresses is never recognised as stale and its counters stay.
\<close>

theorem stale_owner_found_only_for_ipv4:
  assumes "CHR '':'' \<notin> set (rr_key_prefix s)" and "CHR '':'' \<notin> set (rr_instance_id s)"
    and "CHR ''-'' \<in> set (rr_instance_id s)"
  shows "instance_ids [ip_instance_key s (V4 v)] = [rr_instance_id s] \<and>
    rr_instance_id s \<notin> set (instance_ids (map (ip_instance_key s \<circ> V6) ws))"
proof -
  have v4: "key_part 4 (ip_instance_key s (V4 v)) = Some (rr_instance_id s)"
    using ip_instance_key_pieces [OF assms(1,2), of "V4 v"] show_ipv4_no_sep [of v]
    by (simp add: key_part_def Let_def split_on_no_sep)
  have v6: "key_part 4 (ip_instance_key s (V6 w)) \<noteq> Some (rr_instance_id s)" for w
  proof -
    let ?ps = "split_on CHR '':'' (show_ipv6 w)"
    have len: "2 < length ?ps" using show_ipv6_pieces [of w] by simp
    then have "key_part 4 (ip_instance_key s (V6 w)) = Some (?ps ! 2)"
      using ip_instance_key_pieces [OF assms(1,2), of "V6 w"]
      by (simp add: key_part_def Let_def nth_append numeral_eq_Suc)
    moreover have "CHR ''-'' \<notin> set (?ps ! 2)"
      using show_ipv6_no_dash [of w] split_on_subset [of "?ps ! 2" "CHR '':''" "show_ipv6 w"] len
      by auto
    ultimately show ?thesis using assms(3) by auto
  qed
  show ?thesis using v4 v6 by (auto simp: instance_ids_def List.map_filter_def)
qed

definition sample_redis_limit :: "unit redis_rate_limit" where
  "sample_redis_limit =
     \<lparr>rr_redis = (), rr_instance_limit = 10, rr_per_ip_limit = 2, rr_per_app_limit = Map.empty,
      rr_semaphore = 10, rr_key_prefix = ''flashblocks'', rr_instance_id = ''1f0c-42aa'',
      rr_heartbeat_interval = 10, rr_heartbeat_ttl = 30, rr_background_tasks_started = False\<rparr>"

theorem stale_owner_found_only_for_ipv4_witness:
  "instance_ids [ip_instance_key sample_redis_limit (V4 1)] = [''1f0c-42aa''] \<and>
   ''1f0c-42aa'' \<notin> set (instance_ids (map (ip_instance_key sample_redis_limit \<circ> V6) [1, 2]))"
  using stale_owner_found_only_for_ipv4 [of sample_redis_limit 1 "[1, 2]"]
  by (simp add: sample_redis_limit_def)

end
