(* ===== verification/Ws_Auth.thy ===== *)
theory Ws_Auth
  imports Rate_Limit
begin

text \<open>
  API keys of the websocket proxy (\<^verbatim>\<open>websocket-proxy/src/auth.rs\<close>): parsing of the
  \<^verbatim>\<open>app:key:limit\<close> arguments, and the two lookups. Parsing ends in a value, an error or, for a limit
  that is not a number, a panic.
\<close>

section \<open>Definitions\<close>

record authentication =
  key_to_application :: "string \<rightharpoonup> string"
  app_to_rate_limit :: "string \<rightharpoonup> nat"

datatype authentication_parse_error =
    NoData
  | MissingApplicationArgument string
  | MissingAPIKeyArgument string
  | MissingRateLimitArgument string
  | TooManyComponents string
  | DuplicateApplicationArgument string
  | DuplicateAPIKeyArgument string

datatype auth_outcome = AuthOk authentication | AuthErr authentication_parse_error | AuthPanic

fun show_parse_error :: "authentication_parse_error \<Rightarrow> string" where
  "show_parse_error NoData = ''No API Keys Provided''"
| "show_parse_error (MissingApplicationArgument arg) = ''Missing application argument: ['' @ arg @ '']''"
| "show_parse_error (MissingAPIKeyArgument app) = ''Missing API Key argument: ['' @ app @ '']''"
| "show_parse_error (MissingRateLimitArgument app) = ''Missing rate limit argument: ['' @ app @ '']''"
| "show_parse_error (TooManyComponents app) = ''Too many components: ['' @ app @ '']''"
| "show_parse_error (DuplicateApplicationArgument app) = ''Duplicate application argument: ['' @ app @ '']''"
| "show_parse_error (DuplicateAPIKeyArgument app) = ''Duplicate API key: ['' @ app @ '']''"

text \<open>The components of one argument: the successive calls of \<^verbatim>\<open>parts.next()\<close> and \<^verbatim>\<open>parts.count()\<close>.\<close>

definition parse_arg :: "string \<Rightarrow> authentication_parse_error + string \<times> string \<times> string" where
  "parse_arg arg =
     (case split_on CHR '':'' arg of
        [] \<Rightarrow> Inl (MissingApplicationArgument arg)
      | app # parts \<Rightarrow>
          if app = [] then Inl (MissingApplicationArgument arg)
          else (case parts of
             [] \<Rightarrow> Inl (MissingAPIKeyArgument app)
           | key # parts \<Rightarrow>
               if key = [] then Inl (MissingAPIKeyArgument app)
               else (case parts of
                  [] \<Rightarrow> Inl (MissingRateLimitArgument app)
                | limit # parts \<Rightarrow>
                    if limit = [] then Inl (MissingRateLimitArgument app)
                    else if 0 < length parts then Inl (TooManyComponents app)
                    else Inr (app, key, limit))))"

fun try_from_loop ::
  "string list \<Rightarrow> string set \<Rightarrow> authentication \<Rightarrow> auth_outcome" where
  "try_from_loop [] applications auth = AuthOk auth"
| "try_from_loop (arg # args) applications auth =
     (case parse_arg arg of
        Inl e \<Rightarrow> AuthErr e
      | Inr (app, key, limit) \<Rightarrow>
          if app \<in> applications then AuthErr (DuplicateApplicationArgument app)
          else if key \<in> dom (key_to_application auth) then AuthErr (DuplicateAPIKeyArgument app)
          else
            (case parse_usize limit of
               None \<Rightarrow> AuthPanic
             | Some n \<Rightarrow>
                 try_from_loop args (insert app applications)
                   \<lparr>key_to_application = (key_to_application auth)(key \<mapsto> app),
                    app_to_rate_limit = (app_to_rate_limit auth)(app \<mapsto> n)\<rparr>))"

definition authentication_none :: authentication where
  "authentication_none = \<lparr>key_to_application = Map.empty, app_to_rate_limit = Map.empty\<rparr>"

definition authentication_try_from :: "string list \<Rightarrow> auth_outcome" where
  "authentication_try_from args =
     (if args = [] then AuthErr NoData else try_from_loop args {} authentication_none)"

definition authentication_new :: "(string \<rightharpoonup> string) \<Rightarrow> (string \<rightharpoonup> nat) \<Rightarrow> authentication" where
  "authentication_new api_keys limits =
     \<lparr>key_to_application = api_keys, app_to_rate_limit = limits\<rparr>"

definition get_application_for_key :: "authentication \<Rightarrow> string \<Rightarrow> string option" where
  "get_application_for_key auth api_key = key_to_application auth api_key"

definition get_rate_limits :: "authentication \<Rightarrow> string \<rightharpoonup> nat" where
  "get_rate_limits auth = app_to_rate_limit auth"

lemma parse_usize_show: "n < 2 ^ 64 \<Longrightarrow> parse_usize (show_base 10 n) = Some n"
proof -
  assume n: "n < 2 ^ 64"
  obtain d where d: "d < 10" "hd (show_base 10 n) = digit_char d" using hd_show_base [of 10 n] by auto
  have "digit_char d \<noteq> CHR ''+''"
  proof
    assume "digit_char d = CHR ''+''"
    then have "digit_value (digit_char d) = digit_value CHR ''+''" by simp
    with d show False by (simp add: digit_value_digit_char) (simp add: digit_value_def)
  qed
  with d n show ?thesis
    using parse_digits_show [OF n]
    by (cases "show_base 10 n") (auto simp: parse_usize_def simp del: parse_digits.simps)
qed

section \<open>Round trip\<close>

definition render_arg :: "string \<times> string \<times> nat \<Rightarrow> string" where
  "render_arg e = (case e of (app, key, n) \<Rightarrow> app @ '':'' @ key @ '':'' @ show_base 10 n)"

definition good_entry :: "string \<times> string \<times> nat \<Rightarrow> bool" where
  "good_entry e = (case e of (app, key, n) \<Rightarrow>
     app \<noteq> [] \<and> key \<noteq> [] \<and> CHR '':'' \<notin> set app \<and> CHR '':'' \<notin> set key \<and> n < 2 ^ 64)"

lemma parse_arg_render:
  "good_entry (app, key, n) \<Longrightarrow> parse_arg (render_arg (app, key, n)) = Inr (app, key, show_base 10 n)"
  using show_base_no_sep [of 10 n]
  by (simp add: good_entry_def render_arg_def parse_arg_def split_on_append_sep split_on_no_sep)

lemma try_from_loop_render:
  assumes "\<forall>e \<in> set es. good_entry e" "distinct (map fst es)" "distinct (map (fst \<circ> snd) es)"
    and "\<forall>e \<in> set es. fst e \<notin> A \<and> fst (snd e) \<notin> dom (key_to_application auth)"
  shows "try_from_loop (map render_arg es) A auth =
    AuthOk \<lparr>key_to_application =
              key_to_application auth ++ map_of (map (\<lambda>(app, key, n). (key, app)) es),
            app_to_rate_limit =
              app_to_rate_limit auth ++ map_of (map (\<lambda>(app, key, n). (app, n)) es)\<rparr>"
  using assms
proof (induction es arbitrary: A auth)
  case (Cons e es)
  obtain app key n where e: "e = (app, key, n)" by (cases e)
  let ?auth = "\<lparr>key_to_application = (key_to_application auth)(key \<mapsto> app),
                app_to_rate_limit = (app_to_rate_limit auth)(app \<mapsto> n)\<rparr>"
  have fresh: "app \<notin> fst ` set es" "key \<notin> (fst \<circ> snd) ` set es" using Cons.prems e by auto
  have apart: "\<forall>e \<in> set es. fst e \<notin> insert app A \<and> fst (snd e) \<notin> dom (key_to_application ?auth)"
  proof
    fix e' assume e': "e' \<in> set es"
    then have "fst e' \<noteq> app" "fst (snd e') \<noteq> key" using fresh by force+
    with e' Cons.prems(4) show
      "fst e' \<notin> insert app A \<and> fst (snd e') \<notin> dom (key_to_application ?auth)" by simp
  qed
  have "n < 2 ^ 64" using Cons.prems(1) e by (simp add: good_entry_def)
  then have "try_from_loop (map render_arg (e # es)) A auth =
      try_from_loop (map render_arg es) (insert app A) ?auth"
    using Cons.prems e by (simp add: parse_arg_render parse_usize_show)
  also have "\<dots> = AuthOk \<lparr>key_to_application =
       key_to_application ?auth ++ map_of (map (\<lambda>(app, key, n). (key, app)) es),
      app_to_rate_limit = app_to_rate_limit ?auth ++ map_of (map (\<lambda>(app, key, n). (app, n)) es)\<rparr>"
    using Cons.prems by (intro Cons.IH [OF _ _ _ apart]) (auto simp: e)
  finally have *: "try_from_loop (map render_arg (e # es)) A auth = \<dots>" .
  have "fst ` set (map (\<lambda>(app, key, n). (key, app)) es) = (fst \<circ> snd) ` set es"
    "fst ` set (map (\<lambda>(app, key, n). (app, n)) es) = fst ` set es"
    by (force simp: image_iff)+
  then have "key \<notin> dom (map_of (map (\<lambda>(app, key, n). (key, app)) es))"
    "app \<notin> dom (map_of (map (\<lambda>(app, key, n). (app, n)) es))"
    using fresh by (simp_all only: dom_map_of_conv_image_fst not_False_eq_True)
  then show ?case unfolding * by (auto simp: e map_add_def fun_eq_iff split: option.splits)
qed simp

text \<open>
  Well-formed key arguments are read back exactly. For distinct applications and distinct keys,
  nonempty and without colons, and limits that fit 64 bits, parsing the printed arguments succeeds, and
  the two lookups then know exactly these keys and limits.
\<close>

theorem parse_of_rendered_keys:
  assumes "es \<noteq> []" and "\<forall>e \<in> set es. good_entry e"
    and "distinct (map fst es)" and "distinct (map (fst \<circ> snd) es)"
  shows "\<exists>auth. authentication_try_from (map render_arg es) = AuthOk auth \<and>
    (\<forall>key app. get_application_for_key auth key = Some app \<longleftrightarrow> (\<exists>n. (app, key, n) \<in> set es)) \<and>
    (\<forall>app n. get_rate_limits auth app = Some n \<longleftrightarrow> (\<exists>key. (app, key, n) \<in> set es))"
proof -
  let ?keys = "map (\<lambda>(app, key, n). (key, app)) es" and ?apps = "map (\<lambda>(app, key, n). (app, n)) es"
  have "map fst ?keys = map (fst \<circ> snd) es" "map fst ?apps = map fst es" by auto
  then have d: "distinct (map fst ?keys)" "distinct (map fst ?apps)" using assms(3,4) by metis+
  have "authentication_try_from (map render_arg es) =
      AuthOk \<lparr>key_to_application = map_of ?keys, app_to_rate_limit = map_of ?apps\<rparr>"
    using try_from_loop_render [OF assms(2-4), of "{}" authentication_none] assms(1)
    by (simp add: authentication_try_from_def authentication_none_def)
  moreover have "(key, app) \<in> set ?keys \<longleftrightarrow> (\<exists>n. (app, key, n) \<in> set es)"
    "(app, n) \<in> set ?apps \<longleftrightarrow> (\<exists>key. (app, key, n) \<in> set es)" for app key n by force+
  ultimately show ?thesis
    unfolding get_application_for_key_def get_rate_limits_def
    by (intro exI [of _ "\<lparr>key_to_application = map_of ?keys, app_to_rate_limit = map_of ?apps\<rparr>"])
      (simp add: map_of_eq_Some_iff [OF d(1)] map_of_eq_Some_iff [OF d(2)] del: set_map)
qed

theorem parse_of_rendered_keys_witness:
  "\<exists>auth. authentication_try_from [''a:k1:10'', ''b:k2:5''] = AuthOk auth \<and>
     get_application_for_key auth ''k2'' = Some ''b'' \<and> get_rate_limits auth ''a'' = Some 10"
proof -
  let ?es = "[(''a'', ''k1'', 10), (''b'', ''k2'', 5)]"
  have r: "map render_arg ?es = [''a:k1:10'', ''b:k2:5'']"
    by code_simp
  have "\<forall>e \<in> set ?es. good_entry e" by (simp add: good_entry_def)
  from parse_of_rendered_keys [OF _ this] show ?thesis unfolding r by auto
qed

section \<open>Parsed keys\<close>

text \<open>The loop invariant: one key per application, and a 64-bit limit for each.\<close>

definition auth_wf :: "string set \<Rightarrow> authentication \<Rightarrow> bool" where
  "auth_wf applications auth \<longleftrightarrow>
     ran (key_to_application auth) = applications \<and> dom (app_to_rate_limit auth) = applications \<and>
     inj_on (key_to_application auth) (dom (key_to_application auth)) \<and>
     (\<forall>n \<in> ran (app_to_rate_limit auth). n < 2 ^ 64)"

lemma auth_wf_insert:
  assumes "auth_wf A auth" "app \<notin> A" "key \<notin> dom (key_to_application auth)" "n < 2 ^ 64"
  shows "auth_wf (insert app A) \<lparr>key_to_application = (key_to_application auth)(key \<mapsto> app),
    app_to_rate_limit = (app_to_rate_limit auth)(app \<mapsto> n)\<rparr>"
proof -
  have "key_to_application auth key = None" "app_to_rate_limit auth app = None"
    using assms by (auto simp: auth_wf_def dom_def)
  moreover have "inj_on ((key_to_application auth)(key \<mapsto> app)) (insert key (dom (key_to_application auth)))"
    using assms by (auto simp: auth_wf_def inj_on_def ran_def dom_def)
  ultimately show ?thesis
    using assms by (auto simp: auth_wf_def)
qed

lemma try_from_loop_wf:
  "auth_wf A auth \<Longrightarrow> try_from_loop args A auth = AuthOk auth' \<Longrightarrow> \<exists>B. auth_wf B auth'"
proof (induction args arbitrary: A auth)
  case (Cons arg args)
  then obtain app key limit n where "app \<notin> A" "key \<notin> dom (key_to_application auth)"
    and "parse_usize limit = Some n"
    and rest: "try_from_loop args (insert app A)
      \<lparr>key_to_application = (key_to_application auth)(key \<mapsto> app),
       app_to_rate_limit = (app_to_rate_limit auth)(app \<mapsto> n)\<rparr> = AuthOk auth'"
    by (auto split: sum.splits if_splits option.splits)
  then show ?case
    using Cons.IH [OF auth_wf_insert rest] Cons.prems(1) parse_usize_bound by blast
qed auto

text \<open>
  Accepted keys are usable and unambiguous. When the key arguments are accepted, each key belongs to
  one application, no two keys share an application, and every application with a key has a rate limit,
  which fits 64 bits.
\<close>

theorem parsed_keys_are_unambiguous:
  assumes "authentication_try_from args = AuthOk auth"
    and "get_application_for_key auth key = Some app"
  shows "(\<exists>n < 2 ^ 64. get_rate_limits auth app = Some n) \<and>
    (\<forall>key'. get_application_for_key auth key' = Some app \<longrightarrow> key' = key)"
proof -
  have "auth_wf {} authentication_none" by (simp add: auth_wf_def authentication_none_def)
  moreover have "try_from_loop args {} authentication_none = AuthOk auth"
    using assms(1) by (auto simp: authentication_try_from_def split: if_splits)
  ultimately obtain B where wf: "auth_wf B auth" using try_from_loop_wf by blast
  have key: "key_to_application auth key = Some app" using assms(2) by (simp add: get_application_for_key_def)
  then have "app \<in> dom (app_to_rate_limit auth)" using wf by (auto simp: auth_wf_def ran_def)
  then have "\<exists>n < 2 ^ 64. app_to_rate_limit auth app = Some n"
    using wf by (auto simp: auth_wf_def ran_def)
  moreover have "key' = key" if "key_to_application auth key' = Some app" for key'
    using wf key that unfolding auth_wf_def by (metis domI inj_onD)
  ultimately show ?thesis by (simp add: get_application_for_key_def get_rate_limits_def)
qed

theorem parsed_keys_are_unambiguous_witness:
  "\<exists>auth n. authentication_try_from [''a:k:7''] = AuthOk auth \<and> get_rate_limits auth ''a'' = Some n"
proof -
  let ?auth = "\<lparr>key_to_application = [''k'' \<mapsto> ''a''], app_to_rate_limit = [''a'' \<mapsto> 7]\<rparr>"
  have "authentication_try_from [''a:k:7''] = AuthOk ?auth"
    by (simp add: authentication_try_from_def authentication_none_def parse_arg_def parse_usize_def
        digit_value_def)
  moreover from this have "\<exists>n < 2 ^ 64. get_rate_limits ?auth ''a'' = Some n"
    using parsed_keys_are_unambiguous [of "[''a:k:7'']" ?auth "''k''" "''a''"]
    by (simp add: get_application_for_key_def)
  ultimately show ?thesis by blast
qed

text \<open>
  A limit that is not a number crashes the program instead of being reported. An argument of three
  nonempty parts whose last part is not a decimal number below \<open>2 ^ 64\<close> makes the parser panic, for
  every application and key that is new; this is the only way it can panic.
\<close>

theorem bad_limit_panics:
  "(\<forall>app key limit args.
      app \<noteq> [] \<and> key \<noteq> [] \<and> limit \<noteq> [] \<and> CHR '':'' \<notin> set app \<and> CHR '':'' \<notin> set key \<and>
      CHR '':'' \<notin> set limit \<and> parse_usize limit = None \<longrightarrow>
      authentication_try_from ((app @ '':'' @ key @ '':'' @ limit) # args) = AuthPanic) \<and>
   (authentication_try_from bs = AuthPanic \<longrightarrow>
      (\<exists>b \<in> set bs. \<exists>app key limit. parse_arg b = Inr (app, key, limit) \<and> parse_usize limit = None))"
proof -
  have loop: "try_from_loop bs A auth = AuthPanic \<Longrightarrow>
      \<exists>b \<in> set bs. \<exists>app key limit. parse_arg b = Inr (app, key, limit) \<and> parse_usize limit = None"
    for A auth
    by (induction bs arbitrary: A auth)
      (auto split: sum.splits if_splits option.splits, blast)
  show ?thesis
    using loop
    by (auto simp: authentication_try_from_def authentication_none_def parse_arg_def
        split_on_append_sep split_on_no_sep split: if_splits)
qed

theorem bad_limit_panics_witness: "authentication_try_from [''a:k:ten''] = AuthPanic"
proof -
  have "parse_usize ''ten'' = None" by (simp add: parse_usize_def digit_value_def)
  then have "authentication_try_from ((''a'' @ '':'' @ ''k'' @ '':'' @ ''ten'') # []) = AuthPanic"
    by (intro conjunct1 [OF bad_limit_panics, rule_format]) simp
  then show ?thesis by simp
qed

end
