(* ===== verification/Ws_Server.thy ===== *)
theory Ws_Server
  imports Ws_Auth
begin

text \<open>
  The websocket proxy's server (\<^verbatim>\<open>websocket-proxy/src/server.rs\<close>) and client registry
  (\<^verbatim>\<open>registry.rs\<close>).

  A handler takes the limiter it is given, any implementation of \<^verbatim>\<open>RateLimit\<close>, as an operation on
  its state, and answers with a status and a JSON body or with the upgrade to a websocket, which
  carries the ticket. \<^verbatim>\<open>HeaderValue::to_str\<close> is a parameter; the parsing of addresses is the standard
  library's, written out. The two loops of a client connection run over the sequence of what their
  \<^verbatim>\<open>select!\<close> receives.
\<close>

section \<open>Parsing addresses\<close>

definition hex_value :: "char \<Rightarrow> nat option" where
  "hex_value ch = (let n = of_char ch :: nat in
     if 48 \<le> n \<and> n \<le> 57 then Some (n - 48)
     else if 97 \<le> n \<and> n \<le> 102 then Some (n - 87)
     else if 65 \<le> n \<and> n \<le> 70 then Some (n - 55)
     else None)"

fun all_values :: "(char \<Rightarrow> nat option) \<Rightarrow> string \<Rightarrow> nat list option" where
  "all_values f [] = Some []"
| "all_values f (x # xs) =
     (case f x of
        None \<Rightarrow> None
      | Some d \<Rightarrow> map_option (\<lambda>ds. d # ds) (all_values f xs))"

definition number_of :: "nat \<Rightarrow> nat list \<Rightarrow> nat" where
  "number_of b ds = foldl (\<lambda>n d. b * n + d) 0 ds"

text \<open>One part of a dotted address: one to three digits, no leading zero, at most 255.\<close>

definition parse_octet :: "string \<Rightarrow> nat option" where
  "parse_octet p =
     (if p = [] \<or> 3 < length p \<or> (1 < length p \<and> hd p = CHR ''0'') then None
      else case all_values digit_value p of
             None \<Rightarrow> None
           | Some ds \<Rightarrow> (let n = number_of 10 ds in if n \<le> 255 then Some n else None))"

definition parse_ipv4 :: "string \<Rightarrow> 32 word option" where
  "parse_ipv4 str =
     (case map parse_octet (split_on CHR ''.'' str) of
        [Some a, Some b, Some c, Some d] \<Rightarrow> Some (of_nat (((a * 256 + b) * 256 + c) * 256 + d))
      | _ \<Rightarrow> None)"

text \<open>A group of an IPv6 address: one to four hexadecimal digits.\<close>

definition parse_group :: "string \<Rightarrow> nat option" where
  "parse_group p =
     (if p = [] \<or> 4 < length p then None
      else map_option (number_of 16) (all_values hex_value p))"

fun parse_groups :: "bool \<Rightarrow> string list \<Rightarrow> nat list option" where
  "parse_groups v4 [] = Some []"
| "parse_groups v4 [p] =
     (case (if v4 then parse_ipv4 p else None) of
        Some w \<Rightarrow> Some [unat w div 65536, unat w mod 65536]
      | None \<Rightarrow> map_option (\<lambda>g. [g]) (parse_group p))"
| "parse_groups v4 (p # q # ps) =
     (case parse_group p of
        None \<Rightarrow> None
      | Some g \<Rightarrow> map_option (\<lambda>gs. g # gs) (parse_groups v4 (q # ps)))"

text \<open>The text before and after the first double colon.\<close>

fun split_double_colon :: "string \<Rightarrow> (string \<times> string) option" where
  "split_double_colon (x # y # xs) =
     (if x = CHR '':'' \<and> y = CHR '':'' then Some ([], xs)
      else map_option (\<lambda>(h, t). (x # h, t)) (split_double_colon (y # xs)))"
| "split_double_colon _ = None"

definition groups_part :: "bool \<Rightarrow> string \<Rightarrow> nat list option" where
  "groups_part v4 str = (if str = [] then Some [] else parse_groups v4 (split_on CHR '':'' str))"

definition word_of_groups :: "nat list \<Rightarrow> 128 word" where
  "word_of_groups gs = of_nat (number_of 65536 gs)"

definition parse_ipv6 :: "string \<Rightarrow> 128 word option" where
  "parse_ipv6 str =
     (case split_double_colon str of
        None \<Rightarrow>
          (case parse_groups True (split_on CHR '':'' str) of
             Some gs \<Rightarrow> if length gs = 8 then Some (word_of_groups gs) else None
           | None \<Rightarrow> None)
      | Some (h, t) \<Rightarrow>
          (case (groups_part False h, groups_part True t) of
             (Some hs, Some ts) \<Rightarrow>
               if length hs + length ts \<le> 7
               then Some (word_of_groups (hs @ replicate (8 - (length hs + length ts)) 0 @ ts))
               else None
           | _ \<Rightarrow> None))"

definition parse_ip :: "string \<Rightarrow> ip_addr option" where
  "parse_ip str =
     (case parse_ipv4 str of
        Some w \<Rightarrow> Some (V4 w)
      | None \<Rightarrow> map_option V6 (parse_ipv6 str))"

definition is_ws :: "char \<Rightarrow> bool" where
  "is_ws ch = (let n = of_char ch :: nat in n = 32 \<or> (9 \<le> n \<and> n \<le> 13))"

definition trim :: "string \<Rightarrow> string" where
  "trim str = rev (dropWhile is_ws (rev (dropWhile is_ws str)))"

section \<open>Metrics\<close>

record ws_metrics =
  wm_sent_messages :: nat
  wm_failed_messages :: nat
  wm_new_connections :: nat
  wm_closed_connections :: nat
  wm_lagged_connections :: nat
  wm_rate_limited_requests :: nat
  wm_unauthorized_requests :: nat
  wm_bytes_broadcasted :: nat
  wm_client_pong_disconnects :: nat
  wm_connections_by_app :: "string \<Rightarrow> nat"

datatype ws_message = Text bytes | Binary bytes | Ping bytes | Pong bytes | Close

fun get_message_size :: "ws_message \<Rightarrow> nat" where
  "get_message_size (Text text) = length text"
| "get_message_size (Binary data) = length data"
| "get_message_size (Ping data) = length data"
| "get_message_size (Pong data) = length data"
| "get_message_size Close = 0"

definition record_message_sent :: "ws_message \<Rightarrow> ws_metrics \<Rightarrow> ws_metrics" where
  "record_message_sent msg m =
     m\<lparr>wm_sent_messages := wm_sent_messages m + 1,
       wm_bytes_broadcasted := wm_bytes_broadcasted m + get_message_size msg\<rparr>"

definition proxy_connections_by_app :: "string \<Rightarrow> ws_metrics \<Rightarrow> ws_metrics" where
  "proxy_connections_by_app app m =
     m\<lparr>wm_connections_by_app := (wm_connections_by_app m)(app := wm_connections_by_app m app + 1)\<rparr>"

section \<open>Handlers\<close>

datatype ws_response = WsStatus nat json | WsUpgrade ticket

record 's ws_state =
  wst_rate_limiter :: 's
  wst_metrics :: ws_metrics
  wst_auth :: authentication
  wst_ip_addr_http_header :: string

type_synonym 's acquire_op =
  "ip_addr \<Rightarrow> string option \<Rightarrow> 's \<Rightarrow> (rate_limit_error + ticket) \<times> 's"

definition json_message :: "string \<Rightarrow> json" where
  "json_message reason = JObject [(''message'', JString reason)]"

text \<open>The routes of \<^verbatim>\<open>Server::listen\<close>, and the state it hands to the handlers.\<close>

datatype ws_route = RouteHealthz | RouteAuthenticated | RoutePublic

definition ws_routes :: "authentication option \<Rightarrow> (string \<times> ws_route) list" where
  "ws_routes auth =
     [(''/healthz'', RouteHealthz)] @
     (if auth \<noteq> None then [(''/ws/{api_key}'', RouteAuthenticated)] else [(''/ws'', RoutePublic)])"

definition ws_listen_state ::
  "'s \<Rightarrow> ws_metrics \<Rightarrow> authentication option \<Rightarrow> string \<Rightarrow> 's ws_state" where
  "ws_listen_state limiter metrics auth header =
     \<lparr>wst_rate_limiter = limiter, wst_metrics = metrics,
      wst_auth = (case auth of Some a \<Rightarrow> a | None \<Rightarrow> authentication_none),
      wst_ip_addr_http_header = header\<rparr>"

definition extract_addr :: "(string \<Rightarrow> string option) \<Rightarrow> string \<Rightarrow> ip_addr \<Rightarrow> ip_addr" where
  "extract_addr to_str header fallback =
     (if header = [] then fallback
      else
        (case to_str header of
           Some header_value \<Rightarrow>
             (let parts = map trim (split_on CHR '','' header_value) in
              if parts = [] then fallback
              else (case parse_ip (last parts) of Some a \<Rightarrow> a | None \<Rightarrow> fallback))
         | None \<Rightarrow> fallback))"

definition websocket_handler ::
  "'s acquire_op \<Rightarrow> (string \<Rightarrow> string option) \<Rightarrow> ip_addr \<Rightarrow> (string \<rightharpoonup> string) \<Rightarrow> string option
     \<Rightarrow> 's ws_state \<Rightarrow> ws_response \<times> 's ws_state" where
  "websocket_handler acquire to_str connect_addr headers app st =
     (let client_addr = (case headers (wst_ip_addr_http_header st) of
            None \<Rightarrow> connect_addr
          | Some value \<Rightarrow> extract_addr to_str value connect_addr)
      in case acquire client_addr app (wst_rate_limiter st) of
           (Inr ticket, l) \<Rightarrow> (WsUpgrade ticket, st\<lparr>wst_rate_limiter := l\<rparr>)
         | (Inl reason, l) \<Rightarrow>
             (let m = wst_metrics st in
              (WsStatus 429 (json_message reason),
               st\<lparr>wst_rate_limiter := l,
                  wst_metrics := m\<lparr>wm_rate_limited_requests := wm_rate_limited_requests m + 1\<rparr>\<rparr>)))"

definition authenticated_websocket_handler ::
  "'s acquire_op \<Rightarrow> (string \<Rightarrow> string option) \<Rightarrow> ip_addr \<Rightarrow> (string \<rightharpoonup> string) \<Rightarrow> string
     \<Rightarrow> 's ws_state \<Rightarrow> ws_response \<times> 's ws_state" where
  "authenticated_websocket_handler acquire to_str addr headers api_key st =
     (let m = wst_metrics st in
      case get_application_for_key (wst_auth st) api_key of
        None \<Rightarrow>
          (WsStatus 401 (json_message ''Invalid API key''),
           st\<lparr>wst_metrics := m\<lparr>wm_unauthorized_requests := wm_unauthorized_requests m + 1\<rparr>\<rparr>)
      | Some app \<Rightarrow>
          websocket_handler acquire to_str addr headers (Some app)
            (st\<lparr>wst_metrics := proxy_connections_by_app app m\<rparr>))"

definition unauthenticated_websocket_handler ::
  "'s acquire_op \<Rightarrow> (string \<Rightarrow> string option) \<Rightarrow> ip_addr \<Rightarrow> (string \<rightharpoonup> string)
     \<Rightarrow> 's ws_state \<Rightarrow> ws_response \<times> 's ws_state" where
  "unauthenticated_websocket_handler acquire to_str addr headers st =
     websocket_handler acquire to_str addr headers None st"

definition healthz_handler :: nat where
  "healthz_handler = 200"

section \<open>The registry\<close>

text \<open>
  What the \<^verbatim>\<open>select!\<close> of \<^verbatim>\<open>Registry::subscribe\<close> receives: a broadcast message, with whether sending it
  to the client succeeds, the two receive errors, or the signal of the reader.
\<close>

datatype client_event = Broadcast ws_message bool | BroadcastClosed | BroadcastLagged | ReaderDisconnect

record client_loop =
  cl_metrics :: ws_metrics
  cl_delivered :: "ws_message list"
  cl_open :: bool

definition subscribe_start :: "ws_metrics \<Rightarrow> client_loop" where
  "subscribe_start m =
     \<lparr>cl_metrics = m\<lparr>wm_new_connections := wm_new_connections m + 1\<rparr>, cl_delivered = [], cl_open = True\<rparr>"

text \<open>Leaving the loop: the reader is aborted and the connection counted as closed.\<close>

definition subscribe_finish :: "client_loop \<Rightarrow> client_loop" where
  "subscribe_finish c =
     (let m = cl_metrics c in
      c\<lparr>cl_metrics := m\<lparr>wm_closed_connections := wm_closed_connections m + 1\<rparr>, cl_open := False\<rparr>)"

fun subscribe_step :: "client_event \<Rightarrow> client_loop \<Rightarrow> client_loop" where
  "subscribe_step (Broadcast msg ok) c =
     (let m = cl_metrics c in
      if ok then c\<lparr>cl_metrics := record_message_sent msg m, cl_delivered := cl_delivered c @ [msg]\<rparr>
      else subscribe_finish (c\<lparr>cl_metrics := m\<lparr>wm_failed_messages := wm_failed_messages m + 1\<rparr>\<rparr>))"
| "subscribe_step BroadcastClosed c = subscribe_finish c"
| "subscribe_step BroadcastLagged c =
     (let m = cl_metrics c in
      subscribe_finish (c\<lparr>cl_metrics := m\<lparr>wm_lagged_connections := wm_lagged_connections m + 1\<rparr>\<rparr>))"
| "subscribe_step ReaderDisconnect c = subscribe_finish c"

fun subscribe_run :: "client_event list \<Rightarrow> client_loop \<Rightarrow> client_loop" where
  "subscribe_run [] c = c"
| "subscribe_run (e # es) c = (if cl_open c then subscribe_run es (subscribe_step e c) else c)"

definition subscribe :: "client_event list \<Rightarrow> ws_metrics \<Rightarrow> client_loop" where
  "subscribe es m = subscribe_run es (subscribe_start m)"

text \<open>
  The reader of a client: messages of the client and ticks of its timer, each at a time. That the timer itself refuses
  a timeout of less than four milliseconds is part of the theory on shutdown.
\<close>

datatype reader_event = ClientMsg ws_message | ClientError | ClientEnd | TimerTick

datatype reader_result = Reading nat | Disconnected | PongTimeout

fun reader_step :: "bool \<Rightarrow> nat \<Rightarrow> nat \<Rightarrow> reader_event \<Rightarrow> nat \<Rightarrow> reader_result" where
  "reader_step ping_enabled pong_timeout now (ClientMsg msg) last_pong =
     (case msg of
        Pong _ \<Rightarrow> Reading (if ping_enabled then now else last_pong)
      | Close \<Rightarrow> Disconnected
      | _ \<Rightarrow> Reading last_pong)"
| "reader_step ping_enabled pong_timeout now ClientError last_pong = Disconnected"
| "reader_step ping_enabled pong_timeout now ClientEnd last_pong = Disconnected"
| "reader_step ping_enabled pong_timeout now TimerTick last_pong =
     (if ping_enabled \<and> now - last_pong > pong_timeout then PongTimeout else Reading last_pong)"

fun start_reader :: "bool \<Rightarrow> nat \<Rightarrow> (nat \<times> reader_event) list \<Rightarrow> nat \<Rightarrow> reader_result" where
  "start_reader ping_enabled pong_timeout [] last_pong = Reading last_pong"
| "start_reader ping_enabled pong_timeout ((now, e) # es) last_pong =
     (case reader_step ping_enabled pong_timeout now e last_pong of
        Reading last_pong' \<Rightarrow> start_reader ping_enabled pong_timeout es last_pong'
      | r \<Rightarrow> r)"

section \<open>Addresses are read back\<close>

lemma show_base_step: "\<not> n < 10 \<Longrightarrow> show_base 10 n = show_base 10 (n div 10) @ [digit_char (n mod 10)]"
  by (subst show_base.simps) simp

lemma show_base_digit: "n < 10 \<Longrightarrow> show_base 10 n = [digit_char n]"
  by (subst show_base.simps) simp

lemma all_values_append:
  "all_values f (xs @ ys) =
     Option.bind (all_values f xs) (\<lambda>ds. map_option (\<lambda>es. ds @ es) (all_values f ys))"
proof (induction xs)
  case Nil
  then show ?case by (cases "all_values f ys") simp_all
next
  case (Cons x xs)
  then show ?case
    by (cases "f x"; cases "all_values f xs"; cases "all_values f ys") auto
qed

lemma all_values_show: "\<exists>ds. all_values digit_value (show_base 10 n) = Some ds \<and> number_of 10 ds = n"
proof (induction n rule: less_induct)
  case (less n)
  show ?case
  proof (cases "n < 10")
    case True
    then show ?thesis by (simp add: show_base_digit digit_value_digit_char number_of_def)
  next
    case False
    then obtain ds where "all_values digit_value (show_base 10 (n div 10)) = Some ds"
      "number_of 10 ds = n div 10" using less [of "n div 10"] by auto
    then show ?thesis
      using False
      by (simp add: show_base_step all_values_append digit_value_digit_char number_of_def)
  qed
qed

lemma hd_show_base_pos: "0 < n \<Longrightarrow> hd (show_base 10 n) \<noteq> CHR ''0''"
proof (induction n rule: less_induct)
  case (less n)
  show ?case
  proof (cases "n < 10")
    case True
    have "digit_char n \<noteq> CHR ''0''"
    proof
      assume "digit_char n = CHR ''0''"
      then have "digit_value (digit_char n) = digit_value CHR ''0''" by simp
      with True less.prems show False by (simp add: digit_value_digit_char) (simp add: digit_value_def)
    qed
    with True show ?thesis by (simp add: show_base_digit)
  next
    case False
    with less.IH [of "n div 10"] show ?thesis by (simp add: show_base_step)
  qed
qed

lemma parse_octet_show:
  assumes "n < 256"
  shows "parse_octet (show_base 10 n) = Some n"
proof -
  obtain ds where ds: "all_values digit_value (show_base 10 n) = Some ds" "number_of 10 ds = n"
    using all_values_show by blast
  have len: "length (show_base 10 n) \<le> 3"
  proof -
    have "length (show_base 10 k) \<le> 2" if "k < 100" for k
      using that by (cases "k < 10") (simp_all add: show_base_digit show_base_step)
    from this [of "n div 10"] assms show ?thesis
      by (cases "n < 10") (simp_all add: show_base_digit show_base_step)
  qed
  have "\<not> (1 < length (show_base 10 n) \<and> hd (show_base 10 n) = CHR ''0'')"
    using hd_show_base_pos [of n] by (cases "n = 0") (simp_all add: show_base_digit)
  with ds len assms show ?thesis by (auto simp: parse_octet_def Let_def)
qed

lemma show_base_digits: "ch \<in> set (show_base 10 n) \<Longrightarrow> digit_value ch \<noteq> None"
proof (induction n rule: less_induct)
  case (less n)
  show ?case
  proof (cases "n < 10")
    case True
    with less.prems show ?thesis by (simp add: show_base_digit digit_value_digit_char)
  next
    case False
    then have "n div 10 < n" by simp
    from less.IH [OF this] False less.prems show ?thesis
      by (auto simp: show_base_step digit_value_digit_char)
  qed
qed

lemma show_base_no_dot: "CHR ''.'' \<notin> set (show_base 10 n)"
  using show_base_digits [of "CHR ''.''" n] by (auto simp: digit_value_def)

lemma show_ipv4_chars:
  assumes "ch \<in> set (show_ipv4 w)"
  shows "ch = CHR ''.'' \<or> digit_value ch \<noteq> None"
  using assms show_base_digits set_join_with [of "CHR ''.''"
      "map (\<lambda>k. show_base 10 (unat (drop_bit (8 * k) w) mod 256)) [3, 2, 1, 0]"]
  by (auto simp: show_ipv4_def)

lemma bytes_of_word32:
  fixes n :: nat
  assumes "n < 2 ^ 32"
  shows "(((n div 16777216 mod 256) * 256 + n div 65536 mod 256) * 256 + n div 256 mod 256) * 256
    + n mod 256 = n"
proof -
  have "n div 65536 = n div 256 div 256" "n div 16777216 = n div 256 div 256 div 256"
    by (simp_all add: div_mult2_eq [symmetric])
  moreover have "n div 16777216 < 256" using assms by (simp add: div_less_iff_less_mult)
  ultimately show ?thesis
    using div_mult_mod_eq [of n 256] div_mult_mod_eq [of "n div 256" 256]
      div_mult_mod_eq [of "n div 256 div 256" 256] by simp
qed

lemma parse_ipv4_show: "parse_ipv4 (show_ipv4 w) = Some w"
proof -
  let ?b = "\<lambda>k. unat (drop_bit (8 * k) w) mod 256"
  have "split_on CHR ''.'' (show_ipv4 w) = map (\<lambda>k. show_base 10 (?b k)) [3, 2, 1, 0]"
    unfolding show_ipv4_def by (rule split_join) (auto simp: show_base_no_dot)
  then have p: "parse_ipv4 (show_ipv4 w) = Some (of_nat (((?b 3 * 256 + ?b 2) * 256 + ?b 1) * 256 + ?b 0))"
    by (simp add: parse_ipv4_def parse_octet_show)
  have b: "?b k = unat w div 2 ^ (8 * k) mod 256" for k
    by (simp only: unat_drop_bit_eq) (simp add: drop_bit_eq_div)
  have "unat w < 2 ^ 32" using unsigned_less [of w, where 'a = nat] by simp
  then have e: "((?b 3 * 256 + ?b 2) * 256 + ?b 1) * 256 + ?b 0 = unat w"
    unfolding b using bytes_of_word32 [of "unat w"] by simp
  show ?thesis unfolding p e by simp
qed

lemma parse_ip_show_V4: "parse_ip (show_ip (V4 w)) = Some (V4 w)"
  by (simp add: parse_ip_def parse_ipv4_show)

section \<open>The client's address\<close>

lemma last_split_on: "c \<notin> set v \<Longrightarrow> last (split_on c (pre @ c # v)) = v"
  by (simp add: split_on_append split_on_no_sep)

lemma trim_id: "(\<And>ch. ch \<in> set str \<Longrightarrow> \<not> is_ws ch) \<Longrightarrow> trim str = str"
proof -
  assume no: "\<And>ch. ch \<in> set str \<Longrightarrow> \<not> is_ws ch"
  then have "dropWhile is_ws str = str" by (cases str) auto
  moreover have "dropWhile is_ws (rev str) = rev str" using no by (cases "rev str") (auto dest: arg_cong [of _ _ set])
  ultimately show ?thesis by (simp add: trim_def)
qed

text \<open>
  A client cannot choose its own address. The address that is rate-limited is decided by the text
  after the last comma of the header, which the nearest proxy appended: whatever precedes it, the
  result is that address if it parses, and the address of the connection otherwise.
\<close>

theorem last_forwarded_address_decides:
  assumes "to_str (pre @ '','' @ v) = Some (pre @ '','' @ v)" and "CHR '','' \<notin> set v"
  shows "extract_addr to_str (pre @ '','' @ v) fallback =
    (case parse_ip (trim v) of Some a \<Rightarrow> a | None \<Rightarrow> fallback)"
  using assms last_split_on [of "CHR '',''" v pre]
  by (simp add: extract_addr_def Let_def last_map)

theorem last_forwarded_address_decides_witness:
  "extract_addr Some ''10.0.0.1, 1.2.3.4'' (V4 0) = V4 16909060"
proof -
  have "extract_addr Some (''10.0.0.1'' @ '','' @ '' 1.2.3.4'') (V4 0) =
      (case parse_ip (trim '' 1.2.3.4'') of Some a \<Rightarrow> a | None \<Rightarrow> V4 0)"
    by (rule last_forwarded_address_decides) simp_all
  moreover have "trim '' 1.2.3.4'' = ''1.2.3.4''" by (simp add: trim_def is_ws_def)
  moreover have "parse_ip ''1.2.3.4'' = Some (V4 16909060)"
    by (simp add: parse_ip_def parse_ipv4_def parse_octet_def digit_value_def number_of_def)
  ultimately show ?thesis by simp
qed

text \<open>
  Only holders of a key get in, each on its own application's account. With a key that is not
  known, the authenticated handler answers 401 and leaves the limiter alone; with a known one it
  answers what the limiter decides for this key's application: the upgrade with the limiter's ticket,
  or 429 with the limiter's reason.
\<close>

theorem authenticated_handler_outcome:
  "case get_application_for_key (wst_auth st) api_key of
     None \<Rightarrow>
       fst (authenticated_websocket_handler acquire to_str addr headers api_key st) =
         WsStatus 401 (json_message ''Invalid API key'') \<and>
       wst_rate_limiter (snd (authenticated_websocket_handler acquire to_str addr headers api_key st)) =
         wst_rate_limiter st
   | Some app \<Rightarrow>
       (\<exists>client_addr.
          client_addr = (case headers (wst_ip_addr_http_header st) of
              None \<Rightarrow> addr | Some value \<Rightarrow> extract_addr to_str value addr) \<and>
          fst (authenticated_websocket_handler acquire to_str addr headers api_key st) =
            (case fst (acquire client_addr (Some app) (wst_rate_limiter st)) of
               Inr ticket \<Rightarrow> WsUpgrade ticket
             | Inl reason \<Rightarrow> WsStatus 429 (json_message reason)) \<and>
          wst_rate_limiter (snd (authenticated_websocket_handler acquire to_str addr headers api_key st)) =
            snd (acquire client_addr (Some app) (wst_rate_limiter st)))"
  by (auto simp: authenticated_websocket_handler_def websocket_handler_def proxy_connections_by_app_def
      Let_def split: option.splits prod.splits sum.splits)

lemma show_ipv4_plain: "CHR '','' \<notin> set (show_ipv4 w)" "trim (show_ipv4 w) = show_ipv4 w"
proof -
  show "CHR '','' \<notin> set (show_ipv4 w)"
    using show_ipv4_chars [of "CHR '',''" w] by (auto simp: digit_value_def)
  show "trim (show_ipv4 w) = show_ipv4 w"
  proof (rule trim_id)
    fix ch assume "ch \<in> set (show_ipv4 w)"
    from show_ipv4_chars [OF this] show "\<not> is_ws ch"
      by (auto simp: is_ws_def digit_value_def Let_def split: if_splits)
  qed
qed

text \<open>
  an IPv4 address survives the header. When the last element of the header is the text of an IPv4
  address, as the standard library prints it and with or without a space before it, this is the
  address that is extracted.
\<close>

theorem ipv4_header_round_trip:
  assumes "\<And>str. to_str str = Some str"
  shows "extract_addr to_str (pre @ '','' @ show_ip (V4 w)) fallback = V4 w \<and>
    extract_addr to_str (pre @ '', '' @ show_ip (V4 w)) fallback = V4 w \<and>
    extract_addr to_str (show_ip (V4 w)) fallback = V4 w"
proof -
  have sp: "trim (CHR '' '' # show_ipv4 w) = show_ipv4 w"
    using show_ipv4_plain(2) by (simp add: trim_def is_ws_def)
  have ne: "show_ipv4 w \<noteq> []"
    using parse_ipv4_show [of w] by (auto simp: parse_ipv4_def parse_octet_def)
  have "last (split_on CHR '','' (pre @ CHR '','' # show_ipv4 w)) = show_ipv4 w"
    "last (split_on CHR '','' (pre @ CHR '','' # CHR '' '' # show_ipv4 w)) = CHR '' '' # show_ipv4 w"
    using last_split_on [of "CHR '',''" "show_ipv4 w" pre]
      last_split_on [of "CHR '',''" "CHR '' '' # show_ipv4 w" pre] show_ipv4_plain(1) by simp_all
  then show ?thesis
    using assms show_ipv4_plain parse_ipv4_show sp ne
    by (simp add: extract_addr_def parse_ip_def Let_def last_map split_on_no_sep)
qed

theorem ipv4_header_round_trip_witness:
  "extract_addr Some (''8.8.8.8'' @ '', '' @ show_ip (V4 7)) (V4 0) = V4 7"
  using ipv4_header_round_trip [of Some "''8.8.8.8''" 7 "V4 0"] by simp

section \<open>What a client receives\<close>

fun broadcasts :: "client_event list \<Rightarrow> ws_message list" where
  "broadcasts [] = []"
| "broadcasts (Broadcast msg _ # es) = msg # broadcasts es"
| "broadcasts (_ # es) = broadcasts es"

lemma subscribe_finish_sel [simp]:
  "cl_open (subscribe_finish c) = False"
  "cl_delivered (subscribe_finish c) = cl_delivered c"
  "wm_new_connections (cl_metrics (subscribe_finish c)) = wm_new_connections (cl_metrics c)"
  "wm_closed_connections (cl_metrics (subscribe_finish c)) = wm_closed_connections (cl_metrics c) + 1"
  "wm_sent_messages (cl_metrics (subscribe_finish c)) = wm_sent_messages (cl_metrics c)"
  by (simp_all add: subscribe_finish_def Let_def)

lemma subscribe_run_closed: "\<not> cl_open c \<Longrightarrow> subscribe_run es c = c"
  by (cases es) auto

lemma subscribe_run_delivered:
  assumes "cl_open c"
  shows "\<exists>new. cl_delivered (subscribe_run es c) = cl_delivered c @ new \<and> prefix new (broadcasts es) \<and>
    (cl_open (subscribe_run es c) \<longrightarrow> new = broadcasts es) \<and>
    wm_sent_messages (cl_metrics (subscribe_run es c)) = wm_sent_messages (cl_metrics c) + length new \<and>
    wm_new_connections (cl_metrics (subscribe_run es c)) = wm_new_connections (cl_metrics c) \<and>
    wm_closed_connections (cl_metrics (subscribe_run es c)) =
      wm_closed_connections (cl_metrics c) + (if cl_open (subscribe_run es c) then 0 else 1)"
  using assms
proof (induction es arbitrary: c)
  case (Cons e es)
  show ?case
  proof (cases "\<exists>msg. e = Broadcast msg True")
    case True
    then obtain msg where e: "e = Broadcast msg True" by blast
    let ?c = "subscribe_step e c"
    have c: "cl_open ?c" "cl_delivered ?c = cl_delivered c @ [msg]"
      "wm_sent_messages (cl_metrics ?c) = wm_sent_messages (cl_metrics c) + 1"
      "wm_new_connections (cl_metrics ?c) = wm_new_connections (cl_metrics c)"
      "wm_closed_connections (cl_metrics ?c) = wm_closed_connections (cl_metrics c)"
      using Cons.prems by (simp_all add: e Let_def record_message_sent_def)
    from Cons.IH [OF c(1)] obtain new where
      "cl_delivered (subscribe_run es ?c) = cl_delivered ?c @ new" "prefix new (broadcasts es)"
      "cl_open (subscribe_run es ?c) \<longrightarrow> new = broadcasts es"
      "wm_sent_messages (cl_metrics (subscribe_run es ?c)) =
         wm_sent_messages (cl_metrics ?c) + length new"
      "wm_new_connections (cl_metrics (subscribe_run es ?c)) = wm_new_connections (cl_metrics ?c)"
      "wm_closed_connections (cl_metrics (subscribe_run es ?c)) =
         wm_closed_connections (cl_metrics ?c) + (if cl_open (subscribe_run es ?c) then 0 else 1)"
      by blast
    with c Cons.prems show ?thesis by (intro exI [of _ "msg # new"]) (auto simp: e)
  next
    case False
    then have "\<not> cl_open (subscribe_step e c)" by (cases e) (auto simp: Let_def)
    with False Cons.prems show ?thesis
      by (cases e) (auto simp: subscribe_run_closed Let_def)
  qed
qed auto

text \<open>
  No gaps. A subscribed client receives a prefix of the messages broadcast since it subscribed, in
  order; as long as it is connected it has received all of them. A client that lags, or to which
  sending fails, is disconnected instead of skipping messages. Messages, openings and closings are
  counted exactly.
\<close>

theorem client_receives_without_gaps:
  "\<exists>new. cl_delivered (subscribe es m) = new \<and> prefix new (broadcasts es) \<and>
    (cl_open (subscribe es m) \<longrightarrow> new = broadcasts es) \<and>
    wm_sent_messages (cl_metrics (subscribe es m)) = wm_sent_messages m + length new \<and>
    wm_new_connections (cl_metrics (subscribe es m)) = wm_new_connections m + 1 \<and>
    wm_closed_connections (cl_metrics (subscribe es m)) =
      wm_closed_connections m + (if cl_open (subscribe es m) then 0 else 1)"
proof -
  have "cl_open (subscribe_start m)" by (simp add: subscribe_start_def)
  from subscribe_run_delivered [OF this, of es] show ?thesis
    by (simp add: subscribe_def) (simp add: subscribe_start_def)
qed

definition ws_metrics_default :: ws_metrics where
  "ws_metrics_default =
     \<lparr>wm_sent_messages = 0, wm_failed_messages = 0, wm_new_connections = 0, wm_closed_connections = 0,
      wm_lagged_connections = 0, wm_rate_limited_requests = 0, wm_unauthorized_requests = 0,
      wm_bytes_broadcasted = 0, wm_client_pong_disconnects = 0, wm_connections_by_app = (\<lambda>_. 0)\<rparr>"

theorem client_receives_without_gaps_witness:
  "prefix (cl_delivered (subscribe
       [Broadcast (Text [1]) True, BroadcastLagged, Broadcast (Text [2]) True] ws_metrics_default))
     [Text [1], Text [2]]"
  using client_receives_without_gaps
    [of "[Broadcast (Text [1]) True, BroadcastLagged, Broadcast (Text [2]) True]" ws_metrics_default]
  by auto

text \<open>The time of the last pong, or the start if there was none.\<close>

fun latest_pong :: "nat \<Rightarrow> (nat \<times> reader_event) list \<Rightarrow> nat" where
  "latest_pong t [] = t"
| "latest_pong t ((now, e) # es) =
     latest_pong (case e of ClientMsg (Pong _) \<Rightarrow> now | _ \<Rightarrow> t) es"

lemma reader_step_Reading:
  "reader_step True T now e t = Reading t' \<Longrightarrow> t' = (case e of ClientMsg (Pong _) \<Rightarrow> now | _ \<Rightarrow> t)"
  by (cases e) (auto split: ws_message.splits if_splits)

lemma reader_step_PongTimeout:
  "reader_step ping T now e t = PongTimeout \<longleftrightarrow> ping \<and> e = TimerTick \<and> now - t > T"
  by (cases e) (auto split: ws_message.splits)

lemma start_reader_PongTimeout:
  "start_reader True T es t = PongTimeout \<Longrightarrow>
     \<exists>es1 now es2. es = es1 @ (now, TimerTick) # es2 \<and> now - latest_pong t es1 > T"
proof (induction es arbitrary: t)
  case (Cons x es)
  obtain now e where x: "x = (now, e)" by (cases x)
  show ?case
  proof (cases "reader_step True T now e t")
    case (Reading t')
    with Cons.prems x have "start_reader True T es t' = PongTimeout" by simp
    from Cons.IH [OF this] obtain es1 now' es2 where "es = es1 @ (now', TimerTick) # es2"
      "now' - latest_pong t' es1 > T" by blast
    with x reader_step_Reading [OF Reading] show ?thesis
      by (intro exI [of _ "x # es1"] exI [of _ now'] exI [of _ es2]) simp
  next
    case Disconnected
    with Cons.prems x show ?thesis by simp
  next
    case PongTimeout
    with x show ?thesis
      by (intro exI [of _ "[]"] exI [of _ now] exI [of _ es]) (auto simp: reader_step_PongTimeout)
  qed
qed simp

lemma start_reader_no_ping: "start_reader False T es t \<noteq> PongTimeout"
proof (induction es arbitrary: t)
  case (Cons x es)
  obtain now e where "x = (now, e)" by (cases x)
  with Cons.IH show ?case
    using reader_step_PongTimeout [of False T now e t]
    by (cases "reader_step False T now e t") auto
qed simp

text \<open>
  Only silent clients are dropped. The reader disconnects a client for a missing pong only if pings are
  enabled and the client had sent no pong for longer than the timeout when the timer fired; without
  pings it never does.
\<close>

theorem pong_timeout_only_for_silent_clients:
  assumes "start_reader ping_enabled T es start = PongTimeout"
  shows "ping_enabled \<and>
    (\<exists>es1 now es2. es = es1 @ (now, TimerTick) # es2 \<and> T < now - latest_pong start es1)"
  using assms start_reader_PongTimeout [of T es start] start_reader_no_ping [of T es start]
  by (cases ping_enabled) auto

theorem pong_timeout_only_for_silent_clients_witness:
  "\<exists>es1 now es2. [(10, ClientMsg (Pong [])), (50, TimerTick)] = es1 @ (now, TimerTick) # es2 \<and>
     30 < now - latest_pong 0 es1"
  using pong_timeout_only_for_silent_clients [of True 30 "[(10, ClientMsg (Pong [])), (50, TimerTick)]" 0]
  by simp

end
