(* ===== verification/Ws_Subscriber.thy ===== *)
theory Ws_Subscriber
  imports Ws_Server
begin

text \<open>
  The upstream side of the websocket proxy: the subscriber (\<^verbatim>\<open>websocket-proxy/src/subscriber.rs\<close>) and
  the pieces of \<^verbatim>\<open>main.rs\<close> that decide something: keys, limiter, label parsing, and the handler that
  broadcasts what arrives.

  A connection runs over the sequence of what its \<^verbatim>\<open>select!\<close> receives: ticks of the deadline check, an
  error of the ping task, messages. The \<^verbatim>\<open>backoff\<close> crate is a parameter: its state and two operations.
  Times are milliseconds of the monotonic clock.
\<close>

section \<open>Options\<close>

record subscriber_options =
  so_max_backoff_interval :: nat
  so_backoff_initial_interval :: nat
  so_ping_interval :: nat
  so_pong_timeout :: nat
  so_initial_grace_period :: nat

definition subscriber_options_default :: subscriber_options where
  "subscriber_options_default =
     \<lparr>so_max_backoff_interval = 20000, so_backoff_initial_interval = 500, so_ping_interval = 2000,
      so_pong_timeout = 4000, so_initial_grace_period = 5000\<rparr>"

definition with_max_backoff_interval :: "nat \<Rightarrow> subscriber_options \<Rightarrow> subscriber_options" where
  "with_max_backoff_interval v opts = opts\<lparr>so_max_backoff_interval := v\<rparr>"

definition with_ping_interval :: "nat \<Rightarrow> subscriber_options \<Rightarrow> subscriber_options" where
  "with_ping_interval v opts = opts\<lparr>so_ping_interval := v\<rparr>"

definition with_pong_timeout :: "nat \<Rightarrow> subscriber_options \<Rightarrow> subscriber_options" where
  "with_pong_timeout v opts = opts\<lparr>so_pong_timeout := v\<rparr>"

definition with_backoff_initial_interval :: "nat \<Rightarrow> subscriber_options \<Rightarrow> subscriber_options" where
  "with_backoff_initial_interval v opts = opts\<lparr>so_backoff_initial_interval := v\<rparr>"

definition with_initial_grace_period :: "nat \<Rightarrow> subscriber_options \<Rightarrow> subscriber_options" where
  "with_initial_grace_period v opts = opts\<lparr>so_initial_grace_period := v\<rparr>"

section \<open>The subscriber\<close>

type_synonym ws_error = string

record subscriber_metrics =
  sm_upstream_errors :: nat
  sm_upstream_connections :: int
  sm_connection_attempts :: nat
  sm_connection_successes :: nat
  sm_connection_failures :: nat
  sm_upstream_messages :: nat

definition subscriber_metrics_default :: subscriber_metrics where
  "subscriber_metrics_default =
     \<lparr>sm_upstream_errors = 0, sm_upstream_connections = 0, sm_connection_attempts = 0,
      sm_connection_successes = 0, sm_connection_failures = 0, sm_upstream_messages = 0\<rparr>"

record 'b backoff_ops =
  bo_reset :: "'b \<Rightarrow> 'b"
  bo_next :: "'b \<Rightarrow> nat option \<times> 'b"

text \<open>\<open>sub_handled\<close> collects what was passed to the handler, \<open>sub_slept\<close> the pauses between attempts.\<close>

record 'b subscriber =
  sub_options :: subscriber_options
  sub_backoff :: 'b
  sub_metrics :: subscriber_metrics
  sub_handled :: "bytes list"
  sub_slept :: "nat list"

definition subscriber_new :: "(nat \<Rightarrow> nat \<Rightarrow> 'b) \<Rightarrow> subscriber_metrics \<Rightarrow> subscriber_options \<Rightarrow> 'b subscriber" where
  "subscriber_new exponential m opts =
     \<lparr>sub_options = opts,
      sub_backoff = exponential (so_backoff_initial_interval opts) (so_max_backoff_interval opts),
      sub_metrics = m, sub_handled = [], sub_slept = []\<rparr>"

definition sub_count :: "(subscriber_metrics \<Rightarrow> subscriber_metrics) \<Rightarrow> 'b subscriber \<Rightarrow> 'b subscriber" where
  "sub_count f s = s\<lparr>sub_metrics := f (sub_metrics s)\<rparr>"

definition sub_deliver :: "bytes \<Rightarrow> 'b subscriber \<Rightarrow> 'b subscriber" where
  "sub_deliver data s =
     (let s1 = sub_count (\<lambda>m. m\<lparr>sm_upstream_messages := sm_upstream_messages m + 1\<rparr>) s
      in s1\<lparr>sub_handled := sub_handled s1 @ [data]\<rparr>)"

text \<open>\<^verbatim>\<open>handle_message\<close> at time \<open>now\<close>: the result, the pong deadline and the subscriber.\<close>

definition handle_message ::
  "nat \<Rightarrow> ws_error + ws_message \<Rightarrow> nat \<Rightarrow> nat \<Rightarrow> 'b subscriber
     \<Rightarrow> (ws_error + unit) \<times> nat \<times> 'b subscriber" where
  "handle_message now message pong_deadline pong_timeout s =
     (case message of
        Inl e \<Rightarrow> (Inl e, pong_deadline, s)
      | Inr msg \<Rightarrow>
          (case msg of
             Text text \<Rightarrow> (Inr (), pong_deadline, sub_deliver text s)
           | Binary data \<Rightarrow> (Inr (), pong_deadline, sub_deliver data s)
           | Pong _ \<Rightarrow> (Inr (), now + pong_timeout, s)
           | Close \<Rightarrow> (Inl ''Connection closed normally'', pong_deadline, s)
           | Ping _ \<Rightarrow> (Inr (), pong_deadline, s)))"

datatype upstream_event =
    DeadlineCheck nat
  | PingFailed ws_error
  | Upstream nat "(ws_error + ws_message) option"

text \<open>
  The listening loop; \<open>None\<close> when it is still running after the given events. The timer of the deadline check panics
  for a pong timeout of zero; this is part of the theory on shutdown.
\<close>

fun listen_loop ::
  "nat \<Rightarrow> upstream_event list \<Rightarrow> nat \<Rightarrow> 'b subscriber \<Rightarrow> (ws_error + unit) option \<times> 'b subscriber" where
  "listen_loop pong_timeout [] deadline s = (None, s)"
| "listen_loop pong_timeout (DeadlineCheck now # es) deadline s =
     (if now \<ge> deadline then (Some (Inl ''Connection closed normally''), s)
      else listen_loop pong_timeout es deadline s)"
| "listen_loop pong_timeout (PingFailed e # es) deadline s = (Some (Inl e), s)"
| "listen_loop pong_timeout (Upstream now message # es) deadline s =
     (case message of
        None \<Rightarrow> (Some (Inr ()), s)
      | Some msg \<Rightarrow>
          (case handle_message now msg deadline pong_timeout s of
             (Inl e, deadline', s') \<Rightarrow> (Some (Inl e), s')
           | (Inr _, deadline', s') \<Rightarrow> listen_loop pong_timeout es deadline' s'))"

text \<open>One upstream connection: the error of \<^verbatim>\<open>connect_async\<close>, or the time it succeeded and what follows.\<close>

type_synonym connection = "ws_error + nat \<times> upstream_event list"

definition connect_and_listen ::
  "'b backoff_ops \<Rightarrow> connection \<Rightarrow> 'b subscriber \<Rightarrow> (ws_error + unit) option \<times> 'b subscriber" where
  "connect_and_listen bo conn s =
     (let s1 = sub_count (\<lambda>m. m\<lparr>sm_connection_attempts := sm_connection_attempts m + 1\<rparr>) s in
      case conn of
        Inl e \<Rightarrow>
          (Some (Inl e), sub_count (\<lambda>m. m\<lparr>sm_connection_failures := sm_connection_failures m + 1\<rparr>) s1)
      | Inr (now, es) \<Rightarrow>
          (let s2 = sub_count (\<lambda>m. m\<lparr>sm_connection_successes := sm_connection_successes m + 1,
                                     sm_upstream_connections := sm_upstream_connections m + 1\<rparr>) s1;
               s3 = s2\<lparr>sub_backoff := bo_reset bo (sub_backoff s2)\<rparr>
           in listen_loop (so_pong_timeout (sub_options s3)) es
                (now + so_initial_grace_period (sub_options s3)) s3))"

text \<open>What \<^verbatim>\<open>run\<close> does with the result of a connection: count the error and wait for the backoff.\<close>

definition after_connection ::
  "'b backoff_ops \<Rightarrow> ws_error + unit \<Rightarrow> 'b subscriber \<Rightarrow> 'b subscriber" where
  "after_connection bo result s =
     (case result of
        Inr _ \<Rightarrow> s
      | Inl e \<Rightarrow>
          (let s1 = sub_count (\<lambda>m. m\<lparr>sm_upstream_errors := sm_upstream_errors m + 1,
                                     sm_upstream_connections := sm_upstream_connections m - 1\<rparr>) s;
               (d, b) = bo_next bo (sub_backoff s1)
           in s1\<lparr>sub_backoff := b,
                 sub_slept := sub_slept s1 @ (case d of Some duration \<Rightarrow> [duration] | None \<Rightarrow> [])\<rparr>))"

text \<open>\<^verbatim>\<open>run\<close> over the given connections, until cancelled or while one is still open.\<close>

fun subscriber_run :: "'b backoff_ops \<Rightarrow> connection list \<Rightarrow> 'b subscriber \<Rightarrow> 'b subscriber" where
  "subscriber_run bo [] s = s"
| "subscriber_run bo (c # cs) s =
     (case connect_and_listen bo c s of
        (None, s1) \<Rightarrow> s1
      | (Some result, s1) \<Rightarrow> subscriber_run bo cs (after_connection bo result s1))"

section \<open>main.rs\<close>

text \<open>\<^verbatim>\<open>metric.splitn(2, '=')\<close>.\<close>

fun splitn2 :: "char \<Rightarrow> string \<Rightarrow> string list" where
  "splitn2 c [] = [[]]"
| "splitn2 c (x # xs) =
     (if x = c then [[], xs]
      else case splitn2 c xs of [] \<Rightarrow> [[x]] | p # ps \<Rightarrow> (x # p) # ps)"

definition parse_global_metric :: "string \<Rightarrow> (string \<times> string) option" where
  "parse_global_metric metric =
     (if metric = [] then None
      else case splitn2 CHR ''='' metric of
             [label, value] \<Rightarrow> if label = [] \<or> value = [] then None else Some (label, value)
           | _ \<Rightarrow> None)"

definition parse_global_metrics :: "string \<Rightarrow> (string \<times> string) list" where
  "parse_global_metrics metrics = List.map_filter parse_global_metric (split_on CHR '','' metrics)"

text \<open>
  The broadcast channel of the proxy with its number of receivers, and the handler of the subscribers.
  \<open>main\<close> keeps one receiver open, which is no client and is not counted by the gauge. The \<^verbatim>\<open>brotli\<close>
  compressor is the parameter \<open>compress\<close>.
\<close>

record ws_channel =
  wc_receivers :: nat
  wc_sent :: "ws_message list"
  wc_active_connections :: int

definition main_listener :: "bool \<Rightarrow> (bytes \<Rightarrow> bytes) \<Rightarrow> bytes \<Rightarrow> ws_channel \<Rightarrow> ws_channel" where
  "main_listener enable_compression compress data ch =
     (let ch1 = ch\<lparr>wc_active_connections := int (wc_receivers ch) - 1\<rparr>;
          message_data = (if enable_compression then compress data else data)
      in if wc_receivers ch1 = 0 then ch1 else ch1\<lparr>wc_sent := wc_sent ch1 @ [Binary message_data]\<rparr>)"

text \<open>The keys: empty arguments are dropped; with none left the endpoint is public.\<close>

datatype auth_setup = AuthReady "authentication option" | SetupPanic

definition main_authentication :: "string list \<Rightarrow> auth_setup" where
  "main_authentication args =
     (let api_keys = filter (\<lambda>s. s \<noteq> []) args in
      if api_keys = [] then AuthReady None
      else case authentication_try_from api_keys of
             AuthOk auth \<Rightarrow> AuthReady (Some auth)
           | AuthErr _ \<Rightarrow> SetupPanic
           | AuthPanic \<Rightarrow> SetupPanic)"

definition main_app_rate_limits :: "authentication option \<Rightarrow> string \<rightharpoonup> nat" where
  "main_app_rate_limits auth = (case auth of Some a \<Rightarrow> get_rate_limits a | None \<Rightarrow> Map.empty)"

text \<open>The limiter: Redis when a URL is given and the client opens, else in memory.\<close>

datatype 'r limiter = RedisLimiter "'r redis_rate_limit" | InMemoryLimiter in_memory_rate_limit

definition main_rate_limiter ::
  "'r redis \<Rightarrow> nat \<Rightarrow> (string \<Rightarrow> 'r option) \<Rightarrow> string \<Rightarrow> string option \<Rightarrow> nat \<Rightarrow> nat \<Rightarrow> string
     \<Rightarrow> authentication option \<Rightarrow> 'r limiter" where
  "main_rate_limiter rd now open_client instance_id redis_url instance_limit per_ip_limit key_prefix auth =
     (let limits = main_app_rate_limits auth;
          in_memory = InMemoryLimiter (in_memory_new instance_limit per_ip_limit limits)
      in case redis_url of
           Some url \<Rightarrow>
             (case open_client url of
                Some r \<Rightarrow> RedisLimiter (redis_new rd now r instance_limit per_ip_limit limits key_prefix instance_id)
              | None \<Rightarrow> in_memory)
         | None \<Rightarrow> in_memory)"

section \<open>Properties of the upstream connections\<close>

lemma sub_count_sel [simp]:
  "sub_metrics (sub_count f s) = f (sub_metrics s)" "sub_handled (sub_count f s) = sub_handled s"
  "sub_options (sub_count f s) = sub_options s" "sub_backoff (sub_count f s) = sub_backoff s"
  "sub_slept (sub_count f s) = sub_slept s"
  by (simp_all add: sub_count_def)

fun payload_of :: "upstream_event \<Rightarrow> bytes list" where
  "payload_of (Upstream now (Some (Inr (Text text)))) = [text]"
| "payload_of (Upstream now (Some (Inr (Binary data)))) = [data]"
| "payload_of _ = []"

lemma handle_message_handled:
  "handle_message now msg d T s = (r, d', s') \<Longrightarrow>
     sub_handled s' = sub_handled s @ payload_of (Upstream now (Some msg))"
  by (auto simp: handle_message_def sub_deliver_def Let_def split: sum.splits ws_message.splits)

text \<open>
  The events before the one that ends the connection, said without the code's loop: a failed ping, the end
  of the stream, an error, a close, or a deadline check at a time not before the deadline, which every
  pong moves.
\<close>

fun live_events :: "nat \<Rightarrow> nat \<Rightarrow> upstream_event list \<Rightarrow> upstream_event list" where
  "live_events T deadline [] = []"
| "live_events T deadline (DeadlineCheck now # es) =
     (if now < deadline then DeadlineCheck now # live_events T deadline es else [])"
| "live_events T deadline (Upstream now (Some (Inr (Pong d))) # es) =
     Upstream now (Some (Inr (Pong d))) # live_events T (now + T) es"
| "live_events T deadline (Upstream now (Some (Inr Close)) # es) = []"
| "live_events T deadline (Upstream now (Some (Inr msg)) # es) =
     Upstream now (Some (Inr msg)) # live_events T deadline es"
| "live_events T deadline (_ # es) = []"

lemma listen_loop_handled:
  "sub_handled (snd (listen_loop T es d s)) = sub_handled s @ concat (map payload_of (live_events T d es)) \<and>
   sm_upstream_messages (sub_metrics (snd (listen_loop T es d s))) =
     sm_upstream_messages (sub_metrics s) + length (concat (map payload_of (live_events T d es))) \<and>
   (fst (listen_loop T es d s) = None \<longleftrightarrow> live_events T d es = es)"
  by (induction T d es arbitrary: s rule: live_events.induct)
    (auto simp: handle_message_def sub_deliver_def Let_def)

lemma main_listener_sent:
  assumes "0 < wc_receivers ch"
  shows "wc_sent (fold (main_listener enable_compression compress) datas ch) =
     wc_sent ch @ map (\<lambda>data. Binary (if enable_compression then compress data else data)) datas"
  using assms by (induction datas arbitrary: ch) (auto simp: main_listener_def Let_def)

text \<open>
  What arrives is what is broadcast. The handler is given exactly the text and binary messages received
  before the event that ends the connection, in order and unchanged, they are counted, and the connection is
  open as long as no such event came; and since the channel always has a receiver, each becomes one binary
  message on the broadcast channel, compressed if asked for.
\<close>

theorem upstream_messages_are_broadcast_in_order:
  assumes "0 < wc_receivers ch"
    and "live = live_events (so_pong_timeout (sub_options s)) (now + so_initial_grace_period (sub_options s)) es"
    and "connect_and_listen bo (Inr (now, es)) s = (r, s')"
  shows "sub_handled s' = sub_handled s @ concat (map payload_of live) \<and>
    sm_upstream_messages (sub_metrics s') =
      sm_upstream_messages (sub_metrics s) + length (concat (map payload_of live)) \<and>
    (r = None \<longleftrightarrow> live = es) \<and>
    wc_sent (fold (main_listener enable_compression compress) (concat (map payload_of live)) ch) =
      wc_sent ch @ map (\<lambda>data. Binary (if enable_compression then compress data else data))
        (concat (map payload_of live))"
proof -
  define u where "u = sub_count (\<lambda>m. m\<lparr>sm_connection_successes := sm_connection_successes m + 1,
      sm_upstream_connections := sm_upstream_connections m + 1\<rparr>)
    (sub_count (\<lambda>m. m\<lparr>sm_connection_attempts := sm_connection_attempts m + 1\<rparr>) s)"
  define v where "v = u\<lparr>sub_backoff := bo_reset bo (sub_backoff u)\<rparr>"
  have v: "sub_options v = sub_options s" "sub_handled v = sub_handled s"
    "sm_upstream_messages (sub_metrics v) = sm_upstream_messages (sub_metrics s)"
    by (simp_all add: v_def u_def)
  have "listen_loop (so_pong_timeout (sub_options s)) es
      (now + so_initial_grace_period (sub_options s)) v = (r, s')"
    using assms(3) by (simp add: connect_and_listen_def Let_def u_def v_def)
  with listen_loop_handled [of "so_pong_timeout (sub_options s)" es
      "now + so_initial_grace_period (sub_options s)" v]
  show ?thesis by (simp add: v main_listener_sent assms(1,2))
qed

lemma handle_message_metrics:
  "handle_message now msg d T s = (r, d', s') \<Longrightarrow>
     sm_upstream_connections (sub_metrics s') = sm_upstream_connections (sub_metrics s) \<and>
     sm_connection_successes (sub_metrics s') = sm_connection_successes (sub_metrics s) \<and>
     sm_upstream_errors (sub_metrics s') = sm_upstream_errors (sub_metrics s)"
  by (auto simp: handle_message_def sub_deliver_def Let_def split: sum.splits ws_message.splits)

lemma listen_loop_metrics:
  "listen_loop T es d s = (r, s') \<Longrightarrow>
     sm_upstream_connections (sub_metrics s') = sm_upstream_connections (sub_metrics s) \<and>
     sm_connection_successes (sub_metrics s') = sm_connection_successes (sub_metrics s) \<and>
     sm_upstream_errors (sub_metrics s') = sm_upstream_errors (sub_metrics s)"
  by (induction T es d s rule: listen_loop.induct)
    (auto dest!: handle_message_metrics split: if_splits option.splits prod.splits sum.splits)

text \<open>The gauge is the number of successful connections minus the number of errors.\<close>

definition gauge_balance :: "'b subscriber \<Rightarrow> int" where
  "gauge_balance s =
     sm_upstream_connections (sub_metrics s) - int (sm_connection_successes (sub_metrics s)) +
     int (sm_upstream_errors (sub_metrics s))"

lemma connect_and_listen_balance:
  "connect_and_listen bo c s = (r, s') \<Longrightarrow> gauge_balance s' = gauge_balance s"
  by (auto simp: connect_and_listen_def gauge_balance_def Let_def dest!: listen_loop_metrics
      split: sum.splits prod.splits)

lemma after_connection_balance: "gauge_balance (after_connection bo r s) = gauge_balance s"
  by (auto simp: after_connection_def gauge_balance_def Let_def split: sum.splits prod.splits)

lemma subscriber_run_balance: "gauge_balance (subscriber_run bo cs s) = gauge_balance s"
  by (induction cs arbitrary: s)
    (auto simp: after_connection_balance dest: connect_and_listen_balance split: prod.splits option.splits)

text \<open>
  The gauge of active upstream connections is wrong. It always equals the successful connections minus
  all errors: \<open>n\<close> failed connection attempts take it to \<open>-n\<close> although there never was a connection, and
  \<open>n\<close> connections that the upstream closed in an orderly way leave it at \<open>n\<close> although none is open.
\<close>

theorem upstream_gauge_drifts:
  fixes n :: nat and bo :: "'b backoff_ops"
  shows "sm_upstream_connections (sub_metrics (subscriber_run bo cs
      (subscriber_new exponential subscriber_metrics_default opts))) =
    int (sm_connection_successes (sub_metrics (subscriber_run bo cs
      (subscriber_new exponential subscriber_metrics_default opts)))) -
    int (sm_upstream_errors (sub_metrics (subscriber_run bo cs
      (subscriber_new exponential subscriber_metrics_default opts)))) \<and>
   sm_upstream_connections (sub_metrics (subscriber_run bo (replicate n (Inl e))
      (subscriber_new exponential subscriber_metrics_default opts))) = - int n \<and>
   sm_upstream_connections (sub_metrics (subscriber_run bo (replicate n (Inr (now, [Upstream t None])))
      (subscriber_new exponential subscriber_metrics_default opts))) = int n"
proof -
  let ?new = "subscriber_new exponential subscriber_metrics_default opts"
  have fail: "sm_upstream_connections (sub_metrics (subscriber_run bo (replicate n (Inl e)) s)) =
      sm_upstream_connections (sub_metrics s) - int n" for s :: "'b subscriber"
    by (induction n arbitrary: s)
      (auto simp: connect_and_listen_def after_connection_def Let_def split: prod.splits)
  have ok: "sm_upstream_connections (sub_metrics
        (subscriber_run bo (replicate n (Inr (now, [Upstream t None]))) s)) =
      sm_upstream_connections (sub_metrics s) + int n" for s :: "'b subscriber"
    by (induction n arbitrary: s) (auto simp: connect_and_listen_def after_connection_def Let_def)
  have "gauge_balance ?new = 0"
    by (simp add: gauge_balance_def subscriber_new_def subscriber_metrics_default_def)
  then have "gauge_balance (subscriber_run bo cs ?new) = 0" by (simp add: subscriber_run_balance)
  moreover have "sm_upstream_connections (sub_metrics ?new) = 0"
    by (simp add: subscriber_new_def subscriber_metrics_default_def)
  ultimately show ?thesis by (simp add: fail ok gauge_balance_def)
qed

text \<open>
  The backoff of the witness doubles the pause.
\<close>

definition sample_backoff :: "nat backoff_ops" where
  "sample_backoff = \<lparr>bo_reset = (\<lambda>_. 500), bo_next = (\<lambda>b. (Some b, 2 * b))\<rparr>"

definition sample_upstream :: "upstream_event list" where
  "sample_upstream = [Upstream 1 (Some (Inr (Text [1]))), DeadlineCheck 4000,
     Upstream 4500 (Some (Inr (Pong []))), DeadlineCheck 6000, Upstream 6500 (Some (Inr (Binary [2]))),
     DeadlineCheck 9000, Upstream 9100 (Some (Inr (Text [3])))]"

definition sample_connection :: "(ws_error + unit) option \<times> nat subscriber" where
  "sample_connection = connect_and_listen sample_backoff (Inr (0, sample_upstream))
     (subscriber_new (\<lambda>i m. i) subscriber_metrics_default subscriber_options_default)"

theorem upstream_messages_are_broadcast_in_order_witness:
  "sub_handled (snd sample_connection) = [[1], [2]] \<and> fst sample_connection \<noteq> None \<and>
   wc_sent (fold (main_listener False id) [[1], [2]] \<lparr>wc_receivers = 1, wc_sent = [], wc_active_connections = 0\<rparr>) =
     [Binary [1], Binary [2]]"
proof -
  let ?ch = "\<lparr>wc_receivers = 1, wc_sent = [], wc_active_connections = 0\<rparr>"
  let ?new = "subscriber_new (\<lambda>i m. i) subscriber_metrics_default subscriber_options_default :: nat subscriber"
  have new: "sub_handled ?new = []" by (simp add: subscriber_new_def)
  have live: "live_events (so_pong_timeout (sub_options ?new)) (0 + so_initial_grace_period (sub_options ?new))
      sample_upstream = take 5 sample_upstream"
    by (simp add: subscriber_new_def subscriber_options_default_def sample_upstream_def)
  have "connect_and_listen sample_backoff (Inr (0, sample_upstream)) ?new =
      (fst sample_connection, snd sample_connection)" by (simp add: sample_connection_def)
  from upstream_messages_are_broadcast_in_order [OF _ live [symmetric] this, of ?ch False id] new
  show ?thesis by (simp add: sample_upstream_def)
qed

section \<open>Labels\<close>

lemma splitn2_append: "c \<notin> set l \<Longrightarrow> splitn2 c (l @ c # v) = [l, v]"
  by (induction l) auto

definition render_label :: "string \<times> string \<Rightarrow> string" where
  "render_label lv = fst lv @ ''='' @ snd lv"

lemma parse_global_metric_render:
  "fst lv \<noteq> [] \<Longrightarrow> snd lv \<noteq> [] \<Longrightarrow> CHR ''='' \<notin> set (fst lv) \<Longrightarrow>
     parse_global_metric (render_label lv) = Some lv"
  by (simp add: parse_global_metric_def render_label_def splitn2_append)

text \<open>
  global metric labels are read back. For labels and values that are nonempty and without commas, labels
  also without an equals sign, parsing the comma-separated text gives the list back; a value may
  contain equals signs.
\<close>

theorem global_labels_round_trip:
  assumes "lvs \<noteq> []"
    and "\<forall>lv \<in> set lvs. fst lv \<noteq> [] \<and> snd lv \<noteq> [] \<and> CHR '','' \<notin> set (fst lv) \<and>
      CHR '','' \<notin> set (snd lv) \<and> CHR ''='' \<notin> set (fst lv)"
  shows "parse_global_metrics (join_with CHR '','' (map render_label lvs)) = lvs"
proof -
  have "split_on CHR '','' (join_with CHR '','' (map render_label lvs)) = map render_label lvs"
    using assms by (intro split_join) (auto simp: render_label_def)
  moreover have "List.map_filter parse_global_metric (map render_label lvs) = lvs"
    using assms(2) by (induction lvs) (simp_all add: parse_global_metric_render)
  ultimately show ?thesis by (simp add: parse_global_metrics_def)
qed

theorem global_labels_round_trip_witness:
  "parse_global_metrics ''env=prod,query=a=b'' = [(''env'', ''prod''), (''query'', ''a=b'')]"
  using global_labels_round_trip [of "[(''env'', ''prod''), (''query'', ''a=b'')]"]
  by (simp add: render_label_def)

end
