(* ===== verification/Ws_Relay.thy ===== *)
theory Ws_Relay
  imports Ws_Subscriber "HOL-Library.Multiset"
begin

text \<open>
  The websocket proxy as a whole: what \<^verbatim>\<open>websocket-proxy/src/main.rs\<close> puts together. The subscribers feed the
  broadcast channel, the ping task feeds it too, the server admits clients through the rate limiter, and each
  admitted client is a \<^verbatim>\<open>Registry::subscribe\<close> loop with its own position in the channel, which keeps the
  last \<open>cap\<close> messages. \<open>relay_step\<close> is every step of these parts in any interleaving, for any limiter.
\<close>

section \<open>State\<close>

record relay_client =
  rc_ticket :: ticket
  rc_joined :: nat
  rc_pos :: nat
  rc_loop :: client_loop

record 's relay =
  ry_state :: "'s ws_state"
  ry_auth :: "authentication option"
  ry_channel :: ws_channel
  ry_clients :: "relay_client list"

definition relay_new :: "'s \<Rightarrow> authentication option \<Rightarrow> string \<Rightarrow> 's relay" where
  "relay_new limiter auth header =
     \<lparr>ry_state = ws_listen_state limiter ws_metrics_default auth header, ry_auth = auth,
      ry_channel = \<lparr>wc_receivers = 1, wc_sent = [], wc_active_connections = 0\<rparr>, ry_clients = []\<rparr>"

section \<open>Start\<close>

text \<open>
  \<^verbatim>\<open>main\<close> up to the point where everything runs. What it needs of the system is \<open>ws_system\<close>: the host name, the
  Prometheus exporter with its labels, and Redis. \<^verbatim>\<open>broadcast::channel\<close> panics on a capacity of zero.
\<close>

record ws_args =
  wa_upstream_ws :: "string list"
  wa_message_buffer_size :: nat
  wa_instance_connection_limit :: nat
  wa_per_ip_connection_limit :: nat
  wa_enable_compression :: bool
  wa_ip_addr_http_header :: string
  wa_metrics :: bool
  wa_api_keys :: "string list"
  wa_metrics_global_labels :: string
  wa_metrics_host_label :: bool
  wa_subscriber_max_interval_ms :: u64
  wa_subscriber_ping_interval_ms :: u64
  wa_subscriber_pong_timeout_ms :: u64
  wa_redis_url :: "string option"
  wa_redis_key_prefix :: string
  wa_client_ping_enabled :: bool
  wa_client_ping_interval_ms :: u64
  wa_client_pong_timeout_ms :: u64

record 'r ws_system =
  wsys_hostname :: "string option"
  wsys_install :: "(string \<times> string) list \<Rightarrow> bool"
  wsys_redis :: "'r redis"
  wsys_open :: "string \<Rightarrow> 'r option"
  wsys_now :: nat
  wsys_instance_id :: string

record 'r ws_running =
  wr_auth :: "authentication option"
  wr_limiter :: "'r limiter"
  wr_subscribers :: "(string \<times> subscriber_options) list"
  wr_labels :: "(string \<times> string) list option"

datatype 'r ws_start = WsRunning "'r ws_running" | WsPanic

definition main_metrics :: "'r ws_system \<Rightarrow> ws_args \<Rightarrow> (string \<times> string) list option option" where
  "main_metrics sys args =
     (if \<not> wa_metrics args then Some None
      else
        (let labels = parse_global_metrics (wa_metrics_global_labels args);
             install = (\<lambda>ls. if wsys_install sys ls then Some (Some ls) else None)
         in if wa_metrics_host_label args
            then (case wsys_hostname sys of None \<Rightarrow> None | Some h \<Rightarrow> install ((''hostname'', h) # labels))
            else install labels))"

definition main_subscriber_options :: "ws_args \<Rightarrow> subscriber_options" where
  "main_subscriber_options args =
     with_initial_grace_period 5000
       (with_backoff_initial_interval 500
         (with_pong_timeout (unat (wa_subscriber_pong_timeout_ms args))
           (with_ping_interval (unat (wa_subscriber_ping_interval_ms args))
             (with_max_backoff_interval (unat (wa_subscriber_max_interval_ms args)) subscriber_options_default))))"

definition ws_main :: "'r ws_system \<Rightarrow> ws_args \<Rightarrow> 'r ws_start" where
  "ws_main sys args =
     (case main_authentication (wa_api_keys args) of
        SetupPanic \<Rightarrow> WsPanic
      | AuthReady auth \<Rightarrow>
          (case main_metrics sys args of
             None \<Rightarrow> WsPanic
           | Some labels \<Rightarrow>
               if wa_upstream_ws args = [] \<or> wa_message_buffer_size args = 0 then WsPanic
               else WsRunning
                 \<lparr>wr_auth = auth,
                  wr_limiter = main_rate_limiter (wsys_redis sys) (wsys_now sys) (wsys_open sys) (wsys_instance_id sys)
                    (wa_redis_url args) (wa_instance_connection_limit args) (wa_per_ip_connection_limit args)
                    (wa_redis_key_prefix args) auth,
                  wr_subscribers = map (\<lambda>uri. (uri, main_subscriber_options args)) (wa_upstream_ws args),
                  wr_labels = labels\<rparr>))"

section \<open>Steps\<close>

definition relay_upstream :: "bool \<Rightarrow> (bytes \<Rightarrow> bytes) \<Rightarrow> bytes \<Rightarrow> 's relay \<Rightarrow> 's relay" where
  "relay_upstream enable_compression compress data r =
     r\<lparr>ry_channel := main_listener enable_compression compress data (ry_channel r)\<rparr>"

text \<open>A tick of the ping task.\<close>

definition relay_ping :: "'s relay \<Rightarrow> 's relay" where
  "relay_ping r =
     (let ch = ry_channel r in
      if wc_receivers ch = 0 then r else r\<lparr>ry_channel := ch\<lparr>wc_sent := wc_sent ch @ [Ping []]\<rparr>\<rparr>)"

text \<open>
  A request for the websocket endpoint, with a key in its path or not, and whether the upgrade of the admitted
  connection works. Which of the two endpoints exists depends on the keys; the other one is not found.
\<close>

definition relay_request ::
  "'s acquire_op \<Rightarrow> (string \<Rightarrow> string option) \<Rightarrow> ip_addr \<Rightarrow> (string \<rightharpoonup> string) \<Rightarrow> string option \<Rightarrow> 's relay
     \<Rightarrow> ws_response \<times> 's ws_state" where
  "relay_request acquire to_str addr headers key r =
     (case (ry_auth r, key) of
        (None, None) \<Rightarrow> unauthenticated_websocket_handler acquire to_str addr headers (ry_state r)
      | (Some _, Some api_key) \<Rightarrow>
          authenticated_websocket_handler acquire to_str addr headers api_key (ry_state r)
      | _ \<Rightarrow> (WsStatus 404 JNull, ry_state r))"

definition relay_connect ::
  "'s acquire_op \<Rightarrow> (ticket \<Rightarrow> 's \<Rightarrow> 's) \<Rightarrow> (string \<Rightarrow> string option) \<Rightarrow> ip_addr \<Rightarrow> (string \<rightharpoonup> string)
     \<Rightarrow> string option \<Rightarrow> bool \<Rightarrow> 's relay \<Rightarrow> 's relay" where
  "relay_connect acquire drop_ticket to_str addr headers key upgraded r =
     (case relay_request acquire to_str addr headers key r of
        (WsStatus _ _, st) \<Rightarrow> r\<lparr>ry_state := st\<rparr>
      | (WsUpgrade ticket, st) \<Rightarrow>
          if upgraded then
            (let ch = ry_channel r; l = subscribe_start (wst_metrics st); n = length (wc_sent ch) in
             r\<lparr>ry_state := st\<lparr>wst_metrics := cl_metrics l\<rparr>,
               ry_channel := ch\<lparr>wc_receivers := wc_receivers ch + 1\<rparr>,
               ry_clients := ry_clients r @
                 [\<lparr>rc_ticket = ticket, rc_joined = n, rc_pos = n, rc_loop = l\<rparr>]\<rparr>)
          else r\<lparr>ry_state := st\<lparr>wst_rate_limiter := drop_ticket ticket (wst_rate_limiter st)\<rparr>\<rparr>)"

text \<open>What a client's loop waits for: the channel, with the result of sending, or its reader.\<close>

datatype relay_event = ChannelReady bool | ReaderGone

definition relay_loop_event :: "nat \<Rightarrow> ws_message list \<Rightarrow> nat \<Rightarrow> relay_event \<Rightarrow> client_event option" where
  "relay_loop_event cap sent pos ev =
     (case ev of
        ReaderGone \<Rightarrow> Some ReaderDisconnect
      | ChannelReady ok \<Rightarrow>
          if pos + cap < length sent then Some BroadcastLagged
          else if pos < length sent then Some (Broadcast (sent ! pos) ok)
          else None)"

text \<open>A loop that ends drops the client: its ticket goes back to the limiter, its receiver is gone.\<close>

definition relay_client_step ::
  "(ticket \<Rightarrow> 's \<Rightarrow> 's) \<Rightarrow> nat \<Rightarrow> nat \<Rightarrow> relay_event \<Rightarrow> 's relay \<Rightarrow> 's relay" where
  "relay_client_step drop_ticket cap i ev r =
     (let c = ry_clients r ! i; st = ry_state r; ch = ry_channel r in
      if length (ry_clients r) \<le> i \<or> \<not> cl_open (rc_loop c) then r
      else
        (case relay_loop_event cap (wc_sent ch) (rc_pos c) ev of
           None \<Rightarrow> r
         | Some e \<Rightarrow>
             (let l = subscribe_step e ((rc_loop c)\<lparr>cl_metrics := wst_metrics st\<rparr>);
                  st1 = st\<lparr>wst_metrics := cl_metrics l\<rparr>;
                  c1 = c\<lparr>rc_loop := l, rc_pos := rc_pos c + (case e of Broadcast _ _ \<Rightarrow> 1 | _ \<Rightarrow> 0)\<rparr>;
                  r1 = r\<lparr>ry_clients := (ry_clients r)[i := c1]\<rparr>
              in if cl_open l then r1\<lparr>ry_state := st1\<rparr>
                 else r1\<lparr>ry_state := st1\<lparr>wst_rate_limiter := drop_ticket (rc_ticket c) (wst_rate_limiter st1)\<rparr>,
                         ry_channel := ch\<lparr>wc_receivers := wc_receivers ch - 1\<rparr>\<rparr>)))"

inductive relay_step ::
  "'s acquire_op \<Rightarrow> (ticket \<Rightarrow> 's \<Rightarrow> 's) \<Rightarrow> nat \<Rightarrow> 's relay \<Rightarrow> 's relay \<Rightarrow> bool"
  for acquire drop_ticket cap where
  relay_msg: "relay_step acquire drop_ticket cap r (relay_upstream enable_compression compress data r)"
| relay_tick: "relay_step acquire drop_ticket cap r (relay_ping r)"
| relay_open: "relay_step acquire drop_ticket cap r
     (relay_connect acquire drop_ticket to_str addr headers key upgraded r)"
| relay_client: "relay_step acquire drop_ticket cap r (relay_client_step drop_ticket cap i ev r)"

section \<open>Invariant\<close>

definition open_tickets :: "relay_client list \<Rightarrow> ticket list" where
  "open_tickets cs = map rc_ticket (filter (cl_open \<circ> rc_loop) cs)"

definition relay_client_ok :: "ws_message list \<Rightarrow> relay_client \<Rightarrow> bool" where
  "relay_client_ok sent c \<longleftrightarrow>
     rc_joined c \<le> rc_pos c \<and> rc_pos c \<le> length sent \<and>
     prefix (cl_delivered (rc_loop c)) (drop (rc_joined c) (take (rc_pos c) sent)) \<and>
     (cl_open (rc_loop c) \<longrightarrow> cl_delivered (rc_loop c) = drop (rc_joined c) (take (rc_pos c) sent))"

definition relay_ok :: "'s relay \<Rightarrow> bool" where
  "relay_ok r \<longleftrightarrow>
     (\<forall>c \<in> set (ry_clients r). relay_client_ok (wc_sent (ry_channel r)) c) \<and>
     wc_receivers (ry_channel r) = Suc (length (open_tickets (ry_clients r))) \<and>
     wm_new_connections (wst_metrics (ry_state r)) =
       wm_closed_connections (wst_metrics (ry_state r)) + length (open_tickets (ry_clients r))"

lemma open_tickets_append [simp]:
  "open_tickets (cs @ [c]) = open_tickets cs @ (if cl_open (rc_loop c) then [rc_ticket c] else [])"
  by (simp add: open_tickets_def)

text \<open>An update that keeps a client open keeps the tickets; one that closes it removes its ticket.\<close>

lemma open_tickets_update:
  assumes "i < length cs" "cl_open (rc_loop (cs ! i))" "rc_ticket c = rc_ticket (cs ! i)"
  shows "cl_open (rc_loop c) \<Longrightarrow> open_tickets (cs[i := c]) = open_tickets cs"
    and "\<not> cl_open (rc_loop c) \<Longrightarrow> mset (open_tickets (cs[i := c])) =
      mset (open_tickets cs) - {#rc_ticket c#} \<and> rc_ticket c \<in> set (open_tickets cs)"
proof -
  have cs: "cs = take i cs @ cs ! i # drop (Suc i) cs"
    using assms(1) by (rule id_take_nth_drop)
  have upd: "cs[i := c] = take i cs @ c # drop (Suc i) cs"
    using assms(1) by (rule upd_conv_take_nth_drop)
  have old: "open_tickets cs = open_tickets (take i cs) @ rc_ticket (cs ! i) # open_tickets (drop (Suc i) cs)"
    unfolding open_tickets_def by (subst cs) (use assms(2) in simp)
  show "cl_open (rc_loop c) \<Longrightarrow> open_tickets (cs[i := c]) = open_tickets cs"
    unfolding old by (simp add: open_tickets_def upd assms(3))
  show "\<not> cl_open (rc_loop c) \<Longrightarrow> mset (open_tickets (cs[i := c])) =
      mset (open_tickets cs) - {#rc_ticket c#} \<and> rc_ticket c \<in> set (open_tickets cs)"
    unfolding old by (simp add: open_tickets_def upd assms(3))
qed

lemma relay_client_ok_append: "relay_client_ok sent c \<Longrightarrow> relay_client_ok (sent @ rest) c"
  by (auto simp: relay_client_ok_def)

lemma relay_client_ok_receive:
  assumes "relay_client_ok sent c" "cl_open (rc_loop c)" "rc_pos c < length sent"
    and "cl_delivered l = cl_delivered (rc_loop c) @ (if cl_open l then [sent ! rc_pos c] else [])"
  shows "relay_client_ok sent (c\<lparr>rc_loop := l, rc_pos := Suc (rc_pos c)\<rparr>)"
proof -
  have "drop (rc_joined c) (take (Suc (rc_pos c)) sent) =
      drop (rc_joined c) (take (rc_pos c) sent) @ [sent ! rc_pos c]"
    using assms(1,3) by (simp add: take_Suc_conv_app_nth relay_client_ok_def)
  with assms show ?thesis by (auto simp: relay_client_ok_def)
qed

text \<open>What one turn of a client's loop does.\<close>

lemma subscribe_step_effect:
  assumes "cl_open l"
  shows "cl_delivered (subscribe_step e l) = cl_delivered l @
      (case e of Broadcast msg ok \<Rightarrow> if cl_open (subscribe_step e l) then [msg] else [] | _ \<Rightarrow> [])"
    and "wm_new_connections (cl_metrics (subscribe_step e l)) = wm_new_connections (cl_metrics l)"
    and "wm_closed_connections (cl_metrics (subscribe_step e l)) =
      wm_closed_connections (cl_metrics l) + (if cl_open (subscribe_step e l) then 0 else 1)"
    and "\<not> (\<exists>msg ok. e = Broadcast msg ok) \<Longrightarrow> \<not> cl_open (subscribe_step e l)"
  using assms by (cases e; auto simp: Let_def record_message_sent_def)+

lemma relay_loop_event_broadcast:
  "relay_loop_event cap sent pos ev = Some (Broadcast msg ok) \<Longrightarrow> pos < length sent \<and> msg = sent ! pos"
  by (auto simp: relay_loop_event_def split: relay_event.splits if_splits)

lemma relay_ok_upstream: "relay_ok r \<Longrightarrow> relay_ok (relay_upstream enable_compression compress data r)"
  by (auto simp: relay_ok_def relay_upstream_def main_listener_def Let_def relay_client_ok_append)

lemma relay_ok_ping: "relay_ok r \<Longrightarrow> relay_ok (relay_ping r)"
  by (auto simp: relay_ok_def relay_ping_def Let_def relay_client_ok_append)

lemma websocket_handler_metrics:
  "wm_new_connections (wst_metrics (snd (websocket_handler acquire to_str addr headers app st))) =
     wm_new_connections (wst_metrics st)"
  "wm_closed_connections (wst_metrics (snd (websocket_handler acquire to_str addr headers app st))) =
     wm_closed_connections (wst_metrics st)"
  by (simp_all add: websocket_handler_def Let_def split: prod.split sum.split option.split)

lemma relay_request_metrics:
  assumes "relay_request acquire to_str addr headers key r = (resp, st)"
  shows "wm_new_connections (wst_metrics st) = wm_new_connections (wst_metrics (ry_state r)) \<and>
    wm_closed_connections (wst_metrics st) = wm_closed_connections (wst_metrics (ry_state r))"
proof -
  have "st = snd (relay_request acquire to_str addr headers key r)" using assms by simp
  then show ?thesis
    by (simp add: relay_request_def unauthenticated_websocket_handler_def authenticated_websocket_handler_def
        websocket_handler_metrics proxy_connections_by_app_def Let_def split: prod.split option.split)
qed

lemma relay_ok_connect:
  assumes "relay_ok r"
  shows "relay_ok (relay_connect acquire drop_ticket to_str addr headers key upgraded r)"
proof -
  obtain resp st where req: "relay_request acquire to_str addr headers key r = (resp, st)" by (metis surj_pair)
  note m = relay_request_metrics [OF req]
  have "relay_client_ok sent \<lparr>rc_ticket = t, rc_joined = length sent, rc_pos = length sent, rc_loop = l\<rparr>"
    if "cl_delivered l = []" for sent t l
    using that by (simp add: relay_client_ok_def)
  with assms m show ?thesis
    by (cases resp)
      (auto simp: relay_ok_def relay_connect_def req subscribe_start_def Let_def)
qed

lemma relay_ok_client:
  assumes "relay_ok r"
  shows "relay_ok (relay_client_step drop_ticket cap i ev r)"
proof (cases "i < length (ry_clients r) \<and> cl_open (rc_loop (ry_clients r ! i)) \<and>
    (\<exists>e. relay_loop_event cap (wc_sent (ry_channel r)) (rc_pos (ry_clients r ! i)) ev = Some e)")
  case True
  let ?c = "ry_clients r ! i" and ?sent = "wc_sent (ry_channel r)" and ?st = "ry_state r"
  from True obtain e where i: "i < length (ry_clients r)" "cl_open (rc_loop ?c)"
    and e: "relay_loop_event cap ?sent (rc_pos ?c) ev = Some e" by blast
  define l where "l = subscribe_step e ((rc_loop ?c)\<lparr>cl_metrics := wst_metrics ?st\<rparr>)"
  define c1 where "c1 = ?c\<lparr>rc_loop := l, rc_pos := rc_pos ?c + (case e of Broadcast _ _ \<Rightarrow> 1 | _ \<Rightarrow> 0)\<rparr>"
  have ok: "relay_client_ok ?sent ?c" using assms i by (auto simp: relay_ok_def)
  note eff = subscribe_step_effect [of "(rc_loop ?c)\<lparr>cl_metrics := wst_metrics ?st\<rparr>" e, folded l_def, simplified, OF i(2)]
  have c1: "relay_client_ok ?sent c1"
  proof (cases "\<exists>msg ok. e = Broadcast msg ok")
    case True
    then obtain msg b where b: "e = Broadcast msg b" by blast
    then show ?thesis
      using relay_client_ok_receive [OF ok i(2), of l] relay_loop_event_broadcast [OF e [unfolded b]] eff(1)
      by (simp add: c1_def)
  next
    case False
    then have "c1 = ?c\<lparr>rc_loop := l\<rparr>" by (cases e) (auto simp: c1_def)
    moreover have "cl_delivered l = cl_delivered (rc_loop ?c)" "\<not> cl_open l"
      using eff(1,4) False by (cases e; auto)+
    ultimately show ?thesis using ok by (simp add: relay_client_ok_def)
  qed
  have t: "rc_ticket c1 = rc_ticket ?c" "rc_loop c1 = l" by (simp_all add: c1_def)
  have clients: "\<forall>c \<in> set ((ry_clients r)[i := c1]). relay_client_ok ?sent c"
    using assms c1 set_update_subset_insert [of "ry_clients r" i c1] by (auto simp: relay_ok_def)
  have step: "relay_client_step drop_ticket cap i ev r =
      (let r1 = r\<lparr>ry_clients := (ry_clients r)[i := c1]\<rparr>; st1 = ?st\<lparr>wst_metrics := cl_metrics l\<rparr> in
       if cl_open l then r1\<lparr>ry_state := st1\<rparr>
       else r1\<lparr>ry_state := st1\<lparr>wst_rate_limiter := drop_ticket (rc_ticket ?c) (wst_rate_limiter st1)\<rparr>,
               ry_channel := (ry_channel r)\<lparr>wc_receivers := wc_receivers (ry_channel r) - 1\<rparr>\<rparr>)"
    using i e by (simp add: relay_client_step_def Let_def l_def [symmetric] c1_def [symmetric])
  note upd = open_tickets_update [OF i, of c1, unfolded t]
  have "\<not> cl_open l \<Longrightarrow> Suc (length (open_tickets ((ry_clients r)[i := c1]))) = length (open_tickets (ry_clients r))"
    using upd(2) by (metis One_nat_def Suc_pred length_pos_if_in_set mset_eq_length length_remove1 mset_remove1)
  with assms clients upd(1) eff(2,3) show ?thesis
    by (cases "cl_open l") (auto simp: relay_ok_def step Let_def)
next
  case False
  then have "relay_client_step drop_ticket cap i ev r = r"
    by (auto simp: relay_client_step_def Let_def)
  with assms show ?thesis by simp
qed

lemma relay_ok_step: "relay_step acquire drop_ticket cap r r' \<Longrightarrow> relay_ok r \<Longrightarrow> relay_ok r'"
  by (induction rule: relay_step.induct)
    (simp_all only: relay_ok_upstream relay_ok_ping relay_ok_connect relay_ok_client)

interpretation relay: invariant_system "\<lambda>r. r = relay_new limiter auth header"
  "relay_step acquire drop_ticket cap" relay_ok for limiter auth header acquire drop_ticket cap
proof (unfold_locales, goal_cases)
  case (1 r)
  then show ?case
    by (simp add: relay_ok_def relay_new_def ws_listen_state_def ws_metrics_default_def open_tickets_def)
qed (rule relay_ok_step)

section \<open>The limiter\<close>

text \<open>
  The limiter together with the open clients' tickets moves only by steps of \<open>conn_step\<close>, up to the order of
  the tickets: what these steps preserve, the relay preserves.
\<close>

lemma websocket_handler_limiter:
  assumes "websocket_handler acquire to_str addr headers app st = (resp, st')"
  shows "(\<exists>a t. resp = WsUpgrade t \<and> acquire a app (wst_rate_limiter st) = (Inr t, wst_rate_limiter st')) \<or>
    (\<exists>a e. (\<exists>n j. resp = WsStatus n j) \<and> acquire a app (wst_rate_limiter st) = (Inl e, wst_rate_limiter st'))"
  using assms unfolding websocket_handler_def Let_def
  by (auto split: prod.splits sum.splits)

lemma relay_request_limiter:
  assumes "relay_request acquire to_str addr headers key r = (resp, st)"
  shows "(\<exists>a app t. resp = WsUpgrade t \<and>
      acquire a app (wst_rate_limiter (ry_state r)) = (Inr t, wst_rate_limiter st)) \<or>
    (\<exists>n j. resp = WsStatus n j) \<and>
      (wst_rate_limiter st = wst_rate_limiter (ry_state r) \<or>
       (\<exists>a app e. acquire a app (wst_rate_limiter (ry_state r)) = (Inl e, wst_rate_limiter st)))"
proof (cases "ry_auth r"; cases key)
  assume "ry_auth r = None" "key = None"
  then show ?thesis
    using assms websocket_handler_limiter [of acquire to_str addr headers None "ry_state r" resp st]
    by (auto simp: relay_request_def unauthenticated_websocket_handler_def)
next
  fix auth api_key
  assume a: "ry_auth r = Some auth" "key = Some api_key"
  show ?thesis
  proof (cases "get_application_for_key (wst_auth (ry_state r)) api_key")
    case (Some app)
    let ?st = "ry_state r\<lparr>wst_metrics := proxy_connections_by_app app (wst_metrics (ry_state r))\<rparr>"
    show ?thesis
      using assms a Some websocket_handler_limiter [of acquire to_str addr headers "Some app" ?st resp st]
      by (auto simp: relay_request_def authenticated_websocket_handler_def Let_def)
  qed (use assms a in \<open>auto simp: relay_request_def authenticated_websocket_handler_def Let_def\<close>)
qed (use assms in \<open>auto simp: relay_request_def\<close>)

lemma relay_connect_limiter:
  assumes P: "P (wst_rate_limiter (ry_state r)) (open_tickets (ry_clients r))"
    and conn: "\<And>s ts s' ts'. conn_step acquire drop_ticket (s, ts) (s', ts') \<Longrightarrow> P s ts \<Longrightarrow> P s' ts'"
    and perm: "\<And>s ts ts'. mset ts = mset ts' \<Longrightarrow> P s ts \<Longrightarrow> P s ts'"
  shows "P (wst_rate_limiter (ry_state (relay_connect acquire drop_ticket to_str addr headers key upgraded r)))
    (open_tickets (ry_clients (relay_connect acquire drop_ticket to_str addr headers key upgraded r)))"
proof -
  obtain resp st where req: "relay_request acquire to_str addr headers key r = (resp, st)" by (metis surj_pair)
  let ?s = "wst_rate_limiter (ry_state r)" and ?ts = "open_tickets (ry_clients r)"
  from relay_request_limiter [OF req] consider
      (up) a app t where "resp = WsUpgrade t" "acquire a app ?s = (Inr t, wst_rate_limiter st)"
    | (same) n j where "resp = WsStatus n j" "wst_rate_limiter st = ?s"
    | (refused) n j a app e where "resp = WsStatus n j" "acquire a app ?s = (Inl e, wst_rate_limiter st)"
    by blast
  then show ?thesis
  proof cases
    case up
    have admitted: "P (wst_rate_limiter st) (t # ?ts)" using conn [OF conn_open, OF up(2) P] .
    have "P (drop_ticket t (wst_rate_limiter st)) ?ts"
      using conn [OF conn_close [of t "t # ?ts"]] admitted by fastforce
    moreover have "P (wst_rate_limiter st) (?ts @ [t])" using perm [OF _ admitted] by simp
    ultimately show ?thesis
      by (simp add: relay_connect_def req up(1) subscribe_start_def Let_def)
  next
    case same
    then show ?thesis using P by (simp add: relay_connect_def req)
  next
    case refused
    then show ?thesis using conn [OF conn_refused, OF refused(2) P] by (simp add: relay_connect_def req)
  qed
qed

lemma relay_client_limiter:
  assumes P: "P (wst_rate_limiter (ry_state r)) (open_tickets (ry_clients r))"
    and conn: "\<And>s ts s' ts'. conn_step acquire drop_ticket (s, ts) (s', ts') \<Longrightarrow> P s ts \<Longrightarrow> P s' ts'"
    and perm: "\<And>s ts ts'. mset ts = mset ts' \<Longrightarrow> P s ts \<Longrightarrow> P s ts'"
  shows "P (wst_rate_limiter (ry_state (relay_client_step drop_ticket cap i ev r)))
    (open_tickets (ry_clients (relay_client_step drop_ticket cap i ev r)))"
proof -
  let ?r = "relay_client_step drop_ticket cap i ev r" and ?c = "ry_clients r ! i" and ?ts = "open_tickets (ry_clients r)"
  show ?thesis
  proof (cases "length (ry_clients r) \<le> i \<or> \<not> cl_open (rc_loop ?c) \<or>
      relay_loop_event cap (wc_sent (ry_channel r)) (rc_pos ?c) ev = None")
    case True
    then show ?thesis using P by (auto simp: relay_client_step_def Let_def)
  next
    case False
    then obtain e where i: "i < length (ry_clients r)" "cl_open (rc_loop ?c)"
      and e: "relay_loop_event cap (wc_sent (ry_channel r)) (rc_pos ?c) ev = Some e" by auto
    define l where "l = subscribe_step e ((rc_loop ?c)\<lparr>cl_metrics := wst_metrics (ry_state r)\<rparr>)"
    define c1 where "c1 = ?c\<lparr>rc_loop := l, rc_pos := rc_pos ?c + (case e of Broadcast _ _ \<Rightarrow> 1 | _ \<Rightarrow> 0)\<rparr>"
    have t: "rc_ticket c1 = rc_ticket ?c" "rc_loop c1 = l" by (simp_all add: c1_def)
    note upd = open_tickets_update [OF i, of c1, unfolded t]
    have r': "wst_rate_limiter (ry_state ?r) =
        (if cl_open l then wst_rate_limiter (ry_state r) else drop_ticket (rc_ticket ?c) (wst_rate_limiter (ry_state r)))"
      "ry_clients ?r = (ry_clients r)[i := c1]"
      using i e by (simp_all add: relay_client_step_def Let_def l_def [symmetric] c1_def [symmetric])
    show ?thesis
    proof (cases "cl_open l")
      case False
      from upd(2) [OF refl this] have ts: "rc_ticket ?c \<in> set ?ts"
        "mset (remove1 (rc_ticket ?c) ?ts) = mset (open_tickets ((ry_clients r)[i := c1]))" by simp_all
      show ?thesis
        using perm [OF ts(2)] conn [OF conn_close, OF ts(1) P] False by (simp add: r')
    qed (use upd(1) P in \<open>simp add: r'\<close>)
  qed
qed

lemma relay_step_limiter:
  assumes "relay_step acquire drop_ticket cap r r'"
    and conn: "\<And>s ts s' ts'. conn_step acquire drop_ticket (s, ts) (s', ts') \<Longrightarrow> P s ts \<Longrightarrow> P s' ts'"
    and perm: "\<And>s ts ts'. mset ts = mset ts' \<Longrightarrow> P s ts \<Longrightarrow> P s ts'"
    and P: "P (wst_rate_limiter (ry_state r)) (open_tickets (ry_clients r))"
  shows "P (wst_rate_limiter (ry_state r')) (open_tickets (ry_clients r'))"
  using assms(1)
proof cases
  case relay_open
  then show ?thesis using relay_connect_limiter [of P, OF P conn perm] by simp
next
  case relay_client
  then show ?thesis using relay_client_limiter [of P, OF P conn perm] by simp
qed (use P in \<open>simp_all add: relay_upstream_def relay_ping_def Let_def\<close>)

lemma relay_reach_limiter:
  assumes "reach (\<lambda>r. r = relay_new limiter auth header) (relay_step acquire drop_ticket cap) r"
    and "\<And>s ts s' ts'. conn_step acquire drop_ticket (s, ts) (s', ts') \<Longrightarrow> P s ts \<Longrightarrow> P s' ts'"
    and "\<And>s ts ts'. mset ts = mset ts' \<Longrightarrow> P s ts \<Longrightarrow> P s ts'"
    and "P limiter []"
  shows "P (wst_rate_limiter (ry_state r)) (open_tickets (ry_clients r))"
  using assms(1)
proof (induction rule: reach.induct)
  case (reach_init r)
  then show ?case using assms(4) by (simp add: relay_new_def ws_listen_state_def open_tickets_def)
next
  case (reach_step r r')
  show ?case
    by (rule relay_step_limiter [where P = P, OF reach_step(2)]) (fact assms(2), fact assms(3), fact reach_step.IH)
qed

lemma live_mset:
  assumes "mset ts = mset ts'"
  shows "live_ip a ts = live_ip a ts'" "live_app p ts = live_app p ts'"
proof -
  have "length (filter Q ts) = length (filter Q ts')" for Q
    using assms by (metis mset_filter size_mset)
  then show "live_ip a ts = live_ip a ts'" "live_app p ts = live_app p ts'"
    by (simp_all add: live_ip_def live_app_def)
qed

text \<open>For every limiter that conserves its permits, the open clients use exactly the missing ones.\<close>

context rate_limit
begin

lemma relay_permits:
  assumes "reach (\<lambda>r. r = relay_new limiter auth header) (relay_step acquire drop_ticket cap) r"
  shows "permits (wst_rate_limiter (ry_state r)) + length (open_tickets (ry_clients r)) = permits limiter"
  using assms
  by (rule relay_reach_limiter) (auto dest: permits_conserved mset_eq_length)

end

text \<open>The limits a started proxy works with.\<close>

lemma ws_main_limits:
  assumes "ws_main sys args = WsRunning w" "wr_limiter w = InMemoryLimiter lim"
  shows "lim = in_memory_new (wa_instance_connection_limit args) (wa_per_ip_connection_limit args)
    (main_app_rate_limits (wr_auth w))"
  using assms
  by (auto simp: ws_main_def main_rate_limiter_def Let_def split: auth_setup.splits option.splits if_splits)

lemma relay_limits:
  assumes "reach (\<lambda>r. r = relay_new (in_memory_new n l m) auth header)
      (relay_step im_try_acquire im_drop_ticket cap) r"
  shows "counters_ok (wst_rate_limiter (ry_state r)) (open_tickets (ry_clients r)) \<and>
      im_per_ip_limit (wst_rate_limiter (ry_state r)) = l \<and> im_per_app_limit (wst_rate_limiter (ry_state r)) = m"
proof (rule relay_reach_limiter [OF assms, where P = "\<lambda>s ts. counters_ok s ts \<and> im_per_ip_limit s = l \<and>
    im_per_app_limit s = m"])
  show "counters_ok s' ts' \<and> im_per_ip_limit s' = l \<and> im_per_app_limit s' = m"
    if "conn_step im_try_acquire im_drop_ticket (s, ts) (s', ts')"
      "counters_ok s ts \<and> im_per_ip_limit s = l \<and> im_per_app_limit s = m" for s ts s' ts'
    using counters.step_inv [OF that(1), of l m] that(2) by simp
  show "counters_ok s ts' \<and> im_per_ip_limit s = l \<and> im_per_app_limit s = m"
    if "mset ts = mset ts'" "counters_ok s ts \<and> im_per_ip_limit s = l \<and> im_per_app_limit s = m" for s ts ts'
    using that(2) unfolding counters_ok_def live_mset [OF that(1)] .
qed (simp add: in_memory_new_def counters_ok_def live_ip_def live_app_def)

text \<open>
  C30: the proxy as a whole. Once \<^verbatim>\<open>main\<close> has started it with the in-memory limiter, in every state reachable by
  upstream messages, pings, requests and client events in any order: an open client has received exactly what was
  broadcast from the moment it subscribed up to its position, and a closed one an initial part of it; open
  clients and free permits add up to the configured instance limit; no address has more open clients than the
  configured limit (unless that is zero) and no application more than its key argument says; and new minus closed
  connections of the metrics is the number of open clients.
\<close>

theorem proxy_relays_within_limits:
  assumes "ws_main sys args = WsRunning w" "wr_limiter w = InMemoryLimiter lim"
    and "reach (\<lambda>r. r = relay_new lim (wr_auth w) (wa_ip_addr_http_header args))
      (relay_step im_try_acquire im_drop_ticket cap) r"
  shows "(\<forall>c \<in> set (ry_clients r).
       prefix (cl_delivered (rc_loop c)) (drop (rc_joined c) (wc_sent (ry_channel r))) \<and>
       (cl_open (rc_loop c) \<longrightarrow>
          cl_delivered (rc_loop c) = drop (rc_joined c) (take (rc_pos c) (wc_sent (ry_channel r))))) \<and>
    im_semaphore (wst_rate_limiter (ry_state r)) + length (open_tickets (ry_clients r)) =
      wa_instance_connection_limit args \<and>
    (0 < wa_per_ip_connection_limit args \<longrightarrow>
       live_ip a (open_tickets (ry_clients r)) \<le> wa_per_ip_connection_limit args) \<and>
    live_app p (open_tickets (ry_clients r)) \<le> get_or_0 (main_app_rate_limits (wr_auth w)) p \<and>
    wm_new_connections (wst_metrics (ry_state r)) =
      wm_closed_connections (wst_metrics (ry_state r)) + length (open_tickets (ry_clients r))"
proof -
  have ok: "relay_ok r" using assms(3) by (rule relay.reach_inv)
  have "prefix (drop j (take k xs)) (drop j xs)" for j k and xs :: "ws_message list"
    by (simp add: drop_take take_is_prefix)
  with ok have "\<forall>c \<in> set (ry_clients r).
      prefix (cl_delivered (rc_loop c)) (drop (rc_joined c) (wc_sent (ry_channel r))) \<and>
      (cl_open (rc_loop c) \<longrightarrow>
         cl_delivered (rc_loop c) = drop (rc_joined c) (take (rc_pos c) (wc_sent (ry_channel r))))"
    unfolding relay_ok_def relay_client_ok_def by (meson prefix_order.trans)
  moreover note reach = assms(3) [unfolded ws_main_limits [OF assms(1,2)]]
  have "im_semaphore (wst_rate_limiter (ry_state r)) + length (open_tickets (ry_clients r)) =
      wa_instance_connection_limit args"
    using im.relay_permits [OF reach] by (simp add: in_memory_new_def)
  moreover have "(0 < wa_per_ip_connection_limit args \<longrightarrow>
       live_ip a (open_tickets (ry_clients r)) \<le> wa_per_ip_connection_limit args) \<and>
      live_app p (open_tickets (ry_clients r)) \<le> get_or_0 (main_app_rate_limits (wr_auth w)) p"
    using relay_limits [OF reach] unfolding counters_ok_def by (auto intro: le_trans)
  ultimately show ?thesis using ok by (simp add: relay_ok_def)
qed

definition sample_ws_args :: ws_args where
  "sample_ws_args =
     \<lparr>wa_upstream_ws = [''ws://builder:1111''], wa_message_buffer_size = 20, wa_instance_connection_limit = 5,
      wa_per_ip_connection_limit = 2, wa_enable_compression = False, wa_ip_addr_http_header = ''X-Forwarded-For'',
      wa_metrics = False, wa_api_keys = [], wa_metrics_global_labels = [], wa_metrics_host_label = False,
      wa_subscriber_max_interval_ms = 20000, wa_subscriber_ping_interval_ms = 2000,
      wa_subscriber_pong_timeout_ms = 4000, wa_redis_url = None, wa_redis_key_prefix = ''flashblocks'',
      wa_client_ping_enabled = False, wa_client_ping_interval_ms = 15000, wa_client_pong_timeout_ms = 30000\<rparr>"

definition sample_relay :: "in_memory_rate_limit relay" where
  "sample_relay =
     relay_client_step im_drop_ticket 32 0 (ChannelReady True)
       (relay_upstream False id [1]
         (relay_connect im_try_acquire im_drop_ticket Some (V4 1) Map.empty None True
           (relay_new (in_memory_new 5 2 Map.empty) None ''X-Forwarded-For'')))"

theorem proxy_relays_within_limits_witness:
  "map (cl_delivered \<circ> rc_loop) (ry_clients sample_relay) = [[Binary [1]]] \<and>
   im_semaphore (wst_rate_limiter (ry_state sample_relay)) = 4"
proof -
  let ?w = "\<lparr>wr_auth = None, wr_limiter = InMemoryLimiter (in_memory_new 5 2 Map.empty),
      wr_subscribers = [(''ws://builder:1111'', main_subscriber_options sample_ws_args)], wr_labels = None\<rparr> :: unit ws_running"
  have main: "ws_main (sys :: unit ws_system) sample_ws_args = WsRunning ?w" for sys
    by (simp add: ws_main_def sample_ws_args_def main_authentication_def main_metrics_def main_rate_limiter_def
        main_app_rate_limits_def)
  have "reach (\<lambda>r. r = relay_new (in_memory_new 5 2 Map.empty) (wr_auth ?w) (wa_ip_addr_http_header sample_ws_args))
      (relay_step im_try_acquire im_drop_ticket 32) sample_relay"
    unfolding sample_relay_def
    by (rule reach_step, rule reach_step, rule reach_step, rule reach_init)
      (simp add: sample_ws_args_def, rule relay_open relay_msg relay_client, rule relay_open relay_msg relay_client,
        rule relay_open relay_msg relay_client)
  note all = proxy_relays_within_limits [OF main _ this, of "V4 1" "''app''", simplified]
  have "\<exists>c. ry_clients sample_relay = [c] \<and> rc_joined c = 0 \<and> rc_pos c = 1 \<and> cl_open (rc_loop c) \<and>
      wc_sent (ry_channel sample_relay) = [Binary [1]]"
    by (simp add: sample_relay_def relay_client_step_def relay_upstream_def relay_connect_def relay_request_def
        relay_new_def unauthenticated_websocket_handler_def websocket_handler_def ws_listen_state_def
        im_try_acquire_def im_count_ip_def im_count_app_def in_memory_new_def main_listener_def subscribe_start_def
        relay_loop_event_def record_message_sent_def open_tickets_def Let_def)
  then obtain c where "ry_clients sample_relay = [c]" "rc_joined c = 0" "rc_pos c = 1" "cl_open (rc_loop c)"
    "wc_sent (ry_channel sample_relay) = [Binary [1]]" by blast
  with all show ?thesis by (simp add: open_tickets_def sample_ws_args_def)
qed

end
