(* ===== verification/Ws_Shutdown.thy ===== *)
theory Ws_Shutdown
  imports Ws_Relay
begin

text \<open>
  The tasks of the websocket proxy and how they end: the \<^verbatim>\<open>select!\<close> at the end of \<^verbatim>\<open>main\<close> (\<^verbatim>\<open>main.rs\<close>), the turns of the
  subscriber tasks (\<^verbatim>\<open>subscriber.rs\<close>), of the ping task, and of the reader of a client (\<^verbatim>\<open>registry.rs\<close>). They share one
  cancellation token, which \<^verbatim>\<open>main\<close> cancels when it leaves its \<^verbatim>\<open>select!\<close>. A branch of a \<^verbatim>\<open>select!\<close> is only taken when it is
  ready: waiting for the token when it is cancelled, waiting for a task when it has ended, by returning or by a panic.

  Panics come from \<^verbatim>\<open>tokio::time::interval\<close>, which refuses a period of zero: the period is a parameter from the command
  line in three places, in two of them divided by four, once as a duration and once as a number of milliseconds.
\<close>

section \<open>Tasks\<close>

datatype task_status = Running | Finished | Panicked

text \<open>The period of \<^verbatim>\<open>Duration / 4\<close> in nanoseconds, and of a number of milliseconds divided by four first.\<close>

definition interval_panics :: "nat \<Rightarrow> bool" where
  "interval_panics nanos \<longleftrightarrow> nanos = 0"

definition nanos_of_millis :: "nat \<Rightarrow> nat" where
  "nanos_of_millis ms = ms * 1000000"

text \<open>
  A turn of the loop of \<^verbatim>\<open>WebsocketSubscriber::run\<close>: the token, or a connection; a connection that is established starts
  the check of the pong deadline.
\<close>

datatype subscriber_turn = TurnCancelled | TurnConnection connection

fun subscriber_turn_step :: "subscriber_options \<Rightarrow> bool \<Rightarrow> subscriber_turn \<Rightarrow> task_status" where
  "subscriber_turn_step opts cancelled TurnCancelled = (if cancelled then Finished else Running)"
| "subscriber_turn_step opts cancelled (TurnConnection conn) =
     (case conn of
        Inl e \<Rightarrow> Running
      | Inr _ \<Rightarrow> if interval_panics (nanos_of_millis (so_pong_timeout opts) div 4) then Panicked else Running)"

text \<open>A turn of the ping task of \<^verbatim>\<open>main\<close>; without client pings it is a future that is never ready.\<close>

definition ping_turn_step :: "ws_args \<Rightarrow> bool \<Rightarrow> task_status" where
  "ping_turn_step args cancelled =
     (if wa_client_ping_enabled args
      then (if interval_panics (nanos_of_millis (unat (wa_client_ping_interval_ms args))) then Panicked
            else if cancelled then Finished else Running)
      else Running)"

text \<open>
  The reader of a client: it first starts its timer. A reader that has ended in any way makes the client's loop leave,
  since the sending half of its channel is then used or dropped.
\<close>

datatype client_reader = ReaderRuns nat | ReaderSignals | ReaderPanics

definition client_reader_run :: "bool \<Rightarrow> u64 \<Rightarrow> (nat \<times> reader_event) list \<Rightarrow> nat \<Rightarrow> client_reader" where
  "client_reader_run ping_enabled pong_timeout_ms es start =
     (if interval_panics (nanos_of_millis (unat (pong_timeout_ms div 4))) then ReaderPanics
      else case start_reader ping_enabled (unat pong_timeout_ms) es start of
             Reading last_pong \<Rightarrow> ReaderRuns last_pong
           | _ \<Rightarrow> ReaderSignals)"

fun reader_ended :: "client_reader \<Rightarrow> bool" where
  "reader_ended (ReaderRuns _) = False"
| "reader_ended _ = True"

section \<open>The end of main\<close>

datatype main_branch = SubscribersTerminated | ServerTerminated | PingTerminated | Interrupt | Terminate

record ws_tasks =
  wt_subscribers :: "task_status list"
  wt_ping :: task_status
  wt_server :: task_status
  wt_cancelled :: bool
  wt_signals :: "main_branch set"
  wt_returned :: "main_branch option"

definition ws_tasks_new :: "ws_args \<Rightarrow> ws_tasks" where
  "ws_tasks_new args =
     \<lparr>wt_subscribers = map (\<lambda>_. Running) (wa_upstream_ws args), wt_ping = Running, wt_server = Running,
      wt_cancelled = False, wt_signals = {}, wt_returned = None\<rparr>"

definition branch_ready :: "ws_tasks \<Rightarrow> main_branch \<Rightarrow> bool" where
  "branch_ready t branch \<longleftrightarrow>
     (case branch of
        SubscribersTerminated \<Rightarrow> Running \<notin> set (wt_subscribers t)
      | ServerTerminated \<Rightarrow> wt_server t \<noteq> Running
      | PingTerminated \<Rightarrow> wt_ping t \<noteq> Running
      | _ \<Rightarrow> branch \<in> wt_signals t)"

definition main_select :: "main_branch \<Rightarrow> ws_tasks \<Rightarrow> ws_tasks" where
  "main_select branch t =
     (if wt_returned t = None \<and> branch_ready t branch then t\<lparr>wt_cancelled := True, wt_returned := Some branch\<rparr> else t)"

text \<open>
  The server stops gracefully when the token is cancelled. An address that cannot be bound makes \<^verbatim>\<open>main\<close> panic at the
  first poll; these runs are of a server that is bound.
\<close>

datatype ws_task_event =
    SubscriberTurn nat subscriber_turn
  | PingTurn
  | ServerTurn
  | Signal main_branch
  | MainTurn main_branch

fun ws_task_step :: "ws_args \<Rightarrow> ws_task_event \<Rightarrow> ws_tasks \<Rightarrow> ws_tasks" where
  "ws_task_step args (SubscriberTurn i turn) t =
     (if i < length (wt_subscribers t) \<and> wt_subscribers t ! i = Running
      then t\<lparr>wt_subscribers :=
              (wt_subscribers t)[i := subscriber_turn_step (main_subscriber_options args) (wt_cancelled t) turn]\<rparr>
      else t)"
| "ws_task_step args PingTurn t =
     (if wt_ping t = Running then t\<lparr>wt_ping := ping_turn_step args (wt_cancelled t)\<rparr> else t)"
| "ws_task_step args ServerTurn t = (if wt_cancelled t then t\<lparr>wt_server := Finished\<rparr> else t)"
| "ws_task_step args (Signal branch) t =
     (if branch \<in> {Interrupt, Terminate} then t\<lparr>wt_signals := insert branch (wt_signals t)\<rparr> else t)"
| "ws_task_step args (MainTurn branch) t = main_select branch t"

definition ws_task_run :: "ws_args \<Rightarrow> ws_task_event list \<Rightarrow> ws_tasks \<Rightarrow> ws_tasks" where
  "ws_task_run args evs t = fold (ws_task_step args) evs t"

text \<open>The token is cancelled by \<^verbatim>\<open>main\<close> when it returns, and by nobody else.\<close>

interpretation shutdown: invariant_system "\<lambda>t. t = ws_tasks_new args" "\<lambda>t t'. \<exists>ev. t' = ws_task_step args ev t"
  "\<lambda>t. wt_cancelled t \<longleftrightarrow> wt_returned t \<noteq> None" for args
proof (unfold_locales, goal_cases)
  case (1 t)
  then show ?case by (simp add: ws_tasks_new_def)
next
  case (2 t t')
  then obtain ev where "t' = ws_task_step args ev t" by blast
  with 2(2) show ?case by (cases ev) (auto simp: main_select_def)
qed

section \<open>When the proxy stops\<close>

text \<open>Periods that are accepted: the pong timeout of the subscribers, and the ping interval when clients are pinged.\<close>

definition periods_ok :: "ws_args \<Rightarrow> bool" where
  "periods_ok args \<longleftrightarrow>
     wa_subscriber_pong_timeout_ms args \<noteq> 0 \<and> (wa_client_ping_enabled args \<longrightarrow> wa_client_ping_interval_ms args \<noteq> 0)"

definition all_running :: "ws_args \<Rightarrow> ws_tasks \<Rightarrow> bool" where
  "all_running args t \<longleftrightarrow>
     length (wt_subscribers t) = length (wa_upstream_ws args) \<and> set (wt_subscribers t) \<subseteq> {Running} \<and>
     wt_ping t = Running \<and> wt_server t = Running \<and> \<not> wt_cancelled t \<and> wt_signals t = {} \<and> wt_returned t = None"

lemma main_pong_timeout [simp]:
  "so_pong_timeout (main_subscriber_options args) = unat (wa_subscriber_pong_timeout_ms args)"
  by (simp add: main_subscriber_options_def with_initial_grace_period_def with_backoff_initial_interval_def
      with_pong_timeout_def)

lemma quarter_panics: "interval_panics (nanos_of_millis ms div 4) \<longleftrightarrow> ms = 0"
  by (simp add: interval_panics_def nanos_of_millis_def div_eq_0_iff)

lemma subscriber_turn_step_running:
  "wa_subscriber_pong_timeout_ms args \<noteq> 0 \<Longrightarrow>
     subscriber_turn_step (main_subscriber_options args) False turn = Running"
  by (cases turn) (auto simp: quarter_panics unat_eq_zero split: sum.split)

lemma ping_turn_step_running:
  "wa_client_ping_enabled args \<longrightarrow> wa_client_ping_interval_ms args \<noteq> 0 \<Longrightarrow> ping_turn_step args False = Running"
  by (simp add: ping_turn_step_def interval_panics_def nanos_of_millis_def unat_eq_zero)

lemma all_running_step:
  assumes "periods_ok args" "wa_upstream_ws args \<noteq> []" "\<And>branch. ev \<noteq> Signal branch" "all_running args t"
  shows "all_running args (ws_task_step args ev t)"
proof (cases ev)
  case (SubscriberTurn i turn)
  then show ?thesis
    using assms(1,4) subscriber_turn_step_running [of args turn]
    by (auto simp: all_running_def periods_ok_def dest!: subsetD [OF set_update_subset_insert])
next
  case PingTurn
  then show ?thesis
    using assms(1,4) ping_turn_step_running [of args] by (simp add: all_running_def periods_ok_def)
next
  case (MainTurn branch)
  have "Running \<in> set (wt_subscribers t)"
    using assms(2,4) by (cases "wt_subscribers t") (auto simp: all_running_def)
  then have "\<not> branch_ready t branch"
    using assms(4) by (cases branch) (simp_all add: branch_ready_def all_running_def)
  with MainTurn assms(4) show ?thesis by (simp add: main_select_def)
qed (use assms(3,4) in \<open>simp_all add: all_running_def\<close>)

lemma all_running_run:
  "periods_ok args \<Longrightarrow> wa_upstream_ws args \<noteq> [] \<Longrightarrow> (\<And>branch. Signal branch \<notin> set evs) \<Longrightarrow> all_running args t \<Longrightarrow>
     all_running args (ws_task_run args evs t)"
proof (induction evs arbitrary: t)
  case (Cons ev evs)
  have "all_running args (ws_task_step args ev t)"
    by (rule all_running_step [OF Cons.prems(1,2) _ Cons.prems(4)]) (use Cons.prems(3) in auto)
  with Cons show ?case by (simp add: ws_task_run_def)
qed (simp add: ws_task_run_def)

lemma cancelled_turns:
  assumes "wt_cancelled t"
  shows "wt_subscribers (ws_task_run args (map (\<lambda>i. SubscriberTurn i TurnCancelled) [0..<length (wt_subscribers t)]) t) =
    map (\<lambda>s. if s = Running then Finished else s) (wt_subscribers t)"
proof -
  let ?done = "map (\<lambda>s. if s = Running then Finished else s)"
  have "ws_task_run args (map (\<lambda>i. SubscriberTurn i TurnCancelled) [0..<n]) t =
      t\<lparr>wt_subscribers := ?done (take n (wt_subscribers t)) @ drop n (wt_subscribers t)\<rparr>"
    if "n \<le> length (wt_subscribers t)" for n
    using that
  proof (induction n)
    case 0
    then show ?case by (simp add: ws_task_run_def)
  next
    case (Suc n)
    then have "drop n (wt_subscribers t) = wt_subscribers t ! n # drop (Suc n) (wt_subscribers t)"
      by (simp add: Cons_nth_drop_Suc)
    with Suc assms show ?case
      by (simp add: ws_task_run_def take_Suc_conv_app_nth nth_append list_update_append)
  qed
  then show ?thesis by simp
qed


lemma connected_turns:
  assumes "wa_subscriber_pong_timeout_ms args = 0" "wt_subscribers t = map (\<lambda>_. Running) xs"
  shows "ws_task_run args (map (\<lambda>i. SubscriberTurn i (TurnConnection (Inr (now, [])))) [0..<length xs]) t =
    t\<lparr>wt_subscribers := map (\<lambda>_. Panicked) xs\<rparr>"
proof -
  have "ws_task_run args (map (\<lambda>i. SubscriberTurn i (TurnConnection (Inr (now, [])))) [0..<n]) t =
      t\<lparr>wt_subscribers := map (\<lambda>_. Panicked) (take n xs) @ map (\<lambda>_. Running) (drop n xs)\<rparr>" if "n \<le> length xs" for n
    using that
  proof (induction n)
    case 0
    then show ?case using assms(2) by (simp add: ws_task_run_def)
  next
    case (Suc n)
    then have "drop n xs = xs ! n # drop (Suc n) xs" by (simp add: Cons_nth_drop_Suc)
    with Suc assms(1) show ?case
      by (simp add: ws_task_run_def take_Suc_conv_app_nth nth_append list_update_append quarter_panics)
  qed
  then show ?thesis by simp
qed

text \<open>
  Small periods end tasks. The command line accepts any number of milliseconds. With a pong timeout of zero for
  the subscribers the proxy stops by itself once every upstream has been connected to, and with a ping interval of zero
  and pings on as soon as the ping task runs; and with a pong timeout of less than four milliseconds for the clients the
  reader of every client panics at once, so that every client is disconnected, also when pings are off.
\<close>

theorem small_periods_end_tasks:
  assumes "ws_main sys args = WsRunning w"
  shows "(wa_subscriber_pong_timeout_ms args = 0 \<longrightarrow>
      wt_returned (ws_task_run args
        (map (\<lambda>i. SubscriberTurn i (TurnConnection (Inr (now, [])))) [0..<length (wr_subscribers w)] @
          [MainTurn SubscribersTerminated]) (ws_tasks_new args)) = Some SubscribersTerminated) \<and>
    (wa_client_ping_enabled args \<and> wa_client_ping_interval_ms args = 0 \<longrightarrow>
      wt_returned (ws_task_run args [PingTurn, MainTurn PingTerminated] (ws_tasks_new args)) = Some PingTerminated) \<and>
    (wa_client_pong_timeout_ms args < 4 \<longrightarrow>
      reader_ended (client_reader_run (wa_client_ping_enabled args) (wa_client_pong_timeout_ms args) es start) \<and>
      \<not> cl_open (subscribe [ReaderDisconnect] m))"
proof (intro conjI impI)
  have len: "length (wr_subscribers w) = length (wa_upstream_ws args)"
    using assms by (auto simp: ws_main_def split: auth_setup.splits option.splits if_splits)
  assume "wa_subscriber_pong_timeout_ms args = 0"
  from connected_turns [OF this, of "ws_tasks_new args" "wa_upstream_ws args" now]
  show "wt_returned (ws_task_run args
        (map (\<lambda>i. SubscriberTurn i (TurnConnection (Inr (now, [])))) [0..<length (wr_subscribers w)] @
          [MainTurn SubscribersTerminated]) (ws_tasks_new args)) = Some SubscribersTerminated"
    unfolding len
    by (auto simp: ws_task_run_def ws_tasks_new_def main_select_def branch_ready_def)
next
  assume "wa_client_ping_enabled args \<and> wa_client_ping_interval_ms args = 0"
  then show "wt_returned (ws_task_run args [PingTurn, MainTurn PingTerminated] (ws_tasks_new args)) = Some PingTerminated"
    by (simp add: ws_task_run_def ws_tasks_new_def main_select_def branch_ready_def ping_turn_step_def
        interval_panics_def nanos_of_millis_def)
next
  assume "wa_client_pong_timeout_ms args < 4"
  then have "unat (wa_client_pong_timeout_ms args) < 4" by (simp add: word_less_nat_alt)
  then have "interval_panics (nanos_of_millis (unat (wa_client_pong_timeout_ms args div 4)))"
    by (simp add: interval_panics_def nanos_of_millis_def unat_div)
  then show "reader_ended (client_reader_run (wa_client_ping_enabled args) (wa_client_pong_timeout_ms args) es start)"
    by (simp add: client_reader_run_def)
  show "\<not> cl_open (subscribe [ReaderDisconnect] m)"
    by (simp add: subscribe_def subscribe_start_def subscribe_finish_def Let_def)
qed

section \<open>Witnesses\<close>

definition sample_ws_running :: "ws_args \<Rightarrow> unit ws_running" where
  "sample_ws_running args =
     \<lparr>wr_auth = None, wr_limiter = InMemoryLimiter (in_memory_new 5 2 Map.empty),
      wr_subscribers = [(''ws://builder:1111'', main_subscriber_options args)], wr_labels = None\<rparr>"

lemma sample_ws_main:
  assumes "args \<in> {sample_ws_args, sample_ws_args\<lparr>wa_client_pong_timeout_ms := 3\<rparr>}"
  shows "ws_main (sys :: unit ws_system) args = WsRunning (sample_ws_running args)"
  using assms
  by (auto simp: ws_main_def sample_ws_args_def sample_ws_running_def main_authentication_def main_metrics_def
      main_rate_limiter_def main_app_rate_limits_def)


theorem small_periods_end_tasks_witness:
  "client_reader_run False 3 [] 0 = ReaderPanics"
proof -
  let ?args = "sample_ws_args\<lparr>wa_client_pong_timeout_ms := 3\<rparr>"
  have "reader_ended (client_reader_run False 3 [] 0)"
    using small_periods_end_tasks [OF sample_ws_main [where args = ?args], where now = 0 and es = "[]" and start = 0 and m = ws_metrics_default]
    by (simp add: sample_ws_args_def)
  then show ?thesis
    by (auto simp: client_reader_run_def split: if_splits)
qed

end
