(* ===== verification/Fb_Cache.thy ===== *)
theory Fb_Cache
  imports Flashblocks_Service
begin

text \<open>
  The cache of the flashblocks RPC overlay (\<^verbatim>\<open>flashblocks-rpc/src/cache.rs\<close>): it assembles the pending block
  from flashblocks with the \<^verbatim>\<open>FlashblockBuilder\<close> of the flashblocks service and answers from it.

  The types of the node's libraries are type parameters: \<open>'h\<close> block headers, \<open>'t\<close> signed transactions,
  \<open>'r\<close> receipts, \<open>'q\<close> the receipts of the RPC, \<open>'i\<close> the L1 block information and \<open>'c\<close> the chain specification;
  what the code calls of them is the record \<open>cache_lib\<close>. A \<^verbatim>\<open>HashMap\<close> that is iterated is the list of its
  entries. The inner \<^verbatim>\<open>process_payload\<close> works on a copy that is dropped when it fails, so a failure is only
  its error; \<open>CachePanic\<close> stands for the panics.
\<close>

section \<open>Library\<close>

record 'r cache_metadata =
  md_receipts :: "string \<rightharpoonup> 'r"
  md_new_account_balances :: "(string \<times> string) list"
  md_block_number :: u64

record ('h, 't) op_block =
  blk_header :: 'h
  blk_transactions :: "'t list"

record tx_meta =
  tm_tx_hash :: b256
  tm_index :: u64
  tm_block_hash :: b256
  tm_block_number :: u64
  tm_base_fee :: "u64 option"
  tm_excess_blob_gas :: "u64 option"
  tm_timestamp :: u64

record ('t, 'r) receipt_input =
  ri_receipt :: 'r
  ri_tx :: 't
  ri_signer :: address
  ri_gas_used :: u64
  ri_next_log_index :: nat
  ri_meta :: tx_meta

record ('c, 'h, 't, 'r, 'q, 'i) cache_lib =
  fl_metadata :: "json \<Rightarrow> string + 'r cache_metadata"
  fl_try_into_block :: "execution_payload_v3 \<Rightarrow> string + ('h, 't) op_block"
  fl_recover_signer :: "'t \<Rightarrow> address option"
  fl_tx_hash :: "'t \<Rightarrow> b256"
  fl_hash_to_string :: "b256 \<Rightarrow> string"
  fl_is_deposit :: "'t \<Rightarrow> bool"
  fl_effective_tip_per_gas :: "'t \<Rightarrow> u64 \<Rightarrow> 128 word option"
  fl_max_fee_per_gas :: "'t \<Rightarrow> 128 word"
  fl_number :: "'h \<Rightarrow> u64"
  fl_hash_slow :: "'h \<Rightarrow> b256"
  fl_base_fee_per_gas :: "'h \<Rightarrow> u64 option"
  fl_excess_blob_gas :: "'h \<Rightarrow> u64 option"
  fl_timestamp :: "'h \<Rightarrow> u64"
  fl_cumulative_gas_used :: "'r \<Rightarrow> u64"
  fl_logs :: "'r \<Rightarrow> nat"
  fl_extract_l1_info :: "'t list \<Rightarrow> 'i option"
  fl_build_receipt :: "'c \<Rightarrow> ('t, 'r) receipt_input \<Rightarrow> 'i \<Rightarrow> ('q \<times> 'i) option"
  fl_address_from_str :: "string \<Rightarrow> string + address"
  fl_u256_from_str :: "string \<Rightarrow> string + u256"

section \<open>FlashblocksCacheInner\<close>

datatype cache_error =
    CeMetadata string
  | CeBuilder flashblocks_error
  | CeInvalidVersion
  | CeBlock string
  | CeSigner
  | CeAddress string
  | CeBalance string
  | CachePanic string

record ('c, 'h, 't, 'q) flashblocks_cache =
  fc_chain_spec :: 'c
  fc_builder :: flashblock_builder
  fc_block :: "('h, 't) op_block option"
  fc_balance_cache :: "address \<rightharpoonup> u256"
  fc_nonce_cache :: "address \<rightharpoonup> u64"
  fc_receipts_cache :: "b256 \<rightharpoonup> 'q"

definition cache_new :: "'c \<Rightarrow> ('c, 'h, 't, 'q) flashblocks_cache" where
  "cache_new chain_spec =
     \<lparr>fc_chain_spec = chain_spec, fc_builder = flashblock_builder_new, fc_block = None,
      fc_balance_cache = Map.empty, fc_nonce_cache = Map.empty, fc_receipts_cache = Map.empty\<rparr>"

definition cache_reset :: "('c, 'h, 't, 'q) flashblocks_cache \<Rightarrow> ('c, 'h, 't, 'q) flashblocks_cache" where
  "cache_reset c =
     c\<lparr>fc_block := None, fc_builder := flashblock_builder_new, fc_balance_cache := Map.empty,
       fc_nonce_cache := Map.empty, fc_receipts_cache := Map.empty\<rparr>"

text \<open>The block after the payload: reset at index 0, extend the builder, build, convert.\<close>

definition cache_extend ::
  "('c, 'h, 't, 'r, 'q, 'i) cache_lib \<Rightarrow> flashblocks_payload_v1 \<Rightarrow> ('c, 'h, 't, 'q) flashblocks_cache
     \<Rightarrow> cache_error + ('h, 't) op_block \<times> ('c, 'h, 't, 'q) flashblocks_cache" where
  "cache_extend lib payload c =
     (let c1 = (if fb_index payload = 0 then cache_reset c else c) in
      case builder_extend payload (fc_builder c1) of
        (Inl e, _) \<Rightarrow> Inl (CeBuilder e)
      | (Inr _, b) \<Rightarrow>
          (case build_envelope PV4 b of
             Inl e \<Rightarrow> Inl (CeBuilder e)
           | Inr (EnvV4 envelope) \<Rightarrow>
               (case fl_try_into_block lib (v4_payload_inner (e4_execution_payload envelope)) of
                  Inl e \<Rightarrow> Inl (CeBlock e)
                | Inr block \<Rightarrow> Inr (block, c1\<lparr>fc_builder := b\<rparr>))
           | Inr (EnvV3 _) \<Rightarrow> Inl CeInvalidVersion))"

text \<open>The first loop: the nonces by sender, and the receipts in the order of the transactions.\<close>

fun collect_txs ::
  "('c, 'h, 't, 'r, 'q, 'i) cache_lib \<Rightarrow> (string \<rightharpoonup> 'r) \<Rightarrow> 't list \<Rightarrow> (address \<rightharpoonup> u64) \<Rightarrow> 'r list
     \<Rightarrow> cache_error + (address \<rightharpoonup> u64) \<times> 'r list" where
  "collect_txs lib receipts [] nonce_map all_receipts = Inr (nonce_map, all_receipts)"
| "collect_txs lib receipts (tx # txs) nonce_map all_receipts =
     (let nonce_map1 = (case fl_recover_signer lib tx of
            Some sender \<Rightarrow>
              (let nonce = (case nonce_map sender of Some n \<Rightarrow> n | None \<Rightarrow> 0)
               in nonce_map(sender \<mapsto> nonce + 1))
          | None \<Rightarrow> nonce_map)
      in case receipts (fl_hash_to_string lib (fl_tx_hash lib tx)) of
           None \<Rightarrow> Inl (CachePanic ''Receipt should exist'')
         | Some receipt \<Rightarrow> collect_txs lib receipts txs nonce_map1 (all_receipts @ [receipt]))"

definition tx_meta_of ::
  "('c, 'h, 't, 'r, 'q, 'i) cache_lib \<Rightarrow> 'h \<Rightarrow> nat \<Rightarrow> 't \<Rightarrow> tx_meta" where
  "tx_meta_of lib h indx tx =
     \<lparr>tm_tx_hash = fl_tx_hash lib tx, tm_index = of_nat indx, tm_block_hash = fl_hash_slow lib h,
      tm_block_number = fl_number lib h, tm_base_fee = fl_base_fee_per_gas lib h,
      tm_excess_blob_gas = fl_excess_blob_gas lib h, tm_timestamp = fl_timestamp lib h\<rparr>"

text \<open>The second loop: the receipts of the RPC.\<close>

fun build_receipts ::
  "('c, 'h, 't, 'r, 'q, 'i) cache_lib \<Rightarrow> 'c \<Rightarrow> 'h \<Rightarrow> 'r list \<Rightarrow> nat \<Rightarrow> 't list \<Rightarrow> u64 \<Rightarrow> nat \<Rightarrow> 'i
     \<Rightarrow> (b256 \<rightharpoonup> 'q) \<Rightarrow> cache_error + (b256 \<rightharpoonup> 'q)" where
  "build_receipts lib chain_spec h all_receipts indx [] gas next_log_index l1_block_info cache = Inr cache"
| "build_receipts lib chain_spec h all_receipts indx (tx # txs) gas next_log_index l1_block_info cache =
     (if length all_receipts \<le> indx then Inl (CachePanic ''Receipt should exist for transaction'')
      else
        (let receipt = all_receipts ! indx in
         case fl_recover_signer lib tx of
           None \<Rightarrow> Inl CeSigner
         | Some signer \<Rightarrow>
             (case fl_build_receipt lib chain_spec
                 \<lparr>ri_receipt = receipt, ri_tx = tx, ri_signer = signer,
                  ri_gas_used = fl_cumulative_gas_used lib receipt - gas,
                  ri_next_log_index = next_log_index, ri_meta = tx_meta_of lib h indx tx\<rparr> l1_block_info of
                None \<Rightarrow> Inl (CachePanic ''failed to build receipt'')
              | Some (rpc_receipt, l1_block_info1) \<Rightarrow>
                  build_receipts lib chain_spec h all_receipts (indx + 1) txs
                    (fl_cumulative_gas_used lib receipt) (next_log_index + fl_logs lib receipt) l1_block_info1
                    (cache(fl_tx_hash lib tx \<mapsto> rpc_receipt)))))"

definition cache_receipts ::
  "('c, 'h, 't, 'r, 'q, 'i) cache_lib \<Rightarrow> ('h, 't) op_block \<Rightarrow> 'r list \<Rightarrow> ('c, 'h, 't, 'q) flashblocks_cache
     \<Rightarrow> cache_error + ('c, 'h, 't, 'q) flashblocks_cache" where
  "cache_receipts lib block all_receipts c =
     (if blk_transactions block = [] then Inr c
      else
        (case fl_extract_l1_info lib (blk_transactions block) of
           None \<Rightarrow> Inl (CachePanic ''failed to extract l1 info'')
         | Some l1_block_info \<Rightarrow>
             (case build_receipts lib (fc_chain_spec c) (blk_header block) all_receipts 0
                     (blk_transactions block) 0 0 l1_block_info (fc_receipts_cache c) of
                Inl e \<Rightarrow> Inl e
              | Inr receipts \<Rightarrow> Inr (c\<lparr>fc_receipts_cache := receipts\<rparr>))))"

fun store_balances ::
  "('c, 'h, 't, 'r, 'q, 'i) cache_lib \<Rightarrow> (string \<times> string) list \<Rightarrow> (address \<rightharpoonup> u256)
     \<Rightarrow> cache_error + (address \<rightharpoonup> u256)" where
  "store_balances lib [] cache = Inr cache"
| "store_balances lib ((address, balance) # rest) cache =
     (case fl_address_from_str lib address of
        Inl e \<Rightarrow> Inl (CeAddress e)
      | Inr a \<Rightarrow>
          (case fl_u256_from_str lib balance of
             Inl e \<Rightarrow> Inl (CeBalance e)
           | Inr b \<Rightarrow> store_balances lib rest (cache(a \<mapsto> b))))"

definition inner_process_payload ::
  "('c, 'h, 't, 'r, 'q, 'i) cache_lib \<Rightarrow> flashblocks_payload_v1 \<Rightarrow> ('c, 'h, 't, 'q) flashblocks_cache
     \<Rightarrow> cache_error + ('c, 'h, 't, 'q) flashblocks_cache" where
  "inner_process_payload lib payload c =
     (case fl_metadata lib (fb_metadata payload) of
        Inl e \<Rightarrow> Inl (CeMetadata e)
      | Inr metadata \<Rightarrow>
          (case cache_extend lib payload c of
             Inl e \<Rightarrow> Inl e
           | Inr (block, c1) \<Rightarrow>
               (case collect_txs lib (md_receipts metadata) (blk_transactions block) Map.empty [] of
                  Inl e \<Rightarrow> Inl e
                | Inr (nonce_map, all_receipts) \<Rightarrow>
                    (case cache_receipts lib block all_receipts
                            (c1\<lparr>fc_nonce_cache := fc_nonce_cache c1 ++ nonce_map\<rparr>) of
                       Inl e \<Rightarrow> Inl e
                     | Inr c2 \<Rightarrow>
                         (case store_balances lib (md_new_account_balances metadata) (fc_balance_cache c2) of
                            Inl e \<Rightarrow> Inl e
                          | Inr balances \<Rightarrow>
                              Inr (c2\<lparr>fc_block := Some block, fc_balance_cache := balances\<rparr>))))))"

definition inner_get_balance :: "address \<Rightarrow> ('c, 'h, 't, 'q) flashblocks_cache \<Rightarrow> u256 option" where
  "inner_get_balance address c = fc_balance_cache c address"

definition inner_get_nonce :: "address \<Rightarrow> ('c, 'h, 't, 'q) flashblocks_cache \<Rightarrow> u64 option" where
  "inner_get_nonce address c = fc_nonce_cache c address"

definition inner_get_receipt :: "b256 \<Rightarrow> ('c, 'h, 't, 'q) flashblocks_cache \<Rightarrow> 'q option" where
  "inner_get_receipt tx_hash c = fc_receipts_cache c tx_hash"

section \<open>The pending block\<close>

record tx_info =
  ti_hash :: "b256 option"
  ti_block_hash :: "b256 option"
  ti_block_number :: "u64 option"
  ti_index :: "u64 option"
  ti_base_fee :: "u64 option"

record 't rpc_transaction =
  rt_tx :: 't
  rt_signer :: address
  rt_block_hash :: "b256 option"
  rt_block_number :: "u64 option"
  rt_transaction_index :: "u64 option"
  rt_effective_gas_price :: "128 word option"
  rt_deposit_nonce :: "u64 option"
  rt_deposit_receipt_version :: "u64 option"

datatype 't block_transactions = FullTxs "'t rpc_transaction list" | TxHashes "b256 list"

record ('h, 't) rpc_block =
  rpcb_header :: 'h
  rpcb_hash :: b256
  rpcb_transactions :: "'t block_transactions"
  rpcb_uncles :: "b256 list"
  rpcb_withdrawals :: "withdrawal list option"

definition transform_tx ::
  "('c, 'h, 't, 'r, 'q, 'i) cache_lib \<Rightarrow> 't \<Rightarrow> address \<Rightarrow> tx_info \<Rightarrow> 't rpc_transaction" where
  "transform_tx lib tx signer tx_info =
     (let effective_gas_price =
            (if fl_is_deposit lib tx then 0
             else (case ti_base_fee tx_info of
                     Some base_fee \<Rightarrow>
                       (case fl_effective_tip_per_gas lib tx base_fee of Some tip \<Rightarrow> tip | None \<Rightarrow> 0) + ucast base_fee
                   | None \<Rightarrow> fl_max_fee_per_gas lib tx))
      in \<lparr>rt_tx = tx, rt_signer = signer, rt_block_hash = ti_block_hash tx_info,
          rt_block_number = ti_block_number tx_info, rt_transaction_index = ti_index tx_info,
          rt_effective_gas_price = Some effective_gas_price, rt_deposit_nonce = None,
          rt_deposit_receipt_version = None\<rparr>)"

text \<open>\<open>Inl\<close> is the panic of \<^verbatim>\<open>recover_signers().unwrap()\<close>.\<close>

definition inner_get_block ::
  "('c, 'h, 't, 'r, 'q, 'i) cache_lib \<Rightarrow> bool \<Rightarrow> ('c, 'h, 't, 'q) flashblocks_cache
     \<Rightarrow> string + ('h, 't) rpc_block option" where
  "inner_get_block lib full c =
     (case fc_block c of
        None \<Rightarrow> Inr None
      | Some block \<Rightarrow>
          (let header = blk_header block; txs = blk_transactions block;
               rpc = (\<lambda>transactions. \<lparr>rpcb_header = header, rpcb_hash = fl_hash_slow lib header,
                 rpcb_transactions = transactions, rpcb_uncles = [], rpcb_withdrawals = Some []\<rparr>)
           in if full then
                (case those (map (fl_recover_signer lib) txs) of
                   None \<Rightarrow> Inl ''recover_signers''
                 | Some senders \<Rightarrow>
                     Inr (Some (rpc (FullTxs (map (\<lambda>(idx, tx, sender).
                       transform_tx lib tx sender
                         \<lparr>ti_hash = Some (fl_tx_hash lib tx), ti_block_hash = Some (fl_hash_slow lib header),
                          ti_block_number = Some (fl_number lib header), ti_index = Some (of_nat idx),
                          ti_base_fee = fl_base_fee_per_gas lib header\<rparr>)
                       (List.enumerate 0 (zip txs senders)))))))
              else Inr (Some (rpc (TxHashes (map (fl_tx_hash lib) txs))))))"

section \<open>FlashblocksCache\<close>

text \<open>The new state is stored only when processing succeeded.\<close>

definition process_payload ::
  "('c, 'h, 't, 'r, 'q, 'i) cache_lib \<Rightarrow> flashblocks_payload_v1 \<Rightarrow> ('c, 'h, 't, 'q) flashblocks_cache
     \<Rightarrow> (cache_error + unit) \<times> ('c, 'h, 't, 'q) flashblocks_cache" where
  "process_payload lib payload c =
     (case inner_process_payload lib payload c of
        Inl e \<Rightarrow> (Inl e, c)
      | Inr new_state \<Rightarrow> (Inr (), new_state))"

inductive cache_step ::
  "('c, 'h, 't, 'r, 'q, 'i) cache_lib \<Rightarrow> ('c, 'h, 't, 'q) flashblocks_cache
     \<Rightarrow> ('c, 'h, 't, 'q) flashblocks_cache \<Rightarrow> bool" for lib where
  cache_process: "cache_step lib c (snd (process_payload lib payload c))"

section \<open>What the cache represents\<close>

text \<open>
  The documented behaviour of the block conversion the cache relies on: it decodes the transactions one
  by one, in order.
\<close>

definition block_decodes :: "('c, 'h, 't, 'r, 'q, 'i) cache_lib \<Rightarrow> (bytes \<Rightarrow> 't option) \<Rightarrow> bool" where
  "block_decodes lib dec \<longleftrightarrow>
     (\<forall>p b. fl_try_into_block lib p = Inr b \<longrightarrow>
        map dec (p_transactions (v2_payload_inner (v3_payload_inner p))) = map Some (blk_transactions b))"

definition sent_by :: "('c, 'h, 't, 'r, 'q, 'i) cache_lib \<Rightarrow> address \<Rightarrow> 't list \<Rightarrow> nat" where
  "sent_by lib a txs = length (filter (\<lambda>tx. fl_recover_signer lib tx = Some a) txs)"

definition nonce_table :: "('c, 'h, 't, 'r, 'q, 'i) cache_lib \<Rightarrow> 't list \<Rightarrow> address \<rightharpoonup> u64" where
  "nonce_table lib txs = (\<lambda>a. if sent_by lib a txs = 0 then None else Some (of_nat (sent_by lib a txs)))"

definition pending_payload ::
  "execution_payload_base_v1 \<Rightarrow> flashblocks_payload_v1 list \<Rightarrow> execution_payload_v3" where
  "pending_payload base acc =
     execution_payload_of base (fb_diff (last acc))
       (concat (map (diff_transactions \<circ> fb_diff) acc)) (concat (map (diff_withdrawals \<circ> fb_diff) acc))"

text \<open>The cache for the flashblocks accepted since the last one with index 0.\<close>

definition cache_rep ::
  "('c, 'h, 't, 'r, 'q, 'i) cache_lib \<Rightarrow> flashblocks_payload_v1 list \<Rightarrow> ('c, 'h, 't, 'q) flashblocks_cache \<Rightarrow> bool" where
  "cache_rep lib acc c \<longleftrightarrow>
     builder_refines (fc_builder c) acc \<and>
     (case fc_block c of
        None \<Rightarrow> acc = [] \<and> fc_nonce_cache c = Map.empty \<and> fc_receipts_cache c = Map.empty
      | Some block \<Rightarrow>
          (\<exists>base. base_of acc = Some base \<and> fl_try_into_block lib (pending_payload base acc) = Inr block) \<and>
          (\<forall>tx \<in> set (blk_transactions block). fl_recover_signer lib tx \<noteq> None) \<and>
          fc_nonce_cache c = nonce_table lib (blk_transactions block) \<and>
          dom (fc_receipts_cache c) = fl_tx_hash lib ` set (blk_transactions block))"

lemma sent_by_simps [simp]:
  "sent_by lib a [] = 0"
  "sent_by lib a (tx # txs) = (if fl_recover_signer lib tx = Some a then Suc (sent_by lib a txs) else sent_by lib a txs)"
  "sent_by lib a (txs @ txs') = sent_by lib a txs + sent_by lib a txs'"
  by (simp_all add: sent_by_def)

lemma nonce_table_Nil [simp]: "nonce_table lib [] = Map.empty"
  by (simp add: nonce_table_def)

lemma nonce_table_add [simp]: "nonce_table lib txs ++ nonce_table lib (txs @ txs') = nonce_table lib (txs @ txs')"
  by (rule ext) (simp add: nonce_table_def map_add_def)

lemma collect_txs_nonces:
  "collect_txs lib receipts txs nonce_map rs = Inr (nonce_map', rs') \<Longrightarrow>
     nonce_map' a = (if sent_by lib a txs = 0 then nonce_map a
       else Some ((case nonce_map a of Some n \<Rightarrow> n | None \<Rightarrow> 0) + of_nat (sent_by lib a txs)))"
  by (induction lib receipts txs nonce_map rs rule: collect_txs.induct)
    (auto simp: Let_def algebra_simps split: option.splits if_splits)

lemma collect_txs_table:
  assumes "collect_txs lib receipts txs Map.empty rs = Inr (nonce_map', rs')"
  shows "nonce_map' = nonce_table lib txs"
  by (rule ext) (simp add: collect_txs_nonces [OF assms] nonce_table_def)

lemma collect_txs_receipts:
  "collect_txs lib receipts txs nonce_map rs = Inr (nonce_map', rs') \<Longrightarrow>
     rs' = rs @ map (\<lambda>tx. the (receipts (fl_hash_to_string lib (fl_tx_hash lib tx)))) txs"
  by (induction lib receipts txs nonce_map rs rule: collect_txs.induct)
    (auto simp: Let_def split: option.splits)

lemma build_receipts_dom:
  "build_receipts lib spec h rs i txs gas logs l1 cache = Inr cache' \<Longrightarrow>
     (\<forall>tx \<in> set txs. fl_recover_signer lib tx \<noteq> None) \<and> dom cache' = dom cache \<union> fl_tx_hash lib ` set txs"
  by (induction lib spec h rs i txs gas logs l1 cache rule: build_receipts.induct)
    (auto simp: Let_def split: option.splits if_splits prod.splits)

lemma pending_payload_txs:
  "p_transactions (v2_payload_inner (v3_payload_inner (pending_payload base acc))) =
     concat (map (diff_transactions \<circ> fb_diff) acc)"
  by (simp add: pending_payload_def execution_payload_of_def)

text \<open>Of a longer list of flashblocks the block has the transactions of the shorter one first.\<close>

lemma pending_block_extends:
  assumes "block_decodes lib dec"
    and "fl_try_into_block lib (pending_payload base acc) = Inr block"
    and "fl_try_into_block lib (pending_payload base' (acc @ [p])) = Inr block'"
  shows "\<exists>new. blk_transactions block' = blk_transactions block @ new"
proof -
  have dec: "map dec (concat (map (diff_transactions \<circ> fb_diff) acc)) = map Some (blk_transactions block)"
    "map dec (concat (map (diff_transactions \<circ> fb_diff) (acc @ [p]))) = map Some (blk_transactions block')"
    using assms unfolding block_decodes_def by (metis pending_payload_txs)+
  then have "map Some (blk_transactions block') =
      map Some (blk_transactions block) @ map dec (diff_transactions (fb_diff p))" by simp
  then have "take (length (blk_transactions block)) (map Some (blk_transactions block')) =
      map Some (blk_transactions block)" by simp
  then have "map Some (take (length (blk_transactions block)) (blk_transactions block')) =
      map Some (blk_transactions block)" by (simp only: take_map)
  then have "take (length (blk_transactions block)) (blk_transactions block') = blk_transactions block"
    by simp
  then show ?thesis by (metis append_take_drop_id)
qed

text \<open>The flashblocks in force after an accepted payload.\<close>

definition next_acc :: "flashblocks_payload_v1 \<Rightarrow> flashblocks_payload_v1 list \<Rightarrow> flashblocks_payload_v1 list" where
  "next_acc p acc = (if fb_index p = 0 then [p] else acc @ [p])"

lemma build_envelope_pending:
  assumes "builder_refines b acc" "build_envelope PV4 b = Inr env"
  obtains base env4 where "base_of acc = Some base" "env = EnvV4 env4" "acc \<noteq> []"
    "v4_payload_inner (e4_execution_payload env4) = pending_payload base acc"
  using assms(2) build_envelope_refines [OF assms(1), of PV4]
  by (auto simp: assemble_def pending_payload_def Let_def split: option.splits if_splits)

lemma cache_extend_rep:
  assumes "builder_refines (fc_builder c) acc" "cache_extend lib p c = Inr (block, c1)"
  defines "c0 \<equiv> (if fb_index p = 0 then cache_reset c else c)"
  shows "sp_extends p (if fb_index p = 0 then [] else acc) \<and> builder_refines (fc_builder c1) (next_acc p acc) \<and>
    c1 = c0\<lparr>fc_builder := fc_builder c1\<rparr> \<and>
    (\<exists>base. base_of (next_acc p acc) = Some base \<and>
       fl_try_into_block lib (pending_payload base (next_acc p acc)) = Inr block)"
proof -
  let ?acc = "if fb_index p = 0 then [] else acc"
  have ref: "builder_refines (fc_builder c0) ?acc"
    using assms(1) by (simp add: c0_def cache_reset_def)
  obtain b where ext: "builder_extend p (fc_builder c0) = (Inr (), b)" and c1: "c1 = c0\<lparr>fc_builder := b\<rparr>"
    and env: "\<exists>env4. build_envelope PV4 b = Inr (EnvV4 env4) \<and>
      fl_try_into_block lib (v4_payload_inner (e4_execution_payload env4)) = Inr block"
    using assms(2)
    by (auto simp: cache_extend_def Let_def c0_def
        split: prod.splits sum.splits op_execution_payload_envelope.splits)
  have sp: "sp_extends p ?acc" using builder_extend_rejects [OF ref] ext by fastforce
  obtain b' where b': "builder_extend p (fc_builder c0) = (Inr (), b')" "builder_refines b' (?acc @ [p])"
    using builder_extend_accepts [OF ref sp] .
  then have rb: "builder_refines b (next_acc p acc)" using ext by (auto simp: next_acc_def)
  from env obtain env4 where env4: "build_envelope PV4 b = Inr (EnvV4 env4)"
    "fl_try_into_block lib (v4_payload_inner (e4_execution_payload env4)) = Inr block" by blast
  from build_envelope_pending [OF rb env4(1)] obtain base where
    "base_of (next_acc p acc) = Some base"
    "v4_payload_inner (e4_execution_payload env4) = pending_payload base (next_acc p acc)" by auto
  with env4 sp rb c1 show ?thesis by auto
qed

text \<open>What a successful \<^verbatim>\<open>process_payload\<close> went through.\<close>

lemma inner_process_cases:
  assumes "inner_process_payload lib p c = Inr c'"
  obtains md block c1 rs receipts balances where
    "fl_metadata lib (fb_metadata p) = Inr md" "cache_extend lib p c = Inr (block, c1)"
    "collect_txs lib (md_receipts md) (blk_transactions block) Map.empty [] =
       Inr (nonce_table lib (blk_transactions block), rs)"
    "c' = c1\<lparr>fc_nonce_cache := fc_nonce_cache c1 ++ nonce_table lib (blk_transactions block),
       fc_receipts_cache := receipts, fc_block := Some block, fc_balance_cache := balances\<rparr>"
    "if blk_transactions block = [] then receipts = fc_receipts_cache c1
     else \<exists>l1. fl_extract_l1_info lib (blk_transactions block) = Some l1 \<and>
       build_receipts lib (fc_chain_spec c1) (blk_header block) rs 0 (blk_transactions block) 0 0 l1
         (fc_receipts_cache c1) = Inr receipts"
proof -
  obtain md block c1 nm rs c2 balances where
    1: "fl_metadata lib (fb_metadata p) = Inr md" "cache_extend lib p c = Inr (block, c1)"
    and nm: "collect_txs lib (md_receipts md) (blk_transactions block) Map.empty [] = Inr (nm, rs)"
    and c2: "cache_receipts lib block rs (c1\<lparr>fc_nonce_cache := fc_nonce_cache c1 ++ nm\<rparr>) = Inr c2"
    and c': "c' = c2\<lparr>fc_block := Some block, fc_balance_cache := balances\<rparr>"
    using assms by (auto simp: inner_process_payload_def split: sum.splits prod.splits)
  have t: "nm = nonce_table lib (blk_transactions block)" using nm by (rule collect_txs_table)
  show thesis
    by (rule that [OF 1, where rs = rs and receipts = "fc_receipts_cache c2" and balances = balances])
      (use nm c2 c' t in \<open>auto simp: cache_receipts_def split: if_splits option.splits sum.splits\<close>)
qed

text \<open>The caches before the two loops cover a first part of the new block's transactions.\<close>

lemma cache_covers_old:
  assumes "block_decodes lib dec" "cache_rep lib acc c"
    and "fl_try_into_block lib (pending_payload base (next_acc p acc)) = Inr block"
  defines "c0 \<equiv> if fb_index p = 0 then cache_reset c else c"
  shows "\<exists>old ex. blk_transactions block = old @ ex \<and> fc_nonce_cache c0 = nonce_table lib old \<and>
      dom (fc_receipts_cache c0) = fl_tx_hash lib ` set old"
proof (cases "fb_index p = 0 \<or> fc_block c = None")
  case True
  with assms(2) have "fc_nonce_cache c0 = Map.empty" "fc_receipts_cache c0 = Map.empty"
    by (auto simp: c0_def cache_reset_def cache_rep_def)
  then show ?thesis by (intro exI [of _ "[]"] exI [of _ "blk_transactions block"]) simp
next
  case False
  then obtain block0 base0 where b0: "fc_block c = Some block0"
    "fl_try_into_block lib (pending_payload base0 acc) = Inr block0" "c0 = c"
    "fc_nonce_cache c = nonce_table lib (blk_transactions block0)"
    "dom (fc_receipts_cache c) = fl_tx_hash lib ` set (blk_transactions block0)"
    using assms(2) by (auto simp: cache_rep_def c0_def)
  have "fl_try_into_block lib (pending_payload base (acc @ [p])) = Inr block"
    using assms(3) False by (simp add: next_acc_def)
  from pending_block_extends [OF assms(1) b0(2) this] obtain ex where
    "blk_transactions block = blk_transactions block0 @ ex" by blast
  with b0(3-) show ?thesis by blast
qed

lemma process_payload_rep:
  assumes "block_decodes lib dec" "cache_rep lib acc c" "inner_process_payload lib p c = Inr c'"
  shows "cache_rep lib (next_acc p acc) c' \<and> sp_extends p (if fb_index p = 0 then [] else acc)"
proof -
  from assms(3) obtain md block c1 rs receipts balances where
    ext: "cache_extend lib p c = Inr (block, c1)"
    and c': "c' = c1\<lparr>fc_nonce_cache := fc_nonce_cache c1 ++ nonce_table lib (blk_transactions block),
       fc_receipts_cache := receipts, fc_block := Some block, fc_balance_cache := balances\<rparr>"
    and rec: "if blk_transactions block = [] then receipts = fc_receipts_cache c1
     else \<exists>l1. fl_extract_l1_info lib (blk_transactions block) = Some l1 \<and>
       build_receipts lib (fc_chain_spec c1) (blk_header block) rs 0 (blk_transactions block) 0 0 l1
         (fc_receipts_cache c1) = Inr receipts"
    by (rule inner_process_cases)
  have ref: "builder_refines (fc_builder c) acc" using assms(2) by (simp add: cache_rep_def)
  note new = cache_extend_rep [OF ref ext]
  from new obtain base where base: "base_of (next_acc p acc) = Some base"
    "fl_try_into_block lib (pending_payload base (next_acc p acc)) = Inr block" by blast
  define c0 where "c0 = (if fb_index p = 0 then cache_reset c else c)"
  have c1: "fc_nonce_cache c1 = fc_nonce_cache c0" "fc_receipts_cache c1 = fc_receipts_cache c0"
    using new unfolding c0_def by (metis flashblocks_cache.select_convs(5,6) flashblocks_cache.surjective
        flashblocks_cache.update_convs(2))+
  from cache_covers_old [OF assms(1,2) base(2)] obtain old ex where old: "blk_transactions block = old @ ex"
    "fc_nonce_cache c0 = nonce_table lib old" "dom (fc_receipts_cache c0) = fl_tx_hash lib ` set old"
    unfolding c0_def by blast
  have receipts: "(\<forall>tx \<in> set (blk_transactions block). fl_recover_signer lib tx \<noteq> None) \<and>
      dom receipts = fl_tx_hash lib ` set (blk_transactions block)"
  proof (cases "blk_transactions block = []")
    case False
    with rec obtain l1 where "build_receipts lib (fc_chain_spec c1) (blk_header block) rs 0
        (blk_transactions block) 0 0 l1 (fc_receipts_cache c1) = Inr receipts" by auto
    from build_receipts_dom [OF this] show ?thesis
      unfolding c1(2) old(3) by (simp add: old(1) image_Un Un_absorb1)
  qed (use rec old c1(2) in simp)
  have "fc_nonce_cache c1 ++ nonce_table lib (blk_transactions block) = nonce_table lib (blk_transactions block)"
    by (simp add: c1(1) old(1,2))
  with new base receipts show ?thesis
    by (simp add: cache_rep_def c')
qed

lemma cache_rep_new: "cache_rep lib [] (cache_new spec)"
  by (simp add: cache_rep_def cache_new_def)

definition cache_inv ::
  "('c, 'h, 't, 'r, 'q, 'i) cache_lib \<Rightarrow> ('c, 'h, 't, 'q) flashblocks_cache \<Rightarrow> bool" where
  "cache_inv lib c \<longleftrightarrow> (\<forall>dec. block_decodes lib dec \<longrightarrow> (\<exists>acc. cache_rep lib acc c))"

interpretation cache: invariant_system "\<lambda>c. c = cache_new spec" "cache_step lib" "cache_inv lib" for spec lib
proof (unfold_locales, goal_cases)
  case (1 c)
  then show ?case by (auto simp: cache_inv_def intro: cache_rep_new)
next
  case (2 c c')
  from 2(1) obtain p where c': "c' = snd (process_payload lib p c)" by cases
  show ?case
  proof (cases "inner_process_payload lib p c")
    case (Inr d)
    with 2(2) c' show ?thesis
      unfolding cache_inv_def by (metis process_payload_def process_payload_rep snd_conv sum.simps(6))
  qed (use 2(2) c' in \<open>simp add: process_payload_def\<close>)
qed

section \<open>Properties\<close>

text \<open>
  C32: the cache implements the pending block. Processing a flashblock either fails and leaves the cache as it
  was, or the flashblock follows the accepted ones (or starts a new block with index 0) and the cache
  then represents them: its block is the converted payload they describe, the nonce of an address is
  the number of its transactions in the block, and there are receipts for exactly these transactions.
\<close>

theorem cache_refines_pending_block:
  assumes "block_decodes lib dec" "cache_rep lib acc c"
  shows "case process_payload lib p c of
      (Inl e, c') \<Rightarrow> c' = c
    | (Inr _, c') \<Rightarrow> sp_extends p (if fb_index p = 0 then [] else acc) \<and> cache_rep lib (next_acc p acc) c'"
proof (cases "inner_process_payload lib p c")
  case (Inr c')
  then show ?thesis using process_payload_rep [OF assms Inr] by (simp add: process_payload_def)
qed (simp add: process_payload_def)

lemma those_map_Some:
  "\<forall>x \<in> set xs. f x \<noteq> None \<Longrightarrow> those (map f xs) = Some (map (the \<circ> f) xs)"
  by (induction xs) auto

text \<open>
  The pending block can always be served. In every reachable cache, asking for the block with full
  transactions does not panic on a signature that cannot be recovered; the result lists the block's
  transactions in order, each with its sender, its position and the block's hash and number.
\<close>

theorem pending_block_is_served:
  assumes "reach (\<lambda>c. c = cache_new spec) (cache_step lib) c" "block_decodes lib dec"
  shows "case fc_block c of
      None \<Rightarrow> inner_get_block lib True c = Inr None
    | Some block \<Rightarrow>
        (\<exists>rpc txs. inner_get_block lib True c = Inr (Some rpc) \<and> rpcb_transactions rpc = FullTxs txs \<and>
           map rt_tx txs = blk_transactions block \<and>
           map (Some \<circ> rt_signer) txs = map (fl_recover_signer lib) (blk_transactions block) \<and>
           map rt_transaction_index txs = map (Some \<circ> of_nat) [0..<length txs] \<and>
           (\<forall>tx \<in> set txs. rt_block_hash tx = Some (rpcb_hash rpc) \<and>
              rt_block_number tx = Some (fl_number lib (blk_header block))))"
proof (cases "fc_block c")
  case (Some block)
  let ?txs = "blk_transactions block" and ?h = "blk_header block"
  have "cache_inv lib c" using assms(1) by (rule cache.reach_inv)
  with assms(2) Some have all: "\<forall>tx \<in> set ?txs. fl_recover_signer lib tx \<noteq> None"
    by (auto simp: cache_inv_def cache_rep_def)
  note senders = those_map_Some [OF this]
  define f where "f = (\<lambda>(idx, tx, sender). transform_tx lib tx sender
     \<lparr>ti_hash = Some (fl_tx_hash lib tx), ti_block_hash = Some (fl_hash_slow lib ?h),
      ti_block_number = Some (fl_number lib ?h), ti_index = Some (of_nat idx),
      ti_base_fee = fl_base_fee_per_gas lib ?h\<rparr>)"
  define txs where "txs = map f (List.enumerate 0 (zip ?txs (map (the \<circ> fl_recover_signer lib) ?txs)))"
  have nth: "txs ! i = f (i, ?txs ! i, the (fl_recover_signer lib (?txs ! i)))" if "i < length ?txs" for i
    using that by (simp add: txs_def nth_enumerate_eq)
  have len: "length txs = length ?txs" by (simp add: txs_def)
  have "map rt_tx txs = ?txs" "map (Some \<circ> rt_signer) txs = map (fl_recover_signer lib) ?txs"
    "map rt_transaction_index txs = map (Some \<circ> of_nat) [0..<length txs]"
    using all by (auto intro!: nth_equalityI simp: len nth f_def transform_tx_def Let_def)
  moreover have "\<forall>tx \<in> set txs. rt_block_hash tx = Some (fl_hash_slow lib ?h) \<and>
      rt_block_number tx = Some (fl_number lib ?h)"
    by (auto simp: txs_def f_def transform_tx_def Let_def)
  moreover have "inner_get_block lib True c = Inr (Some \<lparr>rpcb_header = ?h, rpcb_hash = fl_hash_slow lib ?h,
      rpcb_transactions = FullTxs txs, rpcb_uncles = [], rpcb_withdrawals = Some []\<rparr>)"
    by (simp add: inner_get_block_def Some senders txs_def f_def Let_def)
  ultimately show ?thesis using Some by simp
qed (simp add: inner_get_block_def)

text \<open>The input of the receipt builder for the transaction at a position.\<close>

definition receipt_input_at ::
  "('c, 'h, 't, 'r, 'q, 'i) cache_lib \<Rightarrow> 'h \<Rightarrow> 't \<Rightarrow> address \<Rightarrow> 'r \<Rightarrow> nat \<Rightarrow> u64 \<Rightarrow> nat \<Rightarrow> ('t, 'r) receipt_input" where
  "receipt_input_at lib h tx signer receipt i gas_before logs_before =
     \<lparr>ri_receipt = receipt, ri_tx = tx, ri_signer = signer,
      ri_gas_used = fl_cumulative_gas_used lib receipt - gas_before, ri_next_log_index = logs_before,
      ri_meta = tx_meta_of lib h i tx\<rparr>"

lemma build_receipts_keeps:
  "build_receipts lib spec h rs i txs gas logs l1 cache = Inr cache' \<Longrightarrow>
     k \<notin> fl_tx_hash lib ` set txs \<Longrightarrow> cache' k = cache k"
  by (induction lib spec h rs i txs gas logs l1 cache rule: build_receipts.induct)
    (auto simp: Let_def split: option.splits if_splits prod.splits)

lemma build_receipts_nth:
  assumes "build_receipts lib spec h rs i txs gas logs l1 cache = Inr cache'"
    "distinct (map (fl_tx_hash lib) txs)" "j < length txs"
  shows "\<exists>signer q l1a l1b. fl_recover_signer lib (txs ! j) = Some signer \<and>
    fl_build_receipt lib spec
      (receipt_input_at lib h (txs ! j) signer (rs ! (i + j)) (i + j)
         (if j = 0 then gas else fl_cumulative_gas_used lib (rs ! (i + j - 1)))
         (logs + (\<Sum>k<j. fl_logs lib (rs ! (i + k))))) l1a = Some (q, l1b) \<and>
    cache' (fl_tx_hash lib (txs ! j)) = Some q"
  using assms
proof (induction txs arbitrary: i gas logs l1 cache j)
  case (Cons tx txs)
  obtain signer q l1' where first: "fl_recover_signer lib tx = Some signer"
    "fl_build_receipt lib spec (receipt_input_at lib h tx signer (rs ! i) i gas logs) l1 = Some (q, l1')"
    and rest: "build_receipts lib spec h rs (Suc i) txs (fl_cumulative_gas_used lib (rs ! i))
      (logs + fl_logs lib (rs ! i)) l1' (cache(fl_tx_hash lib tx \<mapsto> q)) = Inr cache'"
    using Cons.prems(1)
    by (auto simp: receipt_input_at_def Let_def split: option.splits if_splits prod.splits)
  show ?case
  proof (cases j)
    case 0
    have "cache' (fl_tx_hash lib tx) = Some q"
      using build_receipts_keeps [OF rest, of "fl_tx_hash lib tx"] Cons.prems(2) by simp
    with first 0 show ?thesis by auto
  next
    case (Suc n)
    have dist: "distinct (map (fl_tx_hash lib) txs)" "n < length txs" using Cons.prems Suc by simp_all
    have sum: "logs + (\<Sum>k<Suc n. fl_logs lib (rs ! (i + k))) =
        logs + fl_logs lib (rs ! i) + (\<Sum>k<n. fl_logs lib (rs ! (Suc i + k)))"
      by (subst sum.lessThan_Suc_shift) simp
    show ?thesis
      using Cons.IH [OF rest dist] Suc unfolding Suc sum by (cases n) (simp_all add: add.assoc)
  qed
qed simp


section \<open>Witnesses\<close>

text \<open>A node whose transactions are their bytes, sent by and hashed to their first byte.\<close>

definition sample_cache_lib :: "(unit, u64, bytes, nat, u64 \<times> nat, unit) cache_lib" where
  "sample_cache_lib =
     \<lparr>fl_metadata = (\<lambda>_. Inr \<lparr>md_receipts = (\<lambda>k. Some (length k * 100)), md_new_account_balances = [(''a'', ''b'')],
                            md_block_number = 1\<rparr>),
      fl_try_into_block = (\<lambda>p. Inr \<lparr>blk_header = p_block_number (v2_payload_inner (v3_payload_inner p)),
        blk_transactions = p_transactions (v2_payload_inner (v3_payload_inner p))\<rparr>),
      fl_recover_signer = (\<lambda>tx. case tx of [] \<Rightarrow> None | b # _ \<Rightarrow> Some (if b < 3 then 7 else 8)),
      fl_tx_hash = (\<lambda>tx. case tx of [] \<Rightarrow> 0 | b # _ \<Rightarrow> ucast b),
      fl_hash_to_string = (\<lambda>h. replicate (unat h) CHR ''x''),
      fl_is_deposit = (\<lambda>_. False), fl_effective_tip_per_gas = (\<lambda>_ _. None), fl_max_fee_per_gas = (\<lambda>_. 0),
      fl_number = id, fl_hash_slow = ucast, fl_base_fee_per_gas = (\<lambda>_. Some 1),
      fl_excess_blob_gas = (\<lambda>_. None), fl_timestamp = (\<lambda>_. 0),
      fl_cumulative_gas_used = of_nat, fl_logs = (\<lambda>_. 2),
      fl_extract_l1_info = (\<lambda>_. Some ()),
      fl_build_receipt = (\<lambda>_ inp l1. Some ((ri_gas_used inp, ri_next_log_index inp), l1)),
      fl_address_from_str = (\<lambda>_. Inr 7), fl_u256_from_str = (\<lambda>_. Inr 9)\<rparr>"

lemma sample_cache_lib_sel [simp]:
  "fl_metadata sample_cache_lib j = Inr \<lparr>md_receipts = (\<lambda>k. Some (length k * 100)),
     md_new_account_balances = [(''a'', ''b'')], md_block_number = 1\<rparr>"
  "fl_recover_signer sample_cache_lib (b # bs) = Some (if b < 3 then 7 else 8)"
  "fl_tx_hash sample_cache_lib (b # bs) = ucast b"
  "fl_hash_to_string sample_cache_lib h = replicate (unat h) CHR ''x''"
  "fl_cumulative_gas_used sample_cache_lib r = of_nat r" "fl_logs sample_cache_lib r = 2"
  "fl_extract_l1_info sample_cache_lib txs = Some ()"
  "fl_build_receipt sample_cache_lib spec inp l1 = Some ((ri_gas_used inp, ri_next_log_index inp), l1)"
  "fl_address_from_str sample_cache_lib str = Inr 7" "fl_u256_from_str sample_cache_lib str = Inr 9"
  by (simp_all add: sample_cache_lib_def)

definition sample_pending :: flashblocks_payload_v1 where
  "sample_pending = sample_fb 1 0 (Some sample_base) [[1], [2], [3]]"

definition sample_cache :: "(unit, u64, bytes, u64 \<times> nat) flashblocks_cache" where
  "sample_cache = snd (process_payload sample_cache_lib sample_pending (cache_new ()))"

lemma sample_decodes: "block_decodes sample_cache_lib Some"
  by (auto simp: block_decodes_def sample_cache_lib_def)

definition sample_block :: "(u64, bytes) op_block" where
  "sample_block = \<lparr>blk_header = 1, blk_transactions = [[1], [2], [3]]\<rparr>"

lemma sample_process:
  "process_payload sample_cache_lib sample_pending (cache_new ()) = (Inr (), sample_cache) \<and>
   fc_block sample_cache = Some sample_block"
proof -
  have ext: "builder_extend sample_pending flashblock_builder_new =
      (Inr (), \<lparr>bld_base = Some sample_base, bld_flashblocks = [sample_diff [[1], [2], [3]]]\<rparr>)"
    by (simp add: builder_extend_def flashblock_builder_new_def sample_pending_def sample_fb_def)
  have index: "fb_index sample_pending = 0" by (simp add: sample_pending_def sample_fb_def)
  have "\<exists>c. cache_extend sample_cache_lib sample_pending (cache_new ()) = Inr (sample_block, c)"
    by (simp add: cache_extend_def index cache_reset_def cache_new_def ext build_envelope_def execution_payload_of_def
        sample_cache_lib_def sample_block_def sample_base_def sample_diff_def Let_def)
  then obtain c where c: "cache_extend sample_cache_lib sample_pending (cache_new ()) = Inr (sample_block, c)" ..
  have "\<exists>c'. inner_process_payload sample_cache_lib sample_pending (cache_new ()) = Inr c' \<and>
      fc_block c' = Some sample_block"
    unfolding inner_process_payload_def c by (simp add: cache_receipts_def sample_block_def Let_def)
  then show ?thesis by (auto simp: sample_cache_def process_payload_def)
qed

theorem cache_refines_pending_block_witness:
  "cache_rep sample_cache_lib [sample_pending] sample_cache"
  using cache_refines_pending_block [OF sample_decodes cache_rep_new, of "()" sample_pending] sample_process
  by (simp add: next_acc_def sample_pending_def sample_fb_def)

theorem pending_block_is_served_witness:
  "\<exists>rpc txs. inner_get_block sample_cache_lib True sample_cache = Inr (Some rpc) \<and>
     rpcb_transactions rpc = FullTxs txs \<and> map rt_tx txs = [[1], [2], [3]]"
proof -
  have "reach (\<lambda>c. c = cache_new ()) (cache_step sample_cache_lib) sample_cache"
    unfolding sample_cache_def by (rule reach_step [OF reach_init], simp) (rule cache_process)
  from pending_block_is_served [OF this sample_decodes] sample_process show ?thesis
    by (auto simp: sample_block_def)
qed


end
