(* ===== verification/Fb_Rpc.thy ===== *)
theory Fb_Rpc
  imports Fb_Cache Ws_Subscriber
begin

text \<open>
  The flashblocks RPC overlay: the reader of the flashblocks stream (\<^verbatim>\<open>flashblocks-rpc/src/flashblocks.rs\<close>)
  and the overridden methods of the node's \<^verbatim>\<open>eth\<close> API (\<^verbatim>\<open>flashblocks-rpc/src/rpc.rs\<close>), over the cache of
  the theory \<open>Fb_Cache\<close>. The node's own API, the \<^verbatim>\<open>brotli\<close> decompressor and the JSON decoder are parameters.
  A string is its UTF-8 bytes.
\<close>

section \<open>Strings of the standard library\<close>

definition is_cont :: "8 word \<Rightarrow> bool" where
  "is_cont b \<longleftrightarrow> 0x80 \<le> b \<and> b \<le> 0xBF"

text \<open>The length of the well-formed UTF-8 sequence at the start, 0 if there is none.\<close>

fun utf8_len :: "bytes \<Rightarrow> nat" where
  "utf8_len [] = 0"
| "utf8_len (b # bs) =
     (if b < 0x80 then 1
      else if 0xC2 \<le> b \<and> b \<le> 0xDF then (case bs of b1 # _ \<Rightarrow> if is_cont b1 then 2 else 0 | _ \<Rightarrow> 0)
      else if 0xE0 \<le> b \<and> b \<le> 0xEF then
        (case bs of
           b1 # b2 # _ \<Rightarrow>
             if is_cont b1 \<and> is_cont b2 \<and> (b = 0xE0 \<longrightarrow> 0xA0 \<le> b1) \<and> (b = 0xED \<longrightarrow> b1 \<le> 0x9F) then 3 else 0
         | _ \<Rightarrow> 0)
      else if 0xF0 \<le> b \<and> b \<le> 0xF4 then
        (case bs of
           b1 # b2 # b3 # _ \<Rightarrow>
             if is_cont b1 \<and> is_cont b2 \<and> is_cont b3 \<and> (b = 0xF0 \<longrightarrow> 0x90 \<le> b1) \<and> (b = 0xF4 \<longrightarrow> b1 \<le> 0x8F)
             then 4 else 0
         | _ \<Rightarrow> 0)
      else 0)"

function valid_utf8 :: "bytes \<Rightarrow> bool" where
  "valid_utf8 bs =
     (if bs = [] then True else if utf8_len bs = 0 then False else valid_utf8 (drop (utf8_len bs) bs))"
  by pat_completeness auto

termination valid_utf8
  by (relation "measure length") auto

declare valid_utf8.simps [simp del]

text \<open>The length of a white space character at the start, 0 if there is none.\<close>

fun ws_len :: "bytes \<Rightarrow> nat" where
  "ws_len [] = 0"
| "ws_len (b # bs) =
     (if (9 \<le> b \<and> b \<le> 13) \<or> b = 32 then 1
      else if b = 0xC2 then (case bs of b1 # _ \<Rightarrow> if b1 = 0x85 \<or> b1 = 0xA0 then 2 else 0 | _ \<Rightarrow> 0)
      else (case bs of
              b1 # b2 # _ \<Rightarrow>
                if (b, b1, b2) = (0xE1, 0x9A, 0x80) \<or>
                   (b = 0xE2 \<and> b1 = 0x80 \<and> (0x80 \<le> b2 \<and> b2 \<le> 0x8A \<or> b2 \<in> {0xA8, 0xA9, 0xAF})) \<or>
                   (b, b1, b2) = (0xE2, 0x81, 0x9F) \<or> (b, b1, b2) = (0xE3, 0x80, 0x80)
                then 3 else 0
            | _ \<Rightarrow> 0))"

function trim_start :: "bytes \<Rightarrow> bytes" where
  "trim_start bs = (if ws_len bs = 0 then bs else trim_start (drop (ws_len bs) bs))"
  by pat_completeness auto

termination trim_start
proof (relation "measure length")
  fix bs :: bytes
  assume "ws_len bs \<noteq> 0"
  then show "(drop (ws_len bs) bs, bs) \<in> measure length" by (cases bs) auto
qed simp

declare trim_start.simps [simp del]

section \<open>FlashblocksOverlay\<close>

record overlay_lib =
  ov_decompress :: "bytes \<Rightarrow> string + bytes"
  ov_from_json :: "bytes \<Rightarrow> string + flashblocks_payload_v1"

definition looks_like_json :: "bytes \<Rightarrow> bool" where
  "looks_like_json bs \<longleftrightarrow> valid_utf8 bs \<and> take 1 (trim_start bs) = [0x7B]"

definition try_parse_message :: "overlay_lib \<Rightarrow> bytes \<Rightarrow> string + bytes" where
  "try_parse_message lib bs =
     (if looks_like_json bs then Inr bs
      else
        (case ov_decompress lib bs of
           Inl e \<Rightarrow> Inl e
         | Inr decompressed \<Rightarrow> if valid_utf8 decompressed then Inr decompressed else Inl ''invalid utf-8''))"

definition try_decode_message :: "overlay_lib \<Rightarrow> bytes \<Rightarrow> string + flashblocks_payload_v1" where
  "try_decode_message lib bs =
     (case try_parse_message lib bs of
        Inl e \<Rightarrow> Inl e
      | Inr text \<Rightarrow>
          (case ov_from_json lib text of
             Inl e \<Rightarrow> Inl (''failed to parse message: '' @ e)
           | Inr payload \<Rightarrow> Inr payload))"

text \<open>What \<^verbatim>\<open>read.next()\<close> gives: messages of the proxy's type, or an error. The end of the list is its end.\<close>

fun overlay_read :: "overlay_lib \<Rightarrow> (string + ws_message) list \<Rightarrow> flashblocks_payload_v1 list" where
  "overlay_read lib [] = []"
| "overlay_read lib (msg # msgs) =
     (case msg of
        Inr (Binary bs) \<Rightarrow>
          (case try_decode_message lib bs of
             Inr payload \<Rightarrow> payload # overlay_read lib msgs
           | Inl e \<Rightarrow> overlay_read lib msgs)
      | Inr Close \<Rightarrow> []
      | Inl e \<Rightarrow> []
      | Inr _ \<Rightarrow> overlay_read lib msgs)"

definition MAX_BACKOFF :: nat where
  "MAX_BACKOFF = 10"

text \<open>
  The connection task over the given connections (an error of \<^verbatim>\<open>connect_async\<close> or the messages read), with
  the payloads put into the channel and the pauses in seconds.
\<close>

fun overlay_connect ::
  "overlay_lib \<Rightarrow> (string + (string + ws_message) list) list \<Rightarrow> nat \<Rightarrow> flashblocks_payload_v1 list \<times> nat list" where
  "overlay_connect lib [] backoff = ([], [])"
| "overlay_connect lib (Inr msgs # conns) backoff =
     (let (ps, pauses) = overlay_connect lib conns backoff in (overlay_read lib msgs @ ps, pauses))"
| "overlay_connect lib (Inl e # conns) backoff =
     (let (ps, pauses) = overlay_connect lib conns (min (backoff * 2) MAX_BACKOFF) in (ps, backoff # pauses))"

text \<open>The processing task over the payloads of the channel; \<open>False\<close> when it has panicked and is gone.\<close>

fun overlay_process ::
  "('c, 'h, 't, 'r, 'q, 'i) cache_lib \<Rightarrow> flashblocks_payload_v1 list \<Rightarrow> ('c, 'h, 't, 'q) flashblocks_cache
     \<Rightarrow> bool \<times> ('c, 'h, 't, 'q) flashblocks_cache" where
  "overlay_process lib [] c = (True, c)"
| "overlay_process lib (p # ps) c =
     (case process_payload lib p c of
        (Inl (CachePanic _), c1) \<Rightarrow> (False, c1)
      | (_, c1) \<Rightarrow> overlay_process lib ps c1)"

definition overlay_start ::
  "overlay_lib \<Rightarrow> ('c, 'h, 't, 'r, 'q, 'i) cache_lib \<Rightarrow> (string + (string + ws_message) list) list
     \<Rightarrow> ('c, 'h, 't, 'q) flashblocks_cache \<Rightarrow> bool \<times> ('c, 'h, 't, 'q) flashblocks_cache" where
  "overlay_start olib lib conns c = overlay_process lib (fst (overlay_connect olib conns 1)) c"

section \<open>FlashblocksApiExt\<close>

datatype block_id = BlockHash b256 | BlockNumber block_number_or_tag

fun is_pending :: "block_id \<Rightarrow> bool" where
  "is_pending (BlockNumber Pending) = True"
| "is_pending _ = False"

text \<open>The node's own API.\<close>

record ('h, 't, 'q) eth_api =
  eth_rpc_block :: "block_number_or_tag \<Rightarrow> bool \<Rightarrow> string + ('h, 't) rpc_block option"
  eth_transaction_receipt :: "b256 \<Rightarrow> string + 'q option"
  eth_balance :: "address \<Rightarrow> block_id option \<Rightarrow> string + u256"
  eth_transaction_count :: "address \<Rightarrow> block_id option \<Rightarrow> string + u256"

datatype 'a rpc_answer = RpcAnswer "string + 'a" | RpcHandlerPanic

definition ext_block_by_number ::
  "('c, 'h, 't, 'r, 'q, 'i) cache_lib \<Rightarrow> ('h, 't, 'q) eth_api \<Rightarrow> ('c, 'h, 't, 'q) flashblocks_cache
     \<Rightarrow> block_number_or_tag \<Rightarrow> bool \<Rightarrow> ('h, 't) rpc_block option rpc_answer" where
  "ext_block_by_number lib eth c number full =
     (if number = Pending then
        (case inner_get_block lib full c of Inr b \<Rightarrow> RpcAnswer (Inr b) | Inl _ \<Rightarrow> RpcHandlerPanic)
      else RpcAnswer (eth_rpc_block eth number full))"

definition ext_get_transaction_receipt ::
  "('h, 't, 'q) eth_api \<Rightarrow> ('c, 'h, 't, 'q) flashblocks_cache \<Rightarrow> b256 \<Rightarrow> string + 'q option" where
  "ext_get_transaction_receipt eth c tx_hash =
     (case inner_get_receipt tx_hash c of
        Some fb_receipt \<Rightarrow> Inr (Some fb_receipt)
      | None \<Rightarrow> eth_transaction_receipt eth tx_hash)"

text \<open>\<^verbatim>\<open>BlockId::default()\<close> is the latest block.\<close>

definition block_id_or_default :: "block_id option \<Rightarrow> block_id" where
  "block_id_or_default block_number = (case block_number of Some b \<Rightarrow> b | None \<Rightarrow> BlockNumber Latest)"

definition ext_get_balance ::
  "('h, 't, 'q) eth_api \<Rightarrow> ('c, 'h, 't, 'q) flashblocks_cache \<Rightarrow> address \<Rightarrow> block_id option \<Rightarrow> string + u256" where
  "ext_get_balance eth c address block_number =
     (case (is_pending (block_id_or_default block_number), inner_get_balance address c) of
        (True, Some balance) \<Rightarrow> Inr balance
      | _ \<Rightarrow> eth_balance eth address block_number)"

definition ext_get_transaction_count ::
  "('h, 't, 'q) eth_api \<Rightarrow> ('c, 'h, 't, 'q) flashblocks_cache \<Rightarrow> address \<Rightarrow> block_id option \<Rightarrow> string + u256" where
  "ext_get_transaction_count eth c address block_number =
     (if is_pending (block_id_or_default block_number) then
        (case eth_transaction_count eth address (Some (BlockNumber Latest)) of
           Inl e \<Rightarrow> Inl e
         | Inr latest_count \<Rightarrow>
             (case inner_get_nonce address c of
                Some count \<Rightarrow> Inr (latest_count + ucast count)
              | None \<Rightarrow> eth_transaction_count eth address block_number))
      else eth_transaction_count eth address block_number)"

section \<open>Answers\<close>

lemma reachable_block:
  assumes "reach (\<lambda>c. c = cache_new spec) (cache_step lib) c" "block_decodes lib dec" "fc_block c = Some block"
  shows "fc_nonce_cache c = nonce_table lib (blk_transactions block)"
    and "dom (fc_receipts_cache c) = fl_tx_hash lib ` set (blk_transactions block)"
    and "\<forall>tx \<in> set (blk_transactions block). fl_recover_signer lib tx \<noteq> None"
proof -
  have "cache_inv lib c" using assms(1) by (rule cache.reach_inv)
  then obtain acc where "cache_rep lib acc c" using assms(2) by (auto simp: cache_inv_def)
  with assms(3) show "fc_nonce_cache c = nonce_table lib (blk_transactions block)"
    "dom (fc_receipts_cache c) = fl_tx_hash lib ` set (blk_transactions block)"
    "\<forall>tx \<in> set (blk_transactions block). fl_recover_signer lib tx \<noteq> None"
    by (simp_all add: cache_rep_def)
qed


text \<open>
  Everything else is the node's. Queries for a block that is not the pending one, for an address or a
  transaction the flashblocks did not touch, are answered exactly as the node answers them, whatever is
  in the cache.
\<close>

theorem other_queries_are_the_nodes:
  "(number \<noteq> Pending \<longrightarrow> ext_block_by_number lib eth c number full = RpcAnswer (eth_rpc_block eth number full)) \<and>
   (\<not> is_pending (block_id_or_default bn) \<longrightarrow>
      ext_get_balance eth c a bn = eth_balance eth a bn \<and>
      ext_get_transaction_count eth c a bn = eth_transaction_count eth a bn) \<and>
   (fc_balance_cache c a = None \<longrightarrow> ext_get_balance eth c a bn = eth_balance eth a bn) \<and>
   (fc_receipts_cache c h = None \<longrightarrow> ext_get_transaction_receipt eth c h = eth_transaction_receipt eth h)"
  by (auto simp: ext_block_by_number_def ext_get_balance_def ext_get_transaction_count_def inner_get_balance_def
      ext_get_transaction_receipt_def inner_get_receipt_def split: bool.split option.split)

lemma collect_txs_missing:
  "tx \<in> set txs \<Longrightarrow> receipts (fl_hash_to_string lib (fl_tx_hash lib tx)) = None \<Longrightarrow>
     collect_txs lib receipts txs nonce_map rs = Inl (CachePanic ''Receipt should exist'')"
  by (induction lib receipts txs nonce_map rs rule: collect_txs.induct)
    (auto simp: Let_def split: option.split)

text \<open>
  C35: one flashblock without a receipt stops the overlay. If a flashblock is accepted but its metadata has
  no receipt for some transaction of the block so far, the processing task panics: the cache keeps its
  state, and no later flashblock is ever processed.
\<close>

theorem missing_receipt_stops_overlay:
  assumes "fl_metadata lib (fb_metadata p) = Inr md" "cache_extend lib p c = Inr (block, c1)"
    and "tx \<in> set (blk_transactions block)" "md_receipts md (fl_hash_to_string lib (fl_tx_hash lib tx)) = None"
  shows "overlay_process lib (p # ps) c = (False, c)"
  using assms collect_txs_missing [OF assms(3), of "md_receipts md" lib Map.empty "[]"]
  by (simp add: process_payload_def inner_process_payload_def)

section \<open>The stream\<close>

lemma overlay_connect_pauses:
  "snd (overlay_connect lib conns b) =
     map (\<lambda>k. if k = 0 then b else min (b * 2 ^ k) MAX_BACKOFF) [0..<length (filter isl conns)]"
proof (induction lib conns b rule: overlay_connect.induct)
  case (3 lib e conns b)
  have "(if k = 0 then min (b * 2) MAX_BACKOFF else min (min (b * 2) MAX_BACKOFF * 2 ^ k) MAX_BACKOFF) =
      min (b * 2 ^ Suc k) MAX_BACKOFF" for k
  proof -
    have grow: "x \<le> x * 2 ^ k" for x :: nat by simp
    show ?thesis
    proof (cases "b * 2 \<le> MAX_BACKOFF")
      case False
      then have "MAX_BACKOFF \<le> b * 2 * 2 ^ k" using grow [of "b * 2"] by linarith
      with False show ?thesis by (simp add: min_absorb2 mult.assoc)
    qed (simp add: min_absorb1 mult.assoc)
  qed
  then show ?case
    using 3 by (simp add: case_prod_beta upt_conv_Cons map_Suc_upt [symmetric] comp_def del: upt_Suc)
qed (simp_all add: case_prod_beta)

text \<open>
  The overlay's pauses only grow. The pause before the \<open>k\<close>-th retry is \<open>2^k\<close> seconds up to 10, counted
  over all failed attempts since the start: a successful connection between them does not bring it back to
  one second, and a connection that ends is followed by the next attempt without a pause.
\<close>

theorem overlay_pauses:
  "snd (overlay_connect olib conns 1) = map (\<lambda>k. min (2 ^ k) 10) [0..<length (filter isl conns)]"
  unfolding overlay_connect_pauses by (auto simp: MAX_BACKOFF_def)

section \<open>Witnesses\<close>

definition sample_eth :: "(u64, bytes, u64 \<times> nat) eth_api" where
  "sample_eth = \<lparr>eth_rpc_block = (\<lambda>_ _. Inr None), eth_transaction_receipt = (\<lambda>_. Inr None),
     eth_balance = (\<lambda>_ _. Inr 0), eth_transaction_count = (\<lambda>_ _. Inr 40)\<rparr>"


theorem other_queries_are_the_nodes_witness:
  "ext_get_balance sample_eth sample_cache 7 None = Inr 0"
  using other_queries_are_the_nodes [of Latest sample_cache_lib sample_eth sample_cache True None 7 0]
  by (simp add: block_id_or_default_def) (simp add: sample_eth_def)

theorem missing_receipt_stops_overlay_witness:
  "overlay_process (sample_cache_lib\<lparr>fl_metadata := (\<lambda>_. Inr \<lparr>md_receipts = Map.empty, md_new_account_balances = [],
       md_block_number = 1\<rparr>)\<rparr>) [sample_pending, sample_pending] (cache_new ()) = (False, cache_new ())"
proof -
  let ?lib = "sample_cache_lib\<lparr>fl_metadata := (\<lambda>_. Inr \<lparr>md_receipts = Map.empty, md_new_account_balances = [],
       md_block_number = 1\<rparr>)\<rparr>"
  have "builder_extend sample_pending flashblock_builder_new =
      (Inr (), \<lparr>bld_base = Some sample_base, bld_flashblocks = [sample_diff [[1], [2], [3]]]\<rparr>)"
    by (simp add: builder_extend_def flashblock_builder_new_def sample_pending_def sample_fb_def)
  then have "\<exists>c1. cache_extend ?lib sample_pending (cache_new ()) = Inr (sample_block, c1)"
    by (simp add: cache_extend_def cache_reset_def cache_new_def build_envelope_def execution_payload_of_def
        sample_cache_lib_def sample_block_def sample_base_def sample_diff_def sample_pending_def sample_fb_def Let_def)
  then obtain c1 where c1: "cache_extend ?lib sample_pending (cache_new ()) = Inr (sample_block, c1)" ..
  have "[1] \<in> set (blk_transactions sample_block)" by (simp add: sample_block_def)
  from missing_receipt_stops_overlay [OF _ c1 this, of "\<lparr>md_receipts = Map.empty, md_new_account_balances = [],
       md_block_number = 1\<rparr>" "[sample_pending]"] show ?thesis by simp
qed

end
