(* ===== verification/Fb_Node.thy ===== *)
theory Fb_Node
  imports Fb_Rpc
begin

text \<open>
  The node with the flashblocks overlay (\<^verbatim>\<open>bin/main.rs\<close> of \<^verbatim>\<open>flashblocks-rpc\<close>): with \<^verbatim>\<open>--flashblocks.enabled\<close> the four
  methods of \<^verbatim>\<open>trait EthApiOverride\<close> (\<^verbatim>\<open>rpc.rs\<close>) replace the node's own, over a cache that is fed from the websocket;
  otherwise the node answers for itself. The node is the parameter \<open>eth\<close>, its other methods are untouched.
\<close>

section \<open>Queries\<close>

datatype eth_query =
    QBlockByNumber block_number_or_tag bool
  | QTransactionReceipt b256
  | QBalance address "block_id option"
  | QTransactionCount address "block_id option"

datatype ('h, 't, 'q) eth_answer = ABlock "('h, 't) rpc_block option" | AReceipt "'q option" | ANumber u256

fun node_answer :: "('h, 't, 'q) eth_api \<Rightarrow> eth_query \<Rightarrow> ('h, 't, 'q) eth_answer rpc_answer" where
  "node_answer eth (QBlockByNumber number full) = RpcAnswer (map_sum (\<lambda>e. e) ABlock (eth_rpc_block eth number full))"
| "node_answer eth (QTransactionReceipt h) = RpcAnswer (map_sum (\<lambda>e. e) AReceipt (eth_transaction_receipt eth h))"
| "node_answer eth (QBalance a block_id) = RpcAnswer (map_sum (\<lambda>e. e) ANumber (eth_balance eth a block_id))"
| "node_answer eth (QTransactionCount a block_id) = RpcAnswer (map_sum (\<lambda>e. e) ANumber (eth_transaction_count eth a block_id))"

fun ext_answer ::
  "('c, 'h, 't, 'r, 'q, 'i) cache_lib \<Rightarrow> ('h, 't, 'q) eth_api \<Rightarrow> ('c, 'h, 't, 'q) flashblocks_cache \<Rightarrow> eth_query
     \<Rightarrow> ('h, 't, 'q) eth_answer rpc_answer" where
  "ext_answer lib eth c (QBlockByNumber number full) =
     map_rpc_answer ABlock (ext_block_by_number lib eth c number full)"
| "ext_answer lib eth c (QTransactionReceipt h) =
     RpcAnswer (map_sum (\<lambda>e. e) AReceipt (ext_get_transaction_receipt eth c h))"
| "ext_answer lib eth c (QBalance a block_id) =
     RpcAnswer (map_sum (\<lambda>e. e) ANumber (ext_get_balance eth c a block_id))"
| "ext_answer lib eth c (QTransactionCount a block_id) =
     RpcAnswer (map_sum (\<lambda>e. e) ANumber (ext_get_transaction_count eth c a block_id))"

text \<open>The answer of the node after the given connections of the overlay.\<close>

definition overlay_node ::
  "bool \<Rightarrow> overlay_lib \<Rightarrow> ('c, 'h, 't, 'r, 'q, 'i) cache_lib \<Rightarrow> 'c \<Rightarrow> ('h, 't, 'q) eth_api
     \<Rightarrow> (string + (string + ws_message) list) list \<Rightarrow> eth_query \<Rightarrow> ('h, 't, 'q) eth_answer rpc_answer" where
  "overlay_node flashblocks_enabled olib lib chain_spec eth conns query =
     (if flashblocks_enabled
      then ext_answer lib eth (snd (overlay_start olib lib conns (cache_new chain_spec))) query
      else node_answer eth query)"

section \<open>Reachable caches\<close>

lemma overlay_process_reach:
  "reach init (cache_step lib) c \<Longrightarrow> reach init (cache_step lib) (snd (overlay_process lib ps c))"
proof (induction lib ps c rule: overlay_process.induct)
  case (2 lib p ps c)
  have "reach init (cache_step lib) (snd (process_payload lib p c))"
    by (rule reach_step [OF "2.prems"]) (rule cache_process)
  with "2.IH" show ?case
    by (auto split: prod.split sum.split cache_error.split)
qed simp

lemma overlay_start_reach:
  "reach (\<lambda>c. c = cache_new spec) (cache_step lib) (snd (overlay_start olib lib conns (cache_new spec)))"
  unfolding overlay_start_def by (rule overlay_process_reach) (simp add: reach_init)

section \<open>What the overlay changes\<close>

text \<open>The queries that the overlay may answer differently from the node: those about the pending block.\<close>

fun pending_query :: "('c, 'h, 't, 'q) flashblocks_cache \<Rightarrow> eth_query \<Rightarrow> bool" where
  "pending_query c (QBlockByNumber number _) \<longleftrightarrow> number = Pending"
| "pending_query c (QTransactionReceipt h) \<longleftrightarrow> fc_receipts_cache c h \<noteq> None"
| "pending_query c (QBalance _ block_id) \<longleftrightarrow> is_pending (block_id_or_default block_id)"
| "pending_query c (QTransactionCount _ block_id) \<longleftrightarrow> is_pending (block_id_or_default block_id)"

lemma ext_answer_node: "\<not> pending_query c query \<Longrightarrow> ext_answer lib eth c query = node_answer eth query"
  by (cases query)
    (auto simp: ext_block_by_number_def ext_get_transaction_receipt_def inner_get_receipt_def ext_get_balance_def
      ext_get_transaction_count_def id_def split: bool.split)

lemma ext_answer_no_panic:
  assumes "reach (\<lambda>c. c = cache_new spec) (cache_step lib) c" "block_decodes lib dec"
  shows "ext_answer lib eth c query \<noteq> RpcHandlerPanic"
proof -
  have "inner_get_block lib full c \<noteq> Inl e" for full e
  proof (cases "fc_block c")
    case (Some block)
    show ?thesis
      using those_map_Some [OF reachable_block(3) [OF assms Some]]
      by (cases full) (simp_all add: inner_get_block_def Some Let_def)
  qed (simp add: inner_get_block_def)
  then show ?thesis
    by (cases query) (auto simp: ext_block_by_number_def split: sum.split)
qed

text \<open>
  The overlay only concerns the pending block. Whatever connections and messages the overlay has seen, no query makes
  a handler of the node panic, and without \<^verbatim>\<open>--flashblocks.enabled\<close>, or for a query that is not about the pending
  block or the receipt of one of its transactions, the answer is the node's own.
\<close>

theorem overlay_only_concerns_the_pending_block:
  assumes "block_decodes lib dec"
  shows "(enabled \<longrightarrow> overlay_node enabled olib lib spec eth conns query \<noteq> RpcHandlerPanic) \<and>
    (\<not> enabled \<or> \<not> pending_query (snd (overlay_start olib lib conns (cache_new spec))) query \<longrightarrow>
       overlay_node enabled olib lib spec eth conns query = node_answer eth query)"
  using ext_answer_no_panic [OF overlay_start_reach assms] by (auto simp: overlay_node_def ext_answer_node)



end
