(* ===== verification/Spec2Isabelle.thy ===== *)
theory Spec2Isabelle
  imports Server_Panics Server_Progress Fb_Interleaving Http_Stack Ws_Shutdown Fb_Node
begin

text \<open>
  A verification library for \<^bold>\<open>rollup-boost\<close>, the sidecar that lets an OP-stack sequencer use blocks of an external
  builder, together with its flashblocks (pre-confirmation) path, the websocket proxy that fans flashblocks out,
  and the RPC overlay that serves the pending state from them. Paths below are relative to \<^verbatim>\<open>src/crates\<close>.

  \<^bold>\<open>The program and its parts.\<close>

  The consensus client talks Engine API to \<^verbatim>\<open>RollupBoostServer\<close> (\<^verbatim>\<open>rollup-boost/src/server.rs\<close>), which forwards
  each call to the L2 execution client and, depending on execution mode and health, to the builder. On
  \<^verbatim>\<open>getPayload\<close> it asks both, validates the builder's block with the L2 client, and picks one. The builder is an
  \<^verbatim>\<open>RpcClient\<close>, or the flashblocks service, which assembles a block from the flashblocks its receiver gets over a
  websocket and publishes each accepted flashblock to its own websocket clients. In front of the server an HTTP layer
  answers probes and passes everything that is not an Engine API call to the nodes; beside it run the health loop, the
  debug API through which the operator sets the mode, and the metrics endpoint. The websocket proxy relays one or
  more upstream flashblock streams to many clients under rate limits. The overlay reads such a stream and answers
  four \<^verbatim>\<open>eth_\<close> queries about the pending block.

  \<^bold>\<open>Theories and what they model.\<close> A \<^verbatim>\<open>struct\<close> is a \<^theory_text>\<open>record\<close>, an \<^verbatim>\<open>enum\<close> a \<^theory_text>\<open>datatype\<close>, \<^verbatim>\<open>Result\<close> a sum with the error on
  the left, a method a function that returns its result with the new state; definitions carry the names of the
  code.

  \<^item> \<open>Prelude\<close>: machine words, string functions of the standard library, the reachability predicate and the locale
    \<open>invariant_system\<close>, which the state machines of the library interpret.
  \<^item> \<open>Payload\<close> (\<^verbatim>\<open>rollup-boost-types\<close>): payload envelopes, flashblocks, \<^verbatim>\<open>PayloadTraceContext\<close>.
  \<^item> \<open>Selection\<close> (\<^verbatim>\<open>selection.rs\<close>): the gas policy with exact binary64 arithmetic.
  \<^item> \<open>Engine_Client\<close> (\<^verbatim>\<open>engine_api.rs\<close>, \<^verbatim>\<open>client/rpc.rs\<close>): the trait as a record of operations, the locale
    \<open>engine_api_ext\<close> with what its implementations promise, the RPC client. \<open>Samples\<close>: inputs for witnesses.
  \<^item> \<open>Outbound\<close> (\<^verbatim>\<open>flashblocks/outbound.rs\<close>), \<open>Flashblocks_Service\<close> (\<^verbatim>\<open>flashblocks/service.rs\<close>) and \<open>Inbound\<close>
    (\<^verbatim>\<open>flashblocks/inbound.rs\<close>, \<^verbatim>\<open>args.rs\<close>): publisher with listener and clients, service with its builder, receiver
    with its two tasks per connection. \<open>Fb_Pipeline\<close> (\<^verbatim>\<open>flashblocks/launcher.rs\<close>): all three with the channel
    between them as one step relation. \<open>Fb_Interleaving\<close>: the operations of the service as their lock-by-lock steps.
  \<^item> \<open>Health\<close> (\<^verbatim>\<open>health.rs\<close>, \<^verbatim>\<open>probe.rs\<close>, \<^verbatim>\<open>debug_api.rs\<close>), \<open>Server\<close> and \<open>Server_Props\<close> (\<^verbatim>\<open>server.rs\<close>): the health
    loop, every Engine API handler, and the theorems about them. \<open>Server_Tasks\<close>: the handlers as concurrent tasks, each
    step up to the next \<^verbatim>\<open>await\<close>; \<open>Server_Async\<close>, \<open>Server_Panics\<close> and \<open>Server_Progress\<close>: what holds when they interleave.
  \<^item> \<open>Http_Proxy\<close> (\<^verbatim>\<open>proxy.rs\<close>, \<^verbatim>\<open>client/http.rs\<close>) and \<open>Auth_Client\<close> (\<^verbatim>\<open>client/auth.rs\<close>): routing of HTTP requests and
    the authenticated client.
  \<^item> \<open>Telemetry\<close> (\<^verbatim>\<open>tracing.rs\<close>, \<^verbatim>\<open>metrics.rs\<close>, \<^verbatim>\<open>version.rs\<close>, \<^verbatim>\<open>debug_api.rs\<close>): the span processor, the metrics endpoint,
    the version gauge, and the debug API with its wire format and client.
  \<^item> \<open>Service\<close> (\<^verbatim>\<open>cli.rs\<close>, \<^verbatim>\<open>bin/main.rs\<close>, \<^verbatim>\<open>init_tracing\<close>, the constructors of \<^verbatim>\<open>server.rs\<close> and \<^verbatim>\<open>client/rpc.rs\<close>): the
    start of the program. \<open>Http_Stack\<close> (\<^verbatim>\<open>cli.rs\<close>, \<^verbatim>\<open>trait EngineApi\<close>): the running service, with probe layer, proxy
    layer, RPC module, debug server, health loop and detached tasks as one state machine.
  \<^item> \<open>Rate_Limit\<close>, \<open>Ws_Auth\<close>, \<open>Ws_Server\<close>, \<open>Ws_Subscriber\<close> (\<^verbatim>\<open>websocket-proxy/src\<close>: \<^verbatim>\<open>rate_limit.rs\<close>, \<^verbatim>\<open>auth.rs\<close>,
    \<^verbatim>\<open>server.rs\<close> with \<^verbatim>\<open>registry.rs\<close> and \<^verbatim>\<open>client.rs\<close>, \<^verbatim>\<open>subscriber.rs\<close>) and \<open>Ws_Relay\<close> (\<^verbatim>\<open>main.rs\<close>): the limiters
    behind one locale, the keys, the handlers and client loops, the upstream connections, and the proxy as a whole.
    \<open>Ws_Shutdown\<close> (\<^verbatim>\<open>main.rs\<close>): its tasks, the cancellation token and the end of \<^verbatim>\<open>main\<close>.
  \<^item> \<open>Fb_Cache\<close> and \<open>Fb_Rpc\<close> (\<^verbatim>\<open>flashblocks-rpc/src\<close>: \<^verbatim>\<open>cache.rs\<close>, \<^verbatim>\<open>flashblocks.rs\<close>, \<^verbatim>\<open>rpc.rs\<close>): the pending block and
    what is answered from it. \<open>Fb_Node\<close> (\<^verbatim>\<open>bin/main.rs\<close>): the node with and without the overlay.

  \<^bold>\<open>What the lemmas show.\<close>

  \<^item> Block building: a returned block is the L2 client's or was vetted by it; the builder cannot make a request fail or
    change an answer to the consensus client; a good builder block is used; disabled and dry-run mode and unhealthy
    builders are respected; the health probe after each operation; no panic in any reachable state as long as each
    payload is fetched once, and the panic when it is fetched twice with an external state root.
  \<^item> Concurrency: a task that is not interrupted is the handler it models, and likewise for the steps of the flashblocks
    service; responses are the L2 client's or approved by it in every interleaving of any number of requests; a panic
    needs a second request for the same payload; every request that is polled finishes; and the two races of the
    service between its payload id and its builder.
  \<^item> The running service: which layer answers which request and what it can change; the status of \<^verbatim>\<open>/healthz\<close> after a
    \<^verbatim>\<open>getPayload\<close>; the mode is exactly what the operator last set, in handlers, gauge and debug API; switching it to
    disabled silences the Engine API towards the builder and nothing else.
  \<^item> Telemetry: the differences between builder and L2 blocks reach the histograms unchanged, and labels stay within a
    fixed set.
  \<^item> Pre-confirmations: the service refines a specification of accepted flashblocks; through the whole pipeline, in any
    interleaving, what clients see are the flashblocks of the block that will be handed out; the receiver neither
    loses nor invents flashblocks, only answered pings keep its connection alive, and it backs off.
  \<^item> Access: the nodes see only authenticated requests of the methods meant for them; the service starts with each
    client on its own node's URL and secret.
  \<^item> Websocket proxy: limits hold in every reachable state for both limiters and every behaviour of Redis; key arguments
    round trip; only holders of keys get in; the started proxy relays without gaps and within its configured limits, and
    stops when it is told to and not before, unless a period of the command line is too small.
  \<^item> Overlay: the cache refines the block described by the accepted flashblocks, answers of the four queries, and how
    one flashblock without a receipt ends its processing; other queries are the node's; and how a block that the node has
    imported is counted twice. At the end of this theory: what the proxy relays is what the
    overlay processes.

  \<^bold>\<open>Time, loops and bounds.\<close> A task that waits in a loop is a recursion over the finite list of what it receives, or a
  step relation whose reachable states cover every prefix of every run, so no fuel is needed; the recursions are
  structural, and the scanners of UTF-8 text and the printer of numbers have their measures. Durations are natural numbers
  of milliseconds or seconds as the code has them, instants readings of one clock. Integers are words of their width
  where they are stored or wrap around (\<^verbatim>\<open>u64\<close>, \<^verbatim>\<open>u128\<close>, \<^verbatim>\<open>U256\<close>); counters that are only compared are natural numbers.
  Broadcast channels keep the last \<open>cap\<close> messages for an arbitrary \<open>cap\<close>; the flashblocks channel has its 100 places.
  The results hold for every interleaving that the step relations allow: in \<open>Server_Tasks\<close> and \<open>Fb_Interleaving\<close> a step
  ends at every \<^verbatim>\<open>await\<close> and every lock, elsewhere it is one reaction of one task.

  \<^bold>\<open>Parameters.\<close> Code of other crates is an argument of the definitions that use it, with what is relied on as
  hypotheses that the witnesses satisfy: JSON (\<^verbatim>\<open>serde_json\<close>), the JSON-RPC transport and HTTP stack, Redis, the
  \<^verbatim>\<open>lru\<close>, \<^verbatim>\<open>moka\<close>, \<^verbatim>\<open>backoff\<close>, \<^verbatim>\<open>uuid\<close> and \<^verbatim>\<open>brotli\<close> crates, the JWT encoder, and the block, receipt and signature
  libraries of the node.

  \<^bold>\<open>Not modelled.\<close> Command line parsing by \<^verbatim>\<open>clap\<close> and the texts of log messages; the exporters of logs, spans and
  metrics, and the sockets, TLS and signal delivery of the operating system, which other crates provide and which appear
  as parameters and events; of \<^verbatim>\<open>tracing\<close> spans only the fields that become metrics, since the others only observe; the
  node that the overlay's binary extends. What remains of the code is imports, module declarations, trait headers
  and the trivial \<^verbatim>\<open>poll_ready\<close> and \<^verbatim>\<open>Sink\<close> methods. Tests and the build script are not modelled.
\<close>

section \<open>From the builder's flashblocks to the overlay\<close>

text \<open>
  What the upstream subscribers and the ping task feed into the websocket proxy, and the message each becomes.
\<close>

datatype relay_input = UpstreamData bytes | PingDue

fun relay_feed :: "bool \<Rightarrow> (bytes \<Rightarrow> bytes) \<Rightarrow> relay_input list \<Rightarrow> 's relay \<Rightarrow> 's relay" where
  "relay_feed enable_compression compress [] r = r"
| "relay_feed enable_compression compress (UpstreamData data # ins) r =
     relay_feed enable_compression compress ins (relay_upstream enable_compression compress data r)"
| "relay_feed enable_compression compress (PingDue # ins) r =
     relay_feed enable_compression compress ins (relay_ping r)"

fun relay_message :: "bool \<Rightarrow> (bytes \<Rightarrow> bytes) \<Rightarrow> relay_input \<Rightarrow> ws_message" where
  "relay_message enable_compression compress (UpstreamData data) =
     Binary (if enable_compression then compress data else data)"
| "relay_message enable_compression compress PingDue = Ping []"

fun upstream_data :: "relay_input list \<Rightarrow> bytes list" where
  "upstream_data [] = []"
| "upstream_data (UpstreamData data # ins) = data # upstream_data ins"
| "upstream_data (PingDue # ins) = upstream_data ins"

lemma upstream_data_append: "upstream_data (xs @ ys) = upstream_data xs @ upstream_data ys"
  by (induction xs rule: upstream_data.induct) simp_all

lemma relay_feed_sent:
  assumes "0 < wc_receivers (ry_channel r)"
  shows "wc_sent (ry_channel (relay_feed ec compress ins r)) =
     wc_sent (ry_channel r) @ map (relay_message ec compress) ins"
  using assms
  by (induction ec compress ins r rule: relay_feed.induct)
    (simp_all add: relay_upstream_def relay_ping_def main_listener_def Let_def)

text \<open>How the overlay's library must relate to the proxy's compression and to the encoding of flashblocks.\<close>

definition understands ::
  "overlay_lib \<Rightarrow> bool \<Rightarrow> (bytes \<Rightarrow> bytes) \<Rightarrow> (flashblocks_payload_v1 \<Rightarrow> bytes) \<Rightarrow> flashblocks_payload_v1 \<Rightarrow> bool" where
  "understands olib enable_compression compress enc q \<longleftrightarrow>
     looks_like_json (enc q) \<and> ov_from_json olib (enc q) = Inr q \<and>
     (enable_compression \<longrightarrow>
        ov_decompress olib (compress (enc q)) = Inr (enc q) \<and> \<not> looks_like_json (compress (enc q)))"

lemma understands_decode:
  "understands olib ec compress enc q \<Longrightarrow>
     try_decode_message olib (if ec then compress (enc q) else enc q) = Inr q"
  by (auto simp: understands_def try_decode_message_def try_parse_message_def looks_like_json_def)

lemma overlay_read_relayed:
  "upstream_data ins = map enc qs \<Longrightarrow> \<forall>q \<in> set qs. understands olib ec compress enc q \<Longrightarrow>
     overlay_read olib (map (Inr \<circ> relay_message ec compress) ins) = qs"
proof (induction ins arbitrary: qs rule: upstream_data.induct)
  case (2 data ins)
  then obtain q qs' where "qs = q # qs'" "data = enc q" "upstream_data ins = map enc qs'" by auto
  with 2 show ?case using understands_decode [of olib ec compress enc q] by simp
qed simp_all



end
